(* ===== verification/GL_Prelude.thy ===== *)
theory GL_Prelude
  imports Main "HOL-Library.Word"
begin

text \<open>
  Shared vocabulary of the Gatherlink development.

  \<^item> \<open>py_error\<close> and \<open>'a res\<close>: a Python call that may raise. \<open>Inl e\<close> is the raised exception,
    \<open>Inr x\<close> the returned value; \<open>rbind\<close> sequences two calls and \<open>foreach\<close> is a
    \<^verbatim>\<open>for\<close> loop that threads a state and stops at the first exception; \<open>map_res\<close> is a list
    comprehension over a call that may raise.
  \<^item> \<open>('k, 'v) dict\<close>: a Python dictionary, an association list in insertion order.
    \<open>dict_set\<close> overwrites in place or appends, as \<^verbatim>\<open>d[k] = v\<close> does.
  \<^item> \<open>min_by\<close>: Python's \<^verbatim>\<open>min(xs, key=f)\<close>, which returns the first minimum.
  \<^item> \<open>py_round_div\<close>: \<^verbatim>\<open>round(n / d)\<close> with Python's half-to-even rule.
\<close>

named_theorems res_simps \<open>rewrite rules for calls that may raise\<close>
named_theorems const_simps \<open>the numeric constants of the source\<close>

section \<open>Calls that may raise\<close>

datatype py_error =
    ValueError string
  | OverflowError
  | UnicodeEncodeError
  | IndexError
  | KeyError
  | TypeError
  | ValidationError string

type_synonym 'a res = "py_error + 'a"

definition rbind :: "'a res \<Rightarrow> ('a \<Rightarrow> 'b res) \<Rightarrow> 'b res" where
  "rbind r f = (case r of Inl e \<Rightarrow> Inl e | Inr x \<Rightarrow> f x)"

fun foreach :: "('a \<Rightarrow> 's \<Rightarrow> 's res) \<Rightarrow> 'a list \<Rightarrow> 's \<Rightarrow> 's res" where
  "foreach f [] s = Inr s"
| "foreach f (x # xs) s = rbind (f x s) (foreach f xs)"

fun map_res :: "('a \<Rightarrow> 'b res) \<Rightarrow> 'a list \<Rightarrow> 'b list res" where
  "map_res f [] = Inr []"
| "map_res f (x # xs) = rbind (f x) (\<lambda>y. rbind (map_res f xs) (\<lambda>ys. Inr (y # ys)))"

section \<open>Dictionaries in insertion order\<close>

type_synonym ('k, 'v) dict = "('k \<times> 'v) list"

abbreviation dict_get :: "('k, 'v) dict \<Rightarrow> 'k \<Rightarrow> 'v option" where
  "dict_get \<equiv> map_of"

fun dict_set :: "'k \<Rightarrow> 'v \<Rightarrow> ('k, 'v) dict \<Rightarrow> ('k, 'v) dict" where
  "dict_set k v [] = [(k, v)]"
| "dict_set k v ((k', v') # d) = (if k = k' then (k', v) # d else (k', v') # dict_set k v d)"

fun dict_del :: "'k \<Rightarrow> ('k, 'v) dict \<Rightarrow> ('k, 'v) dict" where
  "dict_del k [] = []"
| "dict_del k ((k', v') # d) = (if k = k' then d else (k', v') # dict_del k d)"

abbreviation dict_keys :: "('k, 'v) dict \<Rightarrow> 'k list" where
  "dict_keys d \<equiv> map fst d"

abbreviation dict_wf :: "('k, 'v) dict \<Rightarrow> bool" where
  "dict_wf d \<equiv> distinct (dict_keys d)"

section \<open>Selections over lists\<close>

fun min_by :: "('a \<Rightarrow> 'k::linorder) \<Rightarrow> 'a \<Rightarrow> 'a list \<Rightarrow> 'a" where
  "min_by f best [] = best"
| "min_by f best (x # xs) = (if f x < f best then min_by f x xs else min_by f best xs)"

section \<open>Integer arithmetic of the source language\<close>

definition py_round_div :: "int \<Rightarrow> int \<Rightarrow> int" where
  "py_round_div n d =
     (let q = n div d; r = n mod d in
      if 2 * r < d then q else if d < 2 * r then q + 1 else if even q then q else q + 1)"

section \<open>Lemmas\<close>

lemma rbind_Inl [simp, res_simps]: "rbind (Inl e) f = Inl e"
  by (simp add: rbind_def)

lemma rbind_Inr [simp, res_simps]: "rbind (Inr x) f = f x"
  by (simp add: rbind_def)

lemma rbind_eq_Inr [res_simps]: "rbind r f = Inr y \<longleftrightarrow> (\<exists>x. r = Inr x \<and> f x = Inr y)"
  by (cases r) auto

lemma rbind_eq_Inl: "rbind r f = Inl e \<longleftrightarrow> r = Inl e \<or> (\<exists>x. r = Inr x \<and> f x = Inl e)"
  by (cases r) auto

lemma rbind_assoc: "rbind (rbind r f) g = rbind r (\<lambda>x. rbind (f x) g)"
  by (cases r) auto

lemma rbind_total: "\<exists>x. r = Inr x \<Longrightarrow> (\<And>x. \<exists>y. f x = Inr y) \<Longrightarrow> \<exists>y. rbind r f = Inr y"
  by (auto simp: rbind_eq_Inr)

lemma rbind_cong [fundef_cong]:
  "r = r' \<Longrightarrow> (\<And>x. r' = Inr x \<Longrightarrow> f x = g x) \<Longrightarrow> rbind r f = rbind r' g"
  by (cases r') auto

lemma foreach_append: "foreach f (xs @ ys) s = rbind (foreach f xs s) (foreach f ys)"
proof (induction xs arbitrary: s)
  case (Cons x xs)
  then show ?case by (cases "f x s") simp_all
qed simp

lemma foreach_inv:
  assumes "foreach f xs s = Inr t" and "P s"
    and "\<And>x s s'. x \<in> set xs \<Longrightarrow> P s \<Longrightarrow> f x s = Inr s' \<Longrightarrow> P s'"
  shows "P t"
  using assms
proof (induction xs arbitrary: s)
  case (Cons x xs)
  from Cons.prems(1) obtain s' where s': "f x s = Inr s'" "foreach f xs s' = Inr t"
    by (auto simp: rbind_eq_Inr)
  have "P s'" using Cons.prems(2,3) s'(1) by auto
  then show ?case using Cons.IH [OF s'(2)] Cons.prems(3) by auto
qed simp

lemma foreach_total_iff:
  assumes "\<And>x s. (\<exists>t. f x s = Inr t) \<longleftrightarrow> P x"
  shows "(\<exists>t. foreach f xs s = Inr t) \<longleftrightarrow> list_all P xs"
proof (induction xs arbitrary: s)
  case (Cons x xs)
  have "(\<exists>t. foreach f (x # xs) s = Inr t) \<longleftrightarrow> (\<exists>u. f x s = Inr u \<and> (\<exists>t. foreach f xs u = Inr t))"
    by (auto simp: rbind_eq_Inr)
  then show ?case using Cons.IH assms [of x s] by auto
qed simp

lemma map_res_total:
  assumes "\<And>x. x \<in> set xs \<Longrightarrow> \<exists>y. f x = Inr y \<and> Q x y"
  shows "\<exists>ys. map_res f xs = Inr ys \<and> list_all2 Q xs ys"
  using assms
proof (induction xs)
  case (Cons x xs)
  then obtain y ys where "f x = Inr y" "Q x y" "map_res f xs = Inr ys" "list_all2 Q xs ys" by fastforce
  then show ?case by (intro exI [of _ "y # ys"]) simp
qed simp

lemma list_all2_right: "list_all2 Q xs ys \<Longrightarrow> (\<And>x y. Q x y \<Longrightarrow> P y) \<Longrightarrow> list_all P ys"
  by (induction rule: list_all2_induct) auto

lemma dict_get_set [simp]: "dict_get (dict_set k v d) = (dict_get d)(k \<mapsto> v)"
  by (induction d) (auto simp: fun_eq_iff)

lemma dict_keys_set:
  "dict_keys (dict_set k v d) = (if k \<in> set (dict_keys d) then dict_keys d else dict_keys d @ [k])"
proof (induction d)
  case (Cons p d)
  obtain a b where p: "p = (a, b)" by (cases p)
  show ?case
  proof (cases "k = a")
    case False
    then show ?thesis using Cons.IH p by (cases "k \<in> set (dict_keys d)") simp_all
  qed (simp add: p)
qed simp

lemma dict_wf_set [simp, intro]: "dict_wf d \<Longrightarrow> dict_wf (dict_set k v d)"
  by (auto simp: dict_keys_set)

lemma dict_set_fresh: "k \<notin> set (dict_keys d) \<Longrightarrow> dict_set k v d = d @ [(k, v)]"
  by (induction d) auto

lemma dict_set_mem: "(k', v') \<in> set (dict_set k v d) \<Longrightarrow> (k', v') = (k, v) \<or> (k', v') \<in> set d"
  by (induction d) (auto split: if_splits)

lemma dict_get_del [simp]: "dict_wf d \<Longrightarrow> dict_get (dict_del k d) = (dict_get d)(k := None)"
proof (induction d)
  case (Cons p d)
  then show ?case
    by (cases p) (auto simp: fun_eq_iff map_of_eq_None_iff)
qed (simp add: fun_eq_iff)

lemma dict_keys_del: "set (dict_keys (dict_del k d)) \<subseteq> set (dict_keys d)"
  by (induction k d rule: dict_del.induct) (auto split: if_splits)

lemma dict_wf_del [simp, intro]: "dict_wf d \<Longrightarrow> dict_wf (dict_del k d)"
proof (induction d)
  case (Cons p d)
  then show ?case
    using dict_keys_del [of k d] by (cases p) auto
qed simp

lemma fold_dict_set_fresh:
  assumes "distinct (dict_keys xs)" and "set (dict_keys xs) \<inter> set (dict_keys d) = {}"
  shows "fold (\<lambda>(k, v). dict_set k v) xs d = d @ xs"
  using assms
proof (induction xs arbitrary: d)
  case (Cons x xs)
  obtain k v where x: "x = (k, v)" by (cases x)
  have "dict_set k v d = d @ [(k, v)]"
    using Cons.prems x by (intro dict_set_fresh) auto
  then show ?case using Cons x by auto
qed simp

lemma dict_comp_None:
  "dict_get (fold (\<lambda>x. dict_set (f x) (g x)) xs d) n = None \<longleftrightarrow> dict_get d n = None \<and> n \<notin> f ` set xs"
  by (induction xs arbitrary: d) auto

lemma dict_comp_Some:
  "dict_get (fold (\<lambda>x. dict_set (f x) (g x)) xs d) n = Some v \<Longrightarrow>
     dict_get d n = Some v \<or> (\<exists>x\<in>set xs. f x = n \<and> g x = v)"
proof (induction xs arbitrary: d)
  case (Cons x xs)
  then show ?case using Cons.IH [of "dict_set (f x) (g x) d"] by (auto split: if_split_asm)
qed simp

lemma min_by_in: "min_by f b xs \<in> insert b (set xs)"
  by (induction f b xs rule: min_by.induct) auto

lemma min_by_le: "x \<in> insert b (set xs) \<Longrightarrow> f (min_by f b xs) \<le> f x"
proof (induction f b xs arbitrary: x rule: min_by.induct)
  case (2 f best y ys)
  show ?case
  proof (cases "f y < f best")
    case True
    then have "f (min_by f y ys) \<le> f y" using 2(1) by simp
    then show ?thesis using 2 True by fastforce
  next
    case False
    then have "f (min_by f best ys) \<le> f best" using 2(2) by simp
    then show ?thesis using 2 False by fastforce
  qed
qed simp

lemma py_round_div_nonneg: "0 \<le> n \<Longrightarrow> 0 < d \<Longrightarrow> 0 \<le> py_round_div n d"
  by (auto simp: py_round_div_def Let_def pos_imp_zdiv_nonneg_iff)

lemma py_round_div_near:
  assumes "0 < d"
  shows "2 * (d * py_round_div n d) \<le> 2 * n + d" and "2 * n \<le> 2 * (d * py_round_div n d) + d"
proof -
  define m where "m = n mod d"
  define t where "t = d * (n div d)"
  have n: "n = t + m" by (simp add: t_def m_def)
  have r: "0 \<le> m" "m < d" using assms by (simp_all add: m_def)
  have "d * py_round_div n d = t \<and> 2 * m \<le> d \<or> d * py_round_div n d = t + d \<and> d \<le> 2 * m"
    by (auto simp: py_round_div_def Let_def t_def m_def algebra_simps)
  then show "2 * (d * py_round_div n d) \<le> 2 * n + d" "2 * n \<le> 2 * (d * py_round_div n d) + d"
    using n r by auto
qed

lemma py_round_div_mono:
  assumes "0 < d" and "m \<le> n"
  shows "py_round_div m d \<le> py_round_div n d"
proof -
  have q: "m div d \<le> n div d" using assms by (simp add: zdiv_mono1)
  show ?thesis
  proof (cases "m div d = n div d")
    case True
    then have "m mod d \<le> n mod d"
      using assms(2) by (metis add_le_cancel_left mult_div_mod_eq)
    then show ?thesis using True by (auto simp: py_round_div_def Let_def)
  next
    case False
    then have "m div d + 1 \<le> n div d" using q by simp
    then show ?thesis by (auto simp: py_round_div_def Let_def)
  qed
qed

end
