(* ===== verification/Wire_Bytes.thy ===== *)
theory Wire_Bytes
  imports GL_Prelude
begin

text \<open>
  Byte-level operations of the wire code: Python's \<^verbatim>\<open>int.to_bytes\<close>, \<^verbatim>\<open>int.from_bytes\<close>
  (big endian), \<^verbatim>\<open>bytes\<close> indexing and slicing, \<^verbatim>\<open>bytearray.append\<close>, and the helpers
  \<^verbatim>\<open>_append_u16\<close> .. \<^verbatim>\<open>_read_u64\<close> at the end of \<^verbatim>\<open>protocol.py\<close>.

  A call that writes to a \<^verbatim>\<open>bytearray\<close> is a function \<open>bytes \<Rightarrow> bytes res\<close>; \<open>chain\<close> runs
  a list of them in order and stops at the first exception, and \<open>arg r f\<close> is a call whose
  argument expression \<open>r\<close> may itself raise.
\<close>

type_synonym byte = "8 word"
type_synonym bytes = "byte list"

named_theorems append_simps \<open>appenders as concatenation\<close>

section \<open>Integers as big-endian bytes\<close>

fun be_bytes :: "nat \<Rightarrow> int \<Rightarrow> bytes" where
  "be_bytes 0 v = []"
| "be_bytes (Suc n) v = be_bytes n (v div 256) @ [word_of_int v]"

definition to_bytes :: "nat \<Rightarrow> int \<Rightarrow> bytes res" where
  "to_bytes n v = (if 0 \<le> v \<and> v < 256 ^ n then Inr (be_bytes n v) else Inl OverflowError)"

definition from_bytes :: "bytes \<Rightarrow> int" where
  "from_bytes bs = foldl (\<lambda>acc b. acc * 256 + uint b) 0 bs"

section \<open>Slices and indexing\<close>

definition slice :: "'a list \<Rightarrow> nat \<Rightarrow> nat \<Rightarrow> 'a list" where
  "slice xs i j = take (j - i) (drop i xs)"

definition idx :: "bytes \<Rightarrow> nat \<Rightarrow> int res" where
  "idx bs i = (if i < length bs then Inr (uint (bs ! i)) else Inl IndexError)"

section \<open>Writers\<close>

definition chain :: "('s \<Rightarrow> 's res) list \<Rightarrow> 's \<Rightarrow> 's res" where
  "chain = foreach (\<lambda>f s. f s)"

definition arg :: "'a res \<Rightarrow> ('a \<Rightarrow> 's \<Rightarrow> 's res) \<Rightarrow> 's \<Rightarrow> 's res" where
  "arg r f s = rbind r (\<lambda>x. f x s)"

definition byte_range_error :: py_error where
  "byte_range_error = ValueError ''byte must be in range(0, 256)''"

definition append_u8 :: "int \<Rightarrow> bytes \<Rightarrow> bytes res" where
  "append_u8 v out = (if 0 \<le> v \<and> v < 256 then Inr (out @ [word_of_int v]) else Inl byte_range_error)"

definition extend_bytes :: "bytes \<Rightarrow> bytes \<Rightarrow> bytes res" where
  "extend_bytes bs out = Inr (out @ bs)"

definition append_u16 :: "int \<Rightarrow> bytes \<Rightarrow> bytes res" where
  "append_u16 v out = rbind (to_bytes 2 v) (\<lambda>bs. extend_bytes bs out)"

definition append_u32 :: "int \<Rightarrow> bytes \<Rightarrow> bytes res" where
  "append_u32 v out = rbind (to_bytes 4 v) (\<lambda>bs. extend_bytes bs out)"

definition append_u64 :: "int \<Rightarrow> bytes \<Rightarrow> bytes res" where
  "append_u64 v out = rbind (to_bytes 8 v) (\<lambda>bs. extend_bytes bs out)"

definition set_byte :: "nat \<Rightarrow> int \<Rightarrow> bytes \<Rightarrow> bytes res" where
  "set_byte i v out =
     (if \<not> i < length out then Inl IndexError
      else if 0 \<le> v \<and> v < 256 then Inr (out[i := word_of_int v])
      else Inl byte_range_error)"

definition set_slice :: "nat \<Rightarrow> nat \<Rightarrow> bytes \<Rightarrow> bytes \<Rightarrow> bytes" where
  "set_slice i j bs out = take i out @ bs @ drop j out"

definition write_u16 :: "nat \<Rightarrow> int \<Rightarrow> bytes \<Rightarrow> bytes res" where
  "write_u16 offset v out = rbind (to_bytes 2 v) (\<lambda>bs. Inr (set_slice offset (offset + 2) bs out))"

definition write_u64 :: "nat \<Rightarrow> int \<Rightarrow> bytes \<Rightarrow> bytes res" where
  "write_u64 offset v out = rbind (to_bytes 8 v) (\<lambda>bs. Inr (set_slice offset (offset + 8) bs out))"

section \<open>Readers and limits\<close>

definition read_u16 :: "bytes \<Rightarrow> nat \<Rightarrow> int" where
  "read_u16 bs offset = from_bytes (slice bs offset (offset + 2))"

definition read_u32 :: "bytes \<Rightarrow> nat \<Rightarrow> int" where
  "read_u32 bs offset = from_bytes (slice bs offset (offset + 4))"

definition read_u64 :: "bytes \<Rightarrow> nat \<Rightarrow> int" where
  "read_u64 bs offset = from_bytes (slice bs offset (offset + 8))"

definition u16_max :: int where
  [const_simps]: "u16_max = 2 ^ 16 - 1"

definition u32_max :: int where
  [const_simps]: "u32_max = 2 ^ 32 - 1"

definition u64_max :: int where
  [const_simps]: "u64_max = 2 ^ 64 - 1"

section \<open>Lemmas\<close>

lemma length_be_bytes [simp]: "length (be_bytes n v) = n"
  by (induction n arbitrary: v) simp_all

lemma be_bytes_0 [simp]: "be_bytes n v = [] \<longleftrightarrow> n = 0"
  by (cases n) simp_all

lemma from_bytes_Nil [simp]: "from_bytes [] = 0"
  by (simp add: from_bytes_def)

lemma from_bytes_snoc [simp]: "from_bytes (bs @ [b]) = from_bytes bs * 256 + uint b"
  by (simp add: from_bytes_def)

lemma from_bytes_single [simp]: "from_bytes [b] = uint b"
  using from_bytes_snoc [of "[]" b] by simp

lemma uint_byte_bounds [simp]: "0 \<le> uint (b :: byte)" "uint (b :: byte) < 256"
  using uint_lt2p [of b] by simp_all

lemma from_bytes_bounds: "0 \<le> from_bytes bs \<and> from_bytes bs < 256 ^ length bs"
proof (induction bs rule: rev_induct)
  case (snoc b bs)
  have "from_bytes bs * 256 + uint b < (from_bytes bs + 1) * 256" by simp
  also have "\<dots> \<le> 256 ^ length bs * 256" using snoc by (intro mult_right_mono) auto
  finally show ?case using snoc by simp
qed simp

lemma from_bytes_be_bytes: "from_bytes (be_bytes n v) = v mod 256 ^ n"
proof (induction n arbitrary: v)
  case (Suc n)
  have "v mod 256 ^ Suc n = 256 * (v div 256 mod 256 ^ n) + v mod 256"
    using zmod_zmult2_eq [of "256 ^ n" v 256] by simp
  then show ?case
    using Suc by (simp add: unsigned_of_int take_bit_eq_mod)
qed simp

lemma from_bytes_to_bytes: "to_bytes n v = Inr bs \<Longrightarrow> from_bytes bs = v \<and> length bs = n"
  by (auto simp: to_bytes_def from_bytes_be_bytes split: if_splits)

lemma be_bytes_from_bytes: "be_bytes (length bs) (from_bytes bs) = bs"
proof (induction bs rule: rev_induct)
  case (snoc b bs)
  have d: "(from_bytes bs * 256 + uint b) div 256 = from_bytes bs"
    by (simp add: div_pos_pos_trivial)
  have "uint (word_of_int (from_bytes bs * 256 + uint b) :: byte) = (from_bytes bs * 256 + uint b) mod 256"
    by (simp only: uint_word_of_int) simp
  then have "word_of_int (from_bytes bs * 256 + uint b) = b"
    by (intro word_uint_eqI) (simp only: mod_mult_self3, simp)
  then show ?case using snoc d by simp
qed simp

lemma to_bytes_from_bytes: "to_bytes (length bs) (from_bytes bs) = Inr bs"
  using from_bytes_bounds [of bs] by (simp add: to_bytes_def be_bytes_from_bytes)

lemma to_bytes_eq_Inr: "to_bytes n v = Inr bs \<longleftrightarrow> 0 \<le> v \<and> v < 256 ^ n \<and> bs = be_bytes n v"
  by (auto simp: to_bytes_def)

lemma chain_Nil [simp, append_simps]: "chain [] s = Inr s"
  by (simp add: chain_def)

lemma chain_Cons [append_simps]: "chain (f # fs) s = rbind (f s) (chain fs)"
  by (simp add: chain_def)

lemma slice_append [simp]:
  "length xs = i \<Longrightarrow> length ys = j - i \<Longrightarrow> slice (xs @ ys @ zs) i j = ys"
  by (simp add: slice_def)

lemma length_slice [simp]: "length (slice xs i j) = min (j - i) (length xs - i)"
  by (auto simp: slice_def min_def)

lemma idx_total [simp]: "i < length bs \<Longrightarrow> idx bs i = Inr (uint (bs ! i))"
  by (simp add: idx_def)

lemma idx_bounds: "idx bs i = Inr v \<Longrightarrow> 0 \<le> v \<and> v < 256"
  by (auto simp: idx_def split: if_splits)

lemma read_u16_bounds: "0 \<le> read_u16 bs i \<and> read_u16 bs i < 65536"
proof -
  have "(256 :: int) ^ length (slice bs i (i + 2)) \<le> 256 ^ 2" by (intro power_increasing) auto
  then show ?thesis using from_bytes_bounds [of "slice bs i (i + 2)"] by (simp add: read_u16_def)
qed

lemma read_u32_bounds: "0 \<le> read_u32 bs i \<and> read_u32 bs i < 4294967296"
proof -
  have "(256 :: int) ^ length (slice bs i (i + 4)) \<le> 256 ^ 4" by (intro power_increasing) auto
  then show ?thesis using from_bytes_bounds [of "slice bs i (i + 4)"] by (simp add: read_u32_def)
qed

lemma read_u64_bounds: "0 \<le> read_u64 bs i \<and> read_u64 bs i < 18446744073709551616"
proof -
  have "(256 :: int) ^ length (slice bs i (i + 8)) \<le> 256 ^ 8" by (intro power_increasing) auto
  then show ?thesis using from_bytes_bounds [of "slice bs i (i + 8)"] by (simp add: read_u64_def)
qed

lemma append_u8_eq_Inr [append_simps]:
  "append_u8 v out = Inr out' \<longleftrightarrow> 0 \<le> v \<and> v < 256 \<and> out' = out @ [word_of_int v]"
  by (auto simp: append_u8_def)

lemma extend_bytes_eq_Inr [append_simps]: "extend_bytes bs out = Inr out' \<longleftrightarrow> out' = out @ bs"
  by (auto simp: extend_bytes_def)

lemma append_u16_eq_Inr [append_simps]:
  "append_u16 v out = Inr out' \<longleftrightarrow> 0 \<le> v \<and> v < 65536 \<and> out' = out @ be_bytes 2 v"
  by (auto simp: append_u16_def rbind_eq_Inr to_bytes_eq_Inr extend_bytes_def)

lemma append_u32_eq_Inr [append_simps]:
  "append_u32 v out = Inr out' \<longleftrightarrow> 0 \<le> v \<and> v < 4294967296 \<and> out' = out @ be_bytes 4 v"
  by (auto simp: append_u32_def rbind_eq_Inr to_bytes_eq_Inr extend_bytes_def)

lemma append_u64_eq_Inr [append_simps]:
  "append_u64 v out = Inr out' \<longleftrightarrow> 0 \<le> v \<and> v < 18446744073709551616 \<and> out' = out @ be_bytes 8 v"
  by (auto simp: append_u64_def rbind_eq_Inr to_bytes_eq_Inr extend_bytes_def)

lemma arg_eq_Inr [append_simps]: "arg r f s = Inr t \<longleftrightarrow> (\<exists>x. r = Inr x \<and> f x s = Inr t)"
  by (simp add: arg_def rbind_eq_Inr)

lemma read_u16_be [simp]:
  "length pre = i \<Longrightarrow> 0 \<le> v \<Longrightarrow> v < 65536 \<Longrightarrow> read_u16 (pre @ be_bytes 2 v @ post) i = v"
  by (simp add: read_u16_def slice_def from_bytes_be_bytes)

lemma read_u32_be [simp]:
  "length pre = i \<Longrightarrow> 0 \<le> v \<Longrightarrow> v < 4294967296 \<Longrightarrow> read_u32 (pre @ be_bytes 4 v @ post) i = v"
  by (simp add: read_u32_def slice_def from_bytes_be_bytes)

lemma read_u64_be [simp]:
  "length pre = i \<Longrightarrow> 0 \<le> v \<Longrightarrow> v < 18446744073709551616 \<Longrightarrow> read_u64 (pre @ be_bytes 8 v @ post) i = v"
  by (simp add: read_u64_def slice_def from_bytes_be_bytes)

lemmas read_defs = read_u16_def read_u32_def read_u64_def slice_def from_bytes_be_bytes

end
