(* ===== verification/Protocol_Frames.thy ===== *)
theory Protocol_Frames
  imports Wire_Bytes
begin

unbundle bit_operations_syntax

text \<open>
  The fixed v1 frame header of \<^verbatim>\<open>protocol.py\<close>: the constants, \<open>encode_data_frame\<close>,
  \<open>encode_control_frame\<close>, \<open>decode_data_frame\<close> and the header part of
  \<open>decode_control_frame\<close> (\<open>control_frame_payload\<close>, the bytes the source hands to
  \<open>decode_control_payload\<close>). Writers start from a zeroed bytearray and assign header fields
  by index and by slice, as the code does.
\<close>

section \<open>Constants\<close>

definition GATHERLINK_PROTOCOL_VERSION :: int where
  [const_simps]: "GATHERLINK_PROTOCOL_VERSION = 1"

definition GATHERLINK_KIND_DATA :: int where
  [const_simps]: "GATHERLINK_KIND_DATA = 0"

definition GATHERLINK_KIND_CONTROL :: int where
  [const_simps]: "GATHERLINK_KIND_CONTROL = 1"

definition GATHERLINK_KIND_MASK :: int where
  [const_simps]: "GATHERLINK_KIND_MASK = 0b00000011"

definition GATHERLINK_FRAGMENT_PRESENT :: int where
  [const_simps]: "GATHERLINK_FRAGMENT_PRESENT = 0b00000100"

definition GATHERLINK_KIND_FLAGS_RESERVED_MASK :: int where
  [const_simps]: "GATHERLINK_KIND_FLAGS_RESERVED_MASK = 0b11111000"

definition GATHERLINK_V1_HEADER_LEN :: nat where
  [const_simps]: "GATHERLINK_V1_HEADER_LEN = 14"

definition GATHERLINK_FRAGMENT_METADATA_LEN :: nat where
  [const_simps]: "GATHERLINK_FRAGMENT_METADATA_LEN = 10"

definition SERVICE_ID_CONTROL_METADATA :: int where
  [const_simps]: "SERVICE_ID_CONTROL_METADATA = 1"

definition RESERVED_SERVICE_ID_END :: int where
  [const_simps]: "RESERVED_SERVICE_ID_END = 255"

definition USER_SERVICE_ID_START :: int where
  [const_simps]: "USER_SERVICE_ID_START = RESERVED_SERVICE_ID_END + 1"

definition DEFAULT_SERVICE_ID :: int where
  [const_simps]: "DEFAULT_SERVICE_ID = USER_SERVICE_ID_START"

definition SEQUENCE_SPACE :: int where
  [const_simps]: "SEQUENCE_SPACE = 2 ^ 64"

section \<open>Frames\<close>

record data_frame =
  df_path_id :: int
  df_sequence :: int
  df_payload :: bytes

definition encode_data_frame :: "int \<Rightarrow> int \<Rightarrow> bytes \<Rightarrow> bytes res" where
  "encode_data_frame sequence path_id payload =
     (if sequence < 0 \<or> sequence \<ge> SEQUENCE_SPACE \<or> path_id < 0 \<or> path_id > u16_max
      then Inl (ValueError ''protocol data frame metadata value out of range'')
      else if int (length payload) > u16_max
      then Inl (ValueError ''protocol data frame payload is too large'')
      else rbind
        (chain [set_byte 0 GATHERLINK_PROTOCOL_VERSION,
                set_byte 1 GATHERLINK_KIND_DATA,
                write_u16 2 DEFAULT_SERVICE_ID,
                write_u16 4 path_id,
                write_u64 6 sequence]
               (replicate GATHERLINK_V1_HEADER_LEN 0))
        (\<lambda>header. Inr (header @ payload)))"

definition encode_control_frame :: "int \<Rightarrow> bytes \<Rightarrow> bytes res" where
  "encode_control_frame path_id payload =
     (if path_id < 0 \<or> path_id > u16_max \<or> int (length payload) > u16_max
      then Inl (ValueError ''protocol control frame value out of range'')
      else rbind
        (chain [set_byte 0 GATHERLINK_PROTOCOL_VERSION,
                set_byte 1 GATHERLINK_KIND_CONTROL,
                write_u16 2 SERVICE_ID_CONTROL_METADATA,
                write_u16 4 path_id,
                write_u64 6 0]
               (replicate GATHERLINK_V1_HEADER_LEN 0))
        (\<lambda>header. Inr (header @ payload)))"

text \<open>
  The checks both decoders run before they read the body. \<open>frame_body_offset kind payload\<close> is
  the offset of the body, or \<open>None\<close> where the source returns \<^verbatim>\<open>None\<close>.
\<close>

definition frame_body_offset :: "int \<Rightarrow> bytes \<Rightarrow> nat option res" where
  "frame_body_offset kind payload =
     (if length payload < GATHERLINK_V1_HEADER_LEN then Inr None
      else rbind (idx payload 0) (\<lambda>version.
        if version \<noteq> GATHERLINK_PROTOCOL_VERSION then Inr None
        else rbind (idx payload 1) (\<lambda>kind_flags.
          if kind_flags AND GATHERLINK_KIND_FLAGS_RESERVED_MASK \<noteq> 0
             \<or> kind_flags AND GATHERLINK_KIND_MASK \<noteq> kind
          then Inr None
          else
            let header_len = GATHERLINK_V1_HEADER_LEN +
                  (if kind_flags AND GATHERLINK_FRAGMENT_PRESENT \<noteq> 0
                   then GATHERLINK_FRAGMENT_METADATA_LEN else 0)
            in if length payload < header_len then Inr None else Inr (Some header_len))))"

definition decode_data_frame :: "bytes \<Rightarrow> data_frame option res" where
  "decode_data_frame payload =
     rbind (frame_body_offset GATHERLINK_KIND_DATA payload) (\<lambda>off.
       case off of None \<Rightarrow> Inr None
       | Some header_len \<Rightarrow> Inr (Some \<lparr>df_path_id = read_u16 payload 4,
                                      df_sequence = read_u64 payload 6,
                                      df_payload = drop header_len payload\<rparr>))"

definition control_frame_payload :: "bytes \<Rightarrow> bytes option res" where
  "control_frame_payload payload =
     rbind (frame_body_offset GATHERLINK_KIND_CONTROL payload) (\<lambda>off.
       case off of None \<Rightarrow> Inr None | Some header_len \<Rightarrow> Inr (Some (drop header_len payload)))"

section \<open>Lemmas\<close>

text \<open>Every successful encoder call produces this header followed by the untouched payload.\<close>

definition v1_header :: "int \<Rightarrow> int \<Rightarrow> int \<Rightarrow> int \<Rightarrow> bytes" where
  "v1_header kind service path_id sequence =
     [1, word_of_int kind] @ be_bytes 2 service @ be_bytes 2 path_id @ be_bytes 8 sequence"

lemma length_v1_header [simp]: "length (v1_header k s p q) = 14"
  by (simp add: v1_header_def)

lemma header_chain:
  assumes "0 \<le> kind" "kind < 256" "0 \<le> service" "service < 65536"
    and "0 \<le> path_id" "path_id < 65536" "0 \<le> sequence" "sequence < 2 ^ 64"
  shows "chain [set_byte 0 1, set_byte (Suc 0) kind, write_u16 2 service, write_u16 4 path_id,
                write_u64 6 sequence] (replicate 14 0) = Inr (v1_header kind service path_id sequence)"
proof -
  have "replicate 14 (0 :: byte) = [0, 0, 0, 0, 0, 0, 0, 0, 0, 0, 0, 0, 0, 0]"
    by (simp add: numeral_eq_Suc)
  then show ?thesis using assms
    by (simp add: set_byte_def write_u16_def write_u64_def to_bytes_def set_slice_def v1_header_def
        chain_Cons)
qed

lemma encode_data_frame_eq:
  "encode_data_frame sequence path_id payload = Inr bs \<longleftrightarrow>
     0 \<le> sequence \<and> sequence < 2 ^ 64 \<and> 0 \<le> path_id \<and> path_id < 65536 \<and> length payload < 65536
     \<and> bs = v1_header 0 256 path_id sequence @ payload"
  by (auto simp: encode_data_frame_def const_simps header_chain)

lemma encode_control_frame_eq:
  "encode_control_frame path_id payload = Inr bs \<longleftrightarrow>
     0 \<le> path_id \<and> path_id < 65536 \<and> length payload < 65536
     \<and> bs = v1_header 1 1 path_id 0 @ payload"
  by (auto simp: encode_control_frame_def const_simps header_chain)

lemma frame_body_offset_header:
  "kind \<in> {0, 1} \<Longrightarrow> kind' \<in> {0, 1} \<Longrightarrow>
   frame_body_offset kind (v1_header kind' s p q @ payload) = Inr (if kind = kind' then Some 14 else None)"
  by (auto simp: frame_body_offset_def const_simps v1_header_def)

lemma frame_body_offset_total: "\<exists>r. frame_body_offset kind payload = Inr r"
  by (auto simp: frame_body_offset_def const_simps Let_def idx_def)

lemma frame_body_offset_Some:
  "frame_body_offset kind payload = Inr (Some n) \<Longrightarrow> n \<in> {14, 24} \<and> n \<le> length payload"
  by (auto simp: frame_body_offset_def const_simps Let_def rbind_eq_Inr split: if_splits)

lemma read_header:
  assumes "0 \<le> path_id" "path_id < 65536" "0 \<le> sequence" "sequence < 2 ^ 64"
  shows "read_u16 (v1_header k s path_id sequence @ payload) 4 = path_id"
    and "read_u64 (v1_header k s path_id sequence @ payload) 6 = sequence"
  using assms by (simp_all add: v1_header_def read_defs)

lemma decode_encode_data_frame:
  assumes "encode_data_frame sequence path_id payload = Inr bs"
  shows "decode_data_frame bs = Inr (Some \<lparr>df_path_id = path_id, df_sequence = sequence, df_payload = payload\<rparr>)"
  using assms
  by (auto simp: encode_data_frame_eq decode_data_frame_def const_simps frame_body_offset_header read_header)

lemma decode_data_frame_total: "\<exists>r. decode_data_frame payload = Inr r"
  using frame_body_offset_total [of GATHERLINK_KIND_DATA payload]
  by (auto simp: decode_data_frame_def split: option.splits)

lemma control_frame_payload_encode:
  assumes "encode_control_frame path_id payload = Inr bs"
  shows "control_frame_payload bs = Inr (Some payload)"
  using assms
  by (auto simp: encode_control_frame_eq control_frame_payload_def const_simps frame_body_offset_header)

lemma control_frame_payload_total: "\<exists>r. control_frame_payload payload = Inr r"
  using frame_body_offset_total [of GATHERLINK_KIND_CONTROL payload]
  by (auto simp: control_frame_payload_def split: option.splits)

end
