(* ===== verification/Utf8.thy ===== *)
theory Utf8
  imports Wire_Bytes
begin

text \<open>
  Python's \<^verbatim>\<open>str.encode("utf-8")\<close> and \<^verbatim>\<open>bytes.decode("utf-8")\<close> in strict mode. A \<^verbatim>\<open>str\<close> is the list of its
  code points; a Python string may hold lone surrogates, which strict encoding refuses, and
  strict decoding refuses overlong forms, surrogates, values above 0x10FFFF and truncated
  sequences. The wire code relies on the two being inverse to each other, which is proved
  here in both directions.
\<close>

type_synonym ustr = "nat list"

definition str_lit :: "string \<Rightarrow> ustr" where
  "str_lit s = map of_char s"

definition is_surrogate :: "nat \<Rightarrow> bool" where
  "is_surrogate c \<longleftrightarrow> 0xD800 \<le> c \<and> c \<le> 0xDFFF"

definition byte_of :: "nat \<Rightarrow> byte" where
  "byte_of n = word_of_nat n"

definition utf8_encode_char :: "nat \<Rightarrow> bytes option" where
  "utf8_encode_char c =
     (if c < 0x80 then Some [byte_of c]
      else if c < 0x800 then Some [byte_of (0xC0 + c div 64), byte_of (0x80 + c mod 64)]
      else if is_surrogate c then None
      else if c < 0x10000 then
        Some [byte_of (0xE0 + c div 4096), byte_of (0x80 + c div 64 mod 64),
              byte_of (0x80 + c mod 64)]
      else if c < 0x110000 then
        Some [byte_of (0xF0 + c div 262144), byte_of (0x80 + c div 4096 mod 64),
              byte_of (0x80 + c div 64 mod 64), byte_of (0x80 + c mod 64)]
      else None)"

fun utf8_encode :: "ustr \<Rightarrow> bytes option" where
  "utf8_encode [] = Some []"
| "utf8_encode (c # cs) =
     (case utf8_encode_char c of None \<Rightarrow> None
      | Some bs \<Rightarrow> map_option ((@) bs) (utf8_encode cs))"

definition str_encode :: "ustr \<Rightarrow> bytes res" where
  "str_encode s = (case utf8_encode s of None \<Rightarrow> Inl UnicodeEncodeError | Some bs \<Rightarrow> Inr bs)"

definition is_cont :: "byte \<Rightarrow> bool" where
  "is_cont b \<longleftrightarrow> 0x80 \<le> unat b \<and> unat b < 0xC0"

definition cont :: "byte \<Rightarrow> nat" where
  "cont b = unat b - 0x80"

definition cp2 :: "byte \<Rightarrow> byte \<Rightarrow> nat" where
  "cp2 b b1 = (unat b - 0xC0) * 64 + cont b1"

definition cp3 :: "byte \<Rightarrow> byte \<Rightarrow> byte \<Rightarrow> nat" where
  "cp3 b b1 b2 = (unat b - 0xE0) * 4096 + cont b1 * 64 + cont b2"

definition cp4 :: "byte \<Rightarrow> byte \<Rightarrow> byte \<Rightarrow> byte \<Rightarrow> nat" where
  "cp4 b b1 b2 b3 = (unat b - 0xF0) * 262144 + cont b1 * 4096 + cont b2 * 64 + cont b3"

text \<open>One scalar value from the front of the input, with the rest of the input.\<close>

fun utf8_next :: "bytes \<Rightarrow> (nat \<times> bytes) option" where
  "utf8_next [] = None"
| "utf8_next (b # bs) =
     (if unat b < 0x80 then Some (unat b, bs)
      else if 0xC0 \<le> unat b \<and> unat b < 0xE0 then
        (case bs of
           b1 # r \<Rightarrow> if is_cont b1 \<and> 0x80 \<le> cp2 b b1 then Some (cp2 b b1, r) else None
         | _ \<Rightarrow> None)
      else if 0xE0 \<le> unat b \<and> unat b < 0xF0 then
        (case bs of
           b1 # b2 # r \<Rightarrow>
             if is_cont b1 \<and> is_cont b2 \<and> 0x800 \<le> cp3 b b1 b2 \<and> \<not> is_surrogate (cp3 b b1 b2)
             then Some (cp3 b b1 b2, r) else None
         | _ \<Rightarrow> None)
      else if 0xF0 \<le> unat b \<and> unat b < 0xF8 then
        (case bs of
           b1 # b2 # b3 # r \<Rightarrow>
             if is_cont b1 \<and> is_cont b2 \<and> is_cont b3 \<and> 0x10000 \<le> cp4 b b1 b2 b3 \<and> cp4 b b1 b2 b3 < 0x110000
             then Some (cp4 b b1 b2 b3, r) else None
         | _ \<Rightarrow> None)
      else None)"

lemma utf8_next_shorter: "utf8_next bs = Some (c, r) \<Longrightarrow> length r < length bs"
  by (cases bs) (auto split: if_splits list.splits)

function utf8_decode :: "bytes \<Rightarrow> ustr option" where
  "utf8_decode bs =
     (if bs = [] then Some []
      else case utf8_next bs of None \<Rightarrow> None
           | Some (c, r) \<Rightarrow> map_option ((#) c) (utf8_decode r))"
  by pat_completeness auto
termination
  by (relation "measure length") (auto dest: utf8_next_shorter)

declare utf8_decode.simps [simp del]

section \<open>Encoding then decoding\<close>

lemma unat_byte_of [simp]: "n < 256 \<Longrightarrow> unat (byte_of n) = n"
  by (simp add: byte_of_def unat_of_nat)

lemma is_cont_of_nat [simp]: "m < 64 \<Longrightarrow> is_cont (byte_of (128 + m))"
  by (simp add: is_cont_def)

lemma cont_of_nat [simp]: "m < 64 \<Longrightarrow> cont (byte_of (128 + m)) = m"
  by (simp add: cont_def)

lemma split3: "c = c div 4096 * 4096 + c div 64 mod 64 * 64 + c mod (64 :: nat)"
proof -
  have "c div 64 = c div 64 div 64 * 64 + c div 64 mod 64" by simp
  moreover have "c div 64 div 64 = c div 4096" by (simp add: div_mult2_eq [symmetric])
  moreover have "c = c div 64 * 64 + c mod 64" by simp
  ultimately show ?thesis by linarith
qed

lemma split4: "c = c div 262144 * 262144 + c div 4096 mod 64 * 4096 + c div 64 mod 64 * 64 + c mod (64 :: nat)"
proof -
  have "c div 4096 = c div 4096 div 64 * 64 + c div 4096 mod 64" by simp
  moreover have "c div 4096 div 64 = c div 262144" by (simp add: div_mult2_eq [symmetric])
  ultimately show ?thesis using split3 [of c] by linarith
qed

lemma utf8_next_encode:
  assumes "utf8_encode_char c = Some bs"
  shows "utf8_next (bs @ r) = Some (c, r)"
proof -
  consider (one) "c < 0x80" | (two) "0x80 \<le> c" "c < 0x800"
    | (three) "0x800 \<le> c" "c < 0x10000" "\<not> is_surrogate c"
    | (four) "0x10000 \<le> c" "c < 0x110000"
    using assms by (auto simp: utf8_encode_char_def split: if_splits)
  then show ?thesis
  proof cases
    case one
    then show ?thesis using assms by (auto simp: utf8_encode_char_def)
  next
    case two
    then have "c div 64 < 32" by (simp add: less_mult_imp_div_less)
    moreover have "c div 64 * 64 + c mod 64 = c" by simp
    ultimately show ?thesis using two assms
      by (auto simp: utf8_encode_char_def cp2_def)
  next
    case three
    then have "c div 4096 < 16" by (simp add: less_mult_imp_div_less)
    then show ?thesis using three assms split3 [of c, symmetric]
      by (auto simp: utf8_encode_char_def cp3_def)
  next
    case four
    then have "c div 262144 < 8" by (simp add: less_mult_imp_div_less)
    then show ?thesis using four assms split4 [of c, symmetric]
      by (auto simp: utf8_encode_char_def cp4_def is_surrogate_def)
  qed
qed

lemma utf8_encode_char_nonempty: "utf8_encode_char c = Some bs \<Longrightarrow> bs \<noteq> []"
  by (auto simp: utf8_encode_char_def split: if_splits)

lemma utf8_decode_encode: "utf8_encode s = Some bs \<Longrightarrow> utf8_decode bs = Some s"
proof (induction s arbitrary: bs)
  case (Cons c s)
  then obtain b1 b2 where b: "utf8_encode_char c = Some b1" "utf8_encode s = Some b2" "bs = b1 @ b2"
    by (auto split: option.splits)
  have "utf8_next bs = Some (c, b2)" using b utf8_next_encode by simp
  moreover have "bs \<noteq> []" using b utf8_encode_char_nonempty by auto
  ultimately show ?case using Cons.IH [OF b(2)] by (simp add: utf8_decode.simps [of bs])
qed (simp add: utf8_decode.simps)

lemma utf8_decode_Nil [simp]: "utf8_decode [] = Some []"
  by (simp add: utf8_decode.simps)

lemma utf8_decode_nonempty: "utf8_decode bs = Some s \<Longrightarrow> bs \<noteq> [] \<Longrightarrow> s \<noteq> []"
  by (subst (asm) utf8_decode.simps) (auto split: option.splits)

lemma str_encode_eq_Inr: "str_encode s = Inr bs \<longleftrightarrow> utf8_encode s = Some bs"
  by (auto simp: str_encode_def split: option.splits)

section \<open>Decoding then encoding\<close>

lemma byte_of_unat: "n = unat b \<Longrightarrow> byte_of n = b"
  by (simp add: byte_of_def)

lemma cont_lt: "is_cont b \<Longrightarrow> cont b < 64 \<and> 128 + cont b = unat b"
  by (auto simp: is_cont_def cont_def)

lemma div_mod_64: "c = m * 64 + k \<Longrightarrow> k < 64 \<Longrightarrow> c div 64 = m \<and> c mod 64 = (k :: nat)"
  by simp

lemma utf8_encode_next:
  assumes "utf8_next bs = Some (c, r)"
  shows "\<exists>p. utf8_encode_char c = Some p \<and> bs = p @ r"
proof -
  obtain b bs' where bs: "bs = b # bs'" using assms by (cases bs) auto
  consider (one) "unat b < 0x80" | (two) "0xC0 \<le> unat b" "unat b < 0xE0"
    | (three) "0xE0 \<le> unat b" "unat b < 0xF0" | (four) "0xF0 \<le> unat b" "unat b < 0xF8"
    using assms bs by (fastforce split: if_splits)
  then show ?thesis
  proof cases
    case one
    then show ?thesis using assms bs by (auto simp: utf8_encode_char_def byte_of_def)
  next
    case two
    then obtain b1 where b1: "bs' = b1 # r" "is_cont b1" "0x80 \<le> cp2 b b1" "c = cp2 b b1"
      using assms bs by (auto split: list.splits if_splits)
    note k = cont_lt [OF b1(2)]
    have c: "c = (unat b - 0xC0) * 64 + cont b1" using b1(4) by (simp add: cp2_def)
    have "c div 64 = unat b - 0xC0" "c mod 64 = cont b1" using k c by simp_all
    moreover have "c < 0x800" using two k c by linarith
    ultimately show ?thesis
      using b1 k two bs by (auto simp: utf8_encode_char_def intro!: byte_of_unat [symmetric])
  next
    case three
    then obtain b1 b2 where b1: "bs' = b1 # b2 # r" "is_cont b1" "is_cont b2" "0x800 \<le> c"
        "c = cp3 b b1 b2" "\<not> is_surrogate c"
      using assms bs by (auto split: list.splits if_splits)
    note k = cont_lt [OF b1(2)] cont_lt [OF b1(3)]
    have c: "c = ((unat b - 0xE0) * 64 + cont b1) * 64 + cont b2" using b1(5) by (simp add: cp3_def)
    have c64: "c div 64 = (unat b - 0xE0) * 64 + cont b1" "c mod 64 = cont b2"
      using div_mod_64 [OF c] k by simp_all
    have "c div 4096 = c div 64 div 64" by (simp add: div_mult2_eq [symmetric])
    then have "c div 4096 = unat b - 0xE0" "c div 64 mod 64 = cont b1"
      using div_mod_64 [OF c64(1)] k by simp_all
    moreover have "unat b - 0xE0 \<le> 15" using three by simp
    then have "c < 0x10000" using k [THEN conjunct1] c by (simp add: algebra_simps)
    ultimately show ?thesis
      using b1 k three bs c64 by (auto simp: utf8_encode_char_def intro!: byte_of_unat [symmetric])
  next
    case four
    then obtain b1 b2 b3 where b1: "bs' = b1 # b2 # b3 # r" "is_cont b1" "is_cont b2" "is_cont b3"
        "0x10000 \<le> c" "c < 0x110000" "c = cp4 b b1 b2 b3"
      using assms bs by (auto split: list.splits if_splits)
    note k = cont_lt [OF b1(2)] cont_lt [OF b1(3)] cont_lt [OF b1(4)]
    have c: "c = (((unat b - 0xF0) * 64 + cont b1) * 64 + cont b2) * 64 + cont b3"
      using b1(7) by (simp add: cp4_def)
    have c64: "c div 64 = ((unat b - 0xF0) * 64 + cont b1) * 64 + cont b2" "c mod 64 = cont b3"
      using div_mod_64 [OF c] k by simp_all
    have "c div 4096 = c div 64 div 64" by (simp add: div_mult2_eq [symmetric])
    then have c4: "c div 4096 = (unat b - 0xF0) * 64 + cont b1" "c div 64 mod 64 = cont b2"
      using div_mod_64 [OF c64(1)] k by simp_all
    have "c div 262144 = c div 4096 div 64" by (simp add: div_mult2_eq [symmetric])
    then have "c div 262144 = unat b - 0xF0" "c div 4096 mod 64 = cont b1"
      using div_mod_64 [OF c4(1)] k by simp_all
    then show ?thesis
      using b1 k four bs c64 c4
      by (auto simp: utf8_encode_char_def is_surrogate_def intro!: byte_of_unat [symmetric])
  qed
qed

lemma utf8_encode_decode: "utf8_decode bs = Some s \<Longrightarrow> utf8_encode s = Some bs"
proof (induction bs arbitrary: s rule: utf8_decode.induct)
  case (1 bs)
  show ?case
  proof (cases "bs = []")
    case False
    then obtain c r s' where n: "utf8_next bs = Some (c, r)" "utf8_decode r = Some s'" "s = c # s'"
      using 1(2) by (subst (asm) utf8_decode.simps) (auto split: option.splits)
    then have "utf8_encode s' = Some r" using 1(1) [OF False n(1)] by simp
    then show ?thesis using utf8_encode_next [OF n(1)] n(3) by auto
  qed (use 1 in simp)
qed

end
