(* ===== verification/Control_Messages.thy ===== *)
theory Control_Messages
  imports Protocol_Frames Utf8
begin

text \<open>
  The fifteen control messages of \<^verbatim>\<open>protocol.py\<close>, one encoder step and one value decoder each.
  The source's encoders loop over a dictionary or list; \<open>encode_X_item\<close> is the body of that
  loop and \<open>encode_X\<close> the loop. A value decoder returns \<open>Inr None\<close> where the source
  returns \<^verbatim>\<open>None\<close> and \<open>Inl e\<close> where it would raise.

  Tuples whose length the source inspects or unpacks at run time (scheduler policies, path
  pressure) are lists; a wrong length is the unpacking \<^verbatim>\<open>ValueError\<close>.
\<close>

section \<open>Message type codes\<close>

definition CONTROL_PAYLOAD_VERSION :: int where
  [const_simps]: "CONTROL_PAYLOAD_VERSION = 1"

definition CONTROL_TYPE_PATH_METADATA :: int where
  [const_simps]: "CONTROL_TYPE_PATH_METADATA = 3"

definition CONTROL_TYPE_PATH_CAPACITY :: int where
  [const_simps]: "CONTROL_TYPE_PATH_CAPACITY = 4"

definition CONTROL_TYPE_PATH_LATENCY :: int where
  [const_simps]: "CONTROL_TYPE_PATH_LATENCY = 5"

definition CONTROL_TYPE_INTERNAL_CLOCK_SYNC :: int where
  [const_simps]: "CONTROL_TYPE_INTERNAL_CLOCK_SYNC = 6"

definition CONTROL_TYPE_SINK_TIME :: int where
  [const_simps]: "CONTROL_TYPE_SINK_TIME = 7"

definition CONTROL_TYPE_SERVICE_METADATA :: int where
  [const_simps]: "CONTROL_TYPE_SERVICE_METADATA = 8"

definition CONTROL_TYPE_SERVICE_ENDPOINT_ASSERTION :: int where
  [const_simps]: "CONTROL_TYPE_SERVICE_ENDPOINT_ASSERTION = 9"

definition CONTROL_TYPE_SERVICE_DISABLE :: int where
  [const_simps]: "CONTROL_TYPE_SERVICE_DISABLE = 10"

definition CONTROL_TYPE_PATH_MTU :: int where
  [const_simps]: "CONTROL_TYPE_PATH_MTU = 11"

definition CONTROL_TYPE_SERVICE_SCHEDULER_POLICY :: int where
  [const_simps]: "CONTROL_TYPE_SERVICE_SCHEDULER_POLICY = 12"

definition CONTROL_TYPE_PATH_PRESSURE :: int where
  [const_simps]: "CONTROL_TYPE_PATH_PRESSURE = 13"

definition CONTROL_TYPE_SCHEDULER_STATUS :: int where
  [const_simps]: "CONTROL_TYPE_SCHEDULER_STATUS = 14"

definition CONTROL_TYPE_DATA_TRANSMIT_SAMPLE :: int where
  [const_simps]: "CONTROL_TYPE_DATA_TRANSMIT_SAMPLE = 15"

definition CONTROL_TYPE_PATH_LATENCY_QUALITY :: int where
  [const_simps]: "CONTROL_TYPE_PATH_LATENCY_QUALITY = 16"

definition CONTROL_TYPE_PATH_LATENCY_STATS :: int where
  [const_simps]: "CONTROL_TYPE_PATH_LATENCY_STATS = 17"

section \<open>Message payloads\<close>

type_synonym policy = "int list"
type_synonym pressure = "int list"
type_synonym opt2 = "int option \<times> int option"
type_synonym opt4 = "int option \<times> int option \<times> int option \<times> int option"
type_synonym opt6 =
  "int option \<times> int option \<times> int option \<times> int option \<times> int option \<times> int option"
type_synonym latency_quality = "ustr option \<times> ustr option"
type_synonym scheduler_status = "ustr \<times> ustr \<times> ustr"
type_synonym transmit_sample = "int \<times> int \<times> int \<times> int"

record clock_sync_message =
  cs_exchange_id :: int
  cs_path_id :: int
  cs_mode :: int
  cs_origin_us :: int
  cs_receive_us :: "int option"
  cs_transmit_us :: "int option"

record sink_time_message =
  st_path_id :: int
  st_sink_unix_us :: int
  st_sink_internal_us :: int
  st_ntp_state :: int

section \<open>Field helpers\<close>

definition optional_u64 :: "int option \<Rightarrow> int res" where
  "optional_u64 value = (case value of None \<Rightarrow> Inr 0
     | Some v \<Rightarrow> if v \<le> 0 \<or> v > u64_max then Inl (ValueError ''path capacity value out of range'') else Inr v)"

definition optional_u32 :: "int option \<Rightarrow> int res" where
  "optional_u32 value = (case value of None \<Rightarrow> Inr 0
     | Some v \<Rightarrow> if v \<le> 0 \<or> v > u32_max then Inl (ValueError ''path latency value out of range'') else Inr v)"

definition optional_metric_u32 :: "int option \<Rightarrow> int res" where
  "optional_metric_u32 value = (case value of None \<Rightarrow> Inr 0
     | Some v \<Rightarrow> if v < 0 \<or> v > u32_max then Inl (ValueError ''path metric value out of range'') else Inr v)"

definition counter_u32 :: "int \<Rightarrow> int res" where
  "counter_u32 v =
     (if v < 0 \<or> v > u32_max then Inl (ValueError ''path pressure counter value out of range'') else Inr v)"

definition optional_u16 :: "int option \<Rightarrow> int res" where
  "optional_u16 value = (case value of None \<Rightarrow> Inr 0
     | Some v \<Rightarrow> if v \<le> 0 \<or> v > u16_max then Inl (ValueError ''path MTU value out of range'') else Inr v)"

definition decode_optional_u64 :: "int \<Rightarrow> int option" where
  "decode_optional_u64 v = (if v = 0 then None else Some v)"

definition decode_optional_u32 :: "int \<Rightarrow> int option" where
  "decode_optional_u32 v = (if v = 0 then None else Some v)"

definition decode_optional_u16 :: "int \<Rightarrow> int option" where
  "decode_optional_u16 v = (if v = 0 then None else Some v)"

definition valid_mtu_pair :: "int option \<Rightarrow> int option \<Rightarrow> bool" where
  "valid_mtu_pair link_mtu frame_mtu =
     (case (link_mtu, frame_mtu) of
        (None, None) \<Rightarrow> True
      | (Some l, Some f) \<Rightarrow> f > 0 \<and> f \<le> l
      | _ \<Rightarrow> False)"

definition LATENCY_SOURCE_TO_CODE :: "(ustr option, int) dict" where
  "LATENCY_SOURCE_TO_CODE =
     [(None, 0), (Some (str_lit ''reply-rtt-half''), 1), (Some (str_lit ''clock-synced-one-way''), 2),
      (Some (str_lit ''data-traffic-one-way''), 3), (Some (str_lit ''rejected''), 4),
      (Some (str_lit ''peer''), 5)]"

definition LATENCY_CONFIDENCE_TO_CODE :: "(ustr option, int) dict" where
  "LATENCY_CONFIDENCE_TO_CODE =
     [(None, 0), (Some (str_lit ''coarse''), 1), (Some (str_lit ''warming''), 2),
      (Some (str_lit ''good''), 3), (Some (str_lit ''rejected''), 4)]"

definition dict_inverse :: "('k, 'v) dict \<Rightarrow> ('v, 'k) dict" where
  "dict_inverse d = fold (\<lambda>(k, v). dict_set v k) d []"

definition encode_latency_source :: "ustr option \<Rightarrow> int res" where
  "encode_latency_source source = (case dict_get LATENCY_SOURCE_TO_CODE source of
     None \<Rightarrow> Inl (ValueError ''path latency source value out of range'') | Some c \<Rightarrow> Inr c)"

definition decode_latency_source :: "int \<Rightarrow> ustr option" where
  "decode_latency_source value =
     (case dict_get (dict_inverse LATENCY_SOURCE_TO_CODE) value of None \<Rightarrow> None | Some s \<Rightarrow> s)"

definition encode_latency_confidence :: "ustr option \<Rightarrow> int res" where
  "encode_latency_confidence confidence = (case dict_get LATENCY_CONFIDENCE_TO_CODE confidence of
     None \<Rightarrow> Inl (ValueError ''path latency confidence value out of range'') | Some c \<Rightarrow> Inr c)"

definition decode_latency_confidence :: "int \<Rightarrow> ustr option" where
  "decode_latency_confidence value =
     (case dict_get (dict_inverse LATENCY_CONFIDENCE_TO_CODE) value of None \<Rightarrow> None | Some s \<Rightarrow> s)"

section \<open>Encoders\<close>

definition encode_path_metadata_item :: "int \<times> ustr \<Rightarrow> bytes \<Rightarrow> bytes res" where
  "encode_path_metadata_item item output =
     (let (ident, text) = item in
      rbind (str_encode text) (\<lambda>encoded.
        if ident < 0 \<or> ident > u16_max \<or> encoded = [] \<or> length encoded > 255
        then Inl (ValueError ''path metadata value out of range'')
        else chain [append_u8 CONTROL_TYPE_PATH_METADATA,
                    append_u16 (3 + int (length encoded)),
                    append_u16 ident,
                    append_u8 (int (length encoded)),
                    extend_bytes encoded] output))"

definition encode_service_metadata_item :: "int \<times> ustr \<Rightarrow> bytes \<Rightarrow> bytes res" where
  "encode_service_metadata_item item output =
     (let (ident, text) = item in
      rbind (str_encode text) (\<lambda>encoded.
        if ident < USER_SERVICE_ID_START \<or> ident > u16_max \<or> encoded = [] \<or> length encoded > 255
        then Inl (ValueError ''service metadata value out of range'')
        else chain [append_u8 CONTROL_TYPE_SERVICE_METADATA,
                    append_u16 (3 + int (length encoded)),
                    append_u16 ident,
                    append_u8 (int (length encoded)),
                    extend_bytes encoded] output))"

definition encode_service_endpoint_assertions_item :: "int \<times> ustr \<Rightarrow> bytes \<Rightarrow> bytes res" where
  "encode_service_endpoint_assertions_item item output =
     (let (ident, text) = item in
      rbind (str_encode text) (\<lambda>encoded.
        if ident < USER_SERVICE_ID_START \<or> ident > u16_max \<or> encoded = [] \<or> length encoded > 255
        then Inl (ValueError ''service endpoint assertion value out of range'')
        else chain [append_u8 CONTROL_TYPE_SERVICE_ENDPOINT_ASSERTION,
                    append_u16 (3 + int (length encoded)),
                    append_u16 ident,
                    append_u8 (int (length encoded)),
                    extend_bytes encoded] output))"

definition encode_service_disables_item :: "int \<times> ustr \<Rightarrow> bytes \<Rightarrow> bytes res" where
  "encode_service_disables_item item output =
     (let (ident, text) = item in
      rbind (str_encode text) (\<lambda>encoded.
        if ident < USER_SERVICE_ID_START \<or> ident > u16_max \<or> encoded = [] \<or> length encoded > 255
        then Inl (ValueError ''service disable value out of range'')
        else chain [append_u8 CONTROL_TYPE_SERVICE_DISABLE,
                    append_u16 (3 + int (length encoded)),
                    append_u16 ident,
                    append_u8 (int (length encoded)),
                    extend_bytes encoded] output))"

definition unpack_error :: py_error where
  "unpack_error = ValueError ''wrong number of values to unpack''"

definition encode_service_scheduler_policies_item :: "int \<times> policy \<Rightarrow> bytes \<Rightarrow> bytes res" where
  "encode_service_scheduler_policies_item item output =
     (let (service_id, policy) = item;
          policy6 = (if length policy = 5 then policy @ [0] else policy) in
      case policy6 of
        [fanout, fanout_below_bytes, flowlet_idle_us, flowlet_max_hold_us, path_run_datagrams, path_policy] \<Rightarrow>
          if service_id < USER_SERVICE_ID_START \<or> service_id > u16_max
             \<or> fanout < 0 \<or> fanout > u16_max
             \<or> fanout_below_bytes < 0 \<or> fanout_below_bytes > u32_max
             \<or> flowlet_idle_us < 0 \<or> flowlet_idle_us > u64_max
             \<or> flowlet_max_hold_us < 0 \<or> flowlet_max_hold_us > u64_max
             \<or> path_run_datagrams < 0 \<or> path_run_datagrams > u32_max
             \<or> path_policy < 0 \<or> path_policy > 2
          then Inl (ValueError ''service scheduler policy value out of range'')
          else chain [append_u8 CONTROL_TYPE_SERVICE_SCHEDULER_POLICY,
                      append_u16 29,
                      append_u16 service_id,
                      append_u16 fanout,
                      append_u32 fanout_below_bytes,
                      append_u64 flowlet_idle_us,
                      append_u64 flowlet_max_hold_us,
                      append_u32 path_run_datagrams,
                      append_u8 path_policy] output
      | _ \<Rightarrow> Inl unpack_error)"

definition encode_path_capacity_item :: "int \<times> opt2 \<Rightarrow> bytes \<Rightarrow> bytes res" where
  "encode_path_capacity_item item output =
     (let (path_id, tx_bps, rx_bps) = item in
      if path_id < 0 \<or> path_id > u16_max then Inl (ValueError ''path capacity path id out of range'')
      else chain [append_u8 CONTROL_TYPE_PATH_CAPACITY,
                  append_u16 18,
                  append_u16 path_id,
                  arg (optional_u64 tx_bps) append_u64,
                  arg (optional_u64 rx_bps) append_u64] output)"

definition encode_path_latency_item :: "int \<times> opt4 \<Rightarrow> bytes \<Rightarrow> bytes res" where
  "encode_path_latency_item item output =
     (let (path_id, tx_current_us, tx_mean_us, rx_current_us, rx_mean_us) = item in
      if path_id < 0 \<or> path_id > u16_max then Inl (ValueError ''path latency path id out of range'')
      else chain [append_u8 CONTROL_TYPE_PATH_LATENCY,
                  append_u16 18,
                  append_u16 path_id,
                  arg (optional_u32 tx_current_us) append_u32,
                  arg (optional_u32 tx_mean_us) append_u32,
                  arg (optional_u32 rx_current_us) append_u32,
                  arg (optional_u32 rx_mean_us) append_u32] output)"

definition encode_path_latency_quality_item :: "int \<times> latency_quality \<Rightarrow> bytes \<Rightarrow> bytes res" where
  "encode_path_latency_quality_item item output =
     (let (path_id, source, confidence) = item in
      if path_id < 0 \<or> path_id > u16_max then Inl (ValueError ''path latency quality path id out of range'')
      else chain [append_u8 CONTROL_TYPE_PATH_LATENCY_QUALITY,
                  append_u16 4,
                  append_u16 path_id,
                  arg (encode_latency_source source) append_u8,
                  arg (encode_latency_confidence confidence) append_u8] output)"

definition encode_path_latency_stats_item :: "int \<times> opt6 \<Rightarrow> bytes \<Rightarrow> bytes res" where
  "encode_path_latency_stats_item item output =
     (let (path_id, rtt_us, clock_error_us, tx_jitter_us, rx_jitter_us, tx_p95_us, rx_p95_us) = item in
      if path_id < 0 \<or> path_id > u16_max then Inl (ValueError ''path latency stats path id out of range'')
      else chain [append_u8 CONTROL_TYPE_PATH_LATENCY_STATS,
                  append_u16 26,
                  append_u16 path_id,
                  arg (optional_metric_u32 rtt_us) append_u32,
                  arg (optional_metric_u32 clock_error_us) append_u32,
                  arg (optional_metric_u32 tx_jitter_us) append_u32,
                  arg (optional_metric_u32 rx_jitter_us) append_u32,
                  arg (optional_metric_u32 tx_p95_us) append_u32,
                  arg (optional_metric_u32 rx_p95_us) append_u32] output)"

definition encode_path_mtu_item :: "int \<times> opt4 \<Rightarrow> bytes \<Rightarrow> bytes res" where
  "encode_path_mtu_item item output =
     (let (path_id, tx_link_mtu, tx_frame_mtu, rx_link_mtu, rx_frame_mtu) = item in
      if path_id < 0 \<or> path_id > u16_max
         \<or> \<not> valid_mtu_pair tx_link_mtu tx_frame_mtu
         \<or> \<not> valid_mtu_pair rx_link_mtu rx_frame_mtu
         \<or> tx_link_mtu = None \<and> rx_link_mtu = None
      then Inl (ValueError ''path MTU value out of range'')
      else chain [append_u8 CONTROL_TYPE_PATH_MTU,
                  append_u16 10,
                  append_u16 path_id,
                  arg (optional_u16 tx_link_mtu) append_u16,
                  arg (optional_u16 tx_frame_mtu) append_u16,
                  arg (optional_u16 rx_link_mtu) append_u16,
                  arg (optional_u16 rx_frame_mtu) append_u16] output)"

definition encode_path_pressure_item :: "int \<times> pressure \<Rightarrow> bytes \<Rightarrow> bytes res" where
  "encode_path_pressure_item item output =
     (let (path_id, pressure) = item in
      if path_id < 0 \<or> path_id > u16_max then Inl (ValueError ''path pressure path id out of range'')
      else if length pressure \<noteq> 14 then Inl unpack_error
      else if pressure ! 0 > 1000000 then Inl (ValueError ''path pressure loss value out of range'')
      else chain ([append_u8 CONTROL_TYPE_PATH_PRESSURE,
                   append_u16 58,
                   append_u16 path_id]
                  @ map (\<lambda>counter. arg (counter_u32 counter) append_u32) pressure) output)"

definition encode_scheduler_status_item :: "scheduler_status \<Rightarrow> bytes \<Rightarrow> bytes res" where
  "encode_scheduler_status_item status output =
     (let (configured, effective, rust_mode) = status in
      rbind (str_encode configured) (\<lambda>v1.
      rbind (str_encode effective) (\<lambda>v2.
      rbind (str_encode rust_mode) (\<lambda>v3.
        let encoded_values = [v1, v2, v3] in
        if list_ex (\<lambda>v. v = [] \<or> length v > 63) encoded_values
        then Inl (ValueError ''scheduler status value out of range'')
        else chain ([append_u8 CONTROL_TYPE_SCHEDULER_STATUS,
                     append_u16 (int (sum_list (map length encoded_values) + length encoded_values))]
                    @ concat (map (\<lambda>v. [append_u8 (int (length v)), extend_bytes v]) encoded_values))
               output))))"

definition encode_data_transmit_samples_item :: "transmit_sample \<Rightarrow> bytes \<Rightarrow> bytes res" where
  "encode_data_transmit_samples_item sample output =
     (let (path_id, first_sequence, packet_count, transmit_us) = sample in
      if path_id < 0 \<or> path_id > u16_max
         \<or> first_sequence < 0 \<or> first_sequence \<ge> SEQUENCE_SPACE
         \<or> packet_count \<le> 0 \<or> packet_count > u32_max
         \<or> transmit_us \<le> 0 \<or> transmit_us > u64_max
      then Inl (ValueError ''data transmit sample value out of range'')
      else chain [append_u8 CONTROL_TYPE_DATA_TRANSMIT_SAMPLE,
                  append_u16 22,
                  append_u16 path_id,
                  append_u64 first_sequence,
                  append_u32 packet_count,
                  append_u64 transmit_us] output)"

definition encode_internal_clock_sync_item :: "clock_sync_message \<Rightarrow> bytes \<Rightarrow> bytes res" where
  "encode_internal_clock_sync_item sync output =
     (if cs_path_id sync < 0 \<or> cs_path_id sync > u16_max \<or> cs_exchange_id sync \<le> 0 \<or> cs_origin_us sync \<le> 0
      then Inl (ValueError ''internal clock sync value out of range'')
      else chain [append_u8 CONTROL_TYPE_INTERNAL_CLOCK_SYNC,
                  append_u16 35,
                  append_u64 (cs_exchange_id sync),
                  append_u16 (cs_path_id sync),
                  append_u8 (cs_mode sync),
                  append_u64 (cs_origin_us sync),
                  arg (optional_u64 (cs_receive_us sync)) append_u64,
                  arg (optional_u64 (cs_transmit_us sync)) append_u64] output)"

definition encode_sink_time_item :: "sink_time_message \<Rightarrow> bytes \<Rightarrow> bytes res" where
  "encode_sink_time_item message output =
     (if st_path_id message < 0 \<or> st_path_id message > u16_max
         \<or> st_sink_unix_us message \<le> 0 \<or> st_sink_internal_us message \<le> 0
         \<or> st_ntp_state message \<notin> {0, 1, 2}
      then Inl (ValueError ''sink time value out of range'')
      else chain [append_u8 CONTROL_TYPE_SINK_TIME,
                  append_u16 19,
                  append_u16 (st_path_id message),
                  append_u64 (st_sink_unix_us message),
                  append_u64 (st_sink_internal_us message),
                  append_u8 (st_ntp_state message)] output)"

section \<open>Value decoders\<close>

definition str_decode :: "bytes \<Rightarrow> ustr option" where
  "str_decode bs = utf8_decode bs"

definition decode_path_metadata_value :: "bytes \<Rightarrow> (int \<times> ustr) option res" where
  "decode_path_metadata_value value =
     (if length value < 3 then Inr None
      else let ident = read_u16 value 0 in
        rbind (idx value 2) (\<lambda>text_len.
          if int (length value) \<noteq> 3 + text_len then Inr None
          else case str_decode (drop 3 value) of
                 None \<Rightarrow> Inr None
               | Some text \<Rightarrow> if text = [] then Inr None else Inr (Some (ident, text))))"

definition decode_service_metadata_value :: "bytes \<Rightarrow> (int \<times> ustr) option res" where
  "decode_service_metadata_value value =
     (if length value < 3 then Inr None
      else let ident = read_u16 value 0 in
        rbind (idx value 2) (\<lambda>text_len.
          if ident < USER_SERVICE_ID_START \<or> int (length value) \<noteq> 3 + text_len then Inr None
          else case str_decode (drop 3 value) of
                 None \<Rightarrow> Inr None
               | Some text \<Rightarrow> if text = [] then Inr None else Inr (Some (ident, text))))"

definition decode_service_endpoint_assertion_value :: "bytes \<Rightarrow> (int \<times> ustr) option res" where
  "decode_service_endpoint_assertion_value value =
     (if length value < 3 then Inr None
      else let ident = read_u16 value 0 in
        rbind (idx value 2) (\<lambda>text_len.
          if ident < USER_SERVICE_ID_START \<or> int (length value) \<noteq> 3 + text_len then Inr None
          else case str_decode (drop 3 value) of
                 None \<Rightarrow> Inr None
               | Some text \<Rightarrow> if text = [] then Inr None else Inr (Some (ident, text))))"

definition decode_service_disable_value :: "bytes \<Rightarrow> (int \<times> ustr) option res" where
  "decode_service_disable_value value =
     (if length value < 3 then Inr None
      else let ident = read_u16 value 0 in
        rbind (idx value 2) (\<lambda>text_len.
          if ident < USER_SERVICE_ID_START \<or> int (length value) \<noteq> 3 + text_len then Inr None
          else case str_decode (drop 3 value) of
                 None \<Rightarrow> Inr None
               | Some text \<Rightarrow> if text = [] then Inr None else Inr (Some (ident, text))))"

definition decode_service_scheduler_policy_value :: "bytes \<Rightarrow> (int \<times> policy) option res" where
  "decode_service_scheduler_policy_value value =
     (if length value \<noteq> 29 then Inr None
      else let service_id = read_u16 value 0 in
        if service_id < USER_SERVICE_ID_START then Inr None
        else rbind (idx value 28) (\<lambda>path_policy.
          if path_policy > 2 then Inr None
          else Inr (Some (service_id,
                 [read_u16 value 2, read_u32 value 4, read_u64 value 8, read_u64 value 16,
                  read_u32 value 24, path_policy]))))"

definition decode_path_capacity_value :: "bytes \<Rightarrow> (int \<times> opt2) option res" where
  "decode_path_capacity_value value =
     (if length value \<noteq> 18 then Inr None
      else Inr (Some (read_u16 value 0, decode_optional_u64 (read_u64 value 2),
                      decode_optional_u64 (read_u64 value 10))))"

definition decode_path_latency_value :: "bytes \<Rightarrow> (int \<times> opt4) option res" where
  "decode_path_latency_value value =
     (if length value \<noteq> 18 then Inr None
      else Inr (Some (read_u16 value 0, decode_optional_u32 (read_u32 value 2),
                      decode_optional_u32 (read_u32 value 6), decode_optional_u32 (read_u32 value 10),
                      decode_optional_u32 (read_u32 value 14))))"

definition decode_path_latency_quality_value :: "bytes \<Rightarrow> (int \<times> latency_quality) option res" where
  "decode_path_latency_quality_value value =
     (if length value \<noteq> 4 then Inr None
      else rbind (idx value 2) (\<lambda>c2. rbind (idx value 3) (\<lambda>c3.
        let source = decode_latency_source c2; confidence = decode_latency_confidence c3 in
        if source = None \<and> c2 \<noteq> 0 then Inr None
        else if confidence = None \<and> c3 \<noteq> 0 then Inr None
        else Inr (Some (read_u16 value 0, source, confidence)))))"

definition decode_path_latency_stats_value :: "bytes \<Rightarrow> (int \<times> opt6) option res" where
  "decode_path_latency_stats_value value =
     (if length value \<noteq> 26 then Inr None
      else Inr (Some (read_u16 value 0, decode_optional_u32 (read_u32 value 2),
                      decode_optional_u32 (read_u32 value 6), decode_optional_u32 (read_u32 value 10),
                      decode_optional_u32 (read_u32 value 14), decode_optional_u32 (read_u32 value 18),
                      decode_optional_u32 (read_u32 value 22))))"

definition decode_path_mtu_value :: "bytes \<Rightarrow> (int \<times> opt4) option res" where
  "decode_path_mtu_value value =
     (if length value \<noteq> 10 then Inr None
      else let path_id = read_u16 value 0;
               tx_link_mtu = decode_optional_u16 (read_u16 value 2);
               tx_frame_mtu = decode_optional_u16 (read_u16 value 4);
               rx_link_mtu = decode_optional_u16 (read_u16 value 6);
               rx_frame_mtu = decode_optional_u16 (read_u16 value 8) in
        if \<not> valid_mtu_pair tx_link_mtu tx_frame_mtu
           \<or> \<not> valid_mtu_pair rx_link_mtu rx_frame_mtu
           \<or> tx_link_mtu = None \<and> rx_link_mtu = None
        then Inr None
        else Inr (Some (path_id, tx_link_mtu, tx_frame_mtu, rx_link_mtu, rx_frame_mtu)))"

definition decode_path_pressure_value :: "bytes \<Rightarrow> (int \<times> pressure) option res" where
  "decode_path_pressure_value value =
     (if length value \<noteq> 58 then Inr None
      else let loss_ppm = read_u32 value 2 in
        if loss_ppm > 1000000 then Inr None
        else Inr (Some (read_u16 value 0,
               [loss_ppm, read_u32 value 6, read_u32 value 10, read_u32 value 14, read_u32 value 18,
                read_u32 value 22, read_u32 value 26, read_u32 value 30, read_u32 value 34,
                read_u32 value 38, read_u32 value 42, read_u32 value 46, read_u32 value 50,
                read_u32 value 54])))"

fun decode_status_strings :: "nat \<Rightarrow> bytes \<Rightarrow> nat \<Rightarrow> ustr list \<Rightarrow> (nat \<times> ustr list) option res" where
  "decode_status_strings 0 value cursor values = Inr (Some (cursor, values))"
| "decode_status_strings (Suc n) value cursor values =
     (if cursor \<ge> length value then Inr None
      else rbind (idx value cursor) (\<lambda>value_len.
        let cursor = cursor + 1 in
        if value_len \<le> 0 \<or> cursor + nat value_len > length value then Inr None
        else case str_decode (slice value cursor (cursor + nat value_len)) of
               None \<Rightarrow> Inr None
             | Some text \<Rightarrow> decode_status_strings n value (cursor + nat value_len) (values @ [text])))"

definition decode_scheduler_status_value :: "bytes \<Rightarrow> scheduler_status option res" where
  "decode_scheduler_status_value value =
     rbind (decode_status_strings 3 value 0 []) (\<lambda>r.
       case r of None \<Rightarrow> Inr None
       | Some (cursor, values) \<Rightarrow>
           if cursor \<noteq> length value then Inr None
           else case values of [v0, v1, v2] \<Rightarrow> Inr (Some (v0, v1, v2)) | _ \<Rightarrow> Inl IndexError)"

definition decode_data_transmit_sample_value :: "bytes \<Rightarrow> transmit_sample option res" where
  "decode_data_transmit_sample_value value =
     (if length value \<noteq> 22 then Inr None
      else let path_id = read_u16 value 0; first_sequence = read_u64 value 2;
               packet_count = read_u32 value 10; transmit_us = read_u64 value 14 in
        if packet_count \<le> 0 \<or> transmit_us \<le> 0 then Inr None
        else Inr (Some (path_id, first_sequence, packet_count, transmit_us)))"

definition decode_internal_clock_sync_value :: "bytes \<Rightarrow> clock_sync_message option res" where
  "decode_internal_clock_sync_value value =
     (if length value \<noteq> 35 then Inr None
      else rbind (idx value 10) (\<lambda>mode.
        if mode \<notin> {1, 2} then Inr None
        else let exchange_id = read_u64 value 0; origin_us = read_u64 value 11 in
          if exchange_id \<le> 0 \<or> origin_us \<le> 0 then Inr None
          else let receive_us = decode_optional_u64 (read_u64 value 19);
                   transmit_us = decode_optional_u64 (read_u64 value 27) in
            if mode = 2 \<and> (receive_us = None \<or> transmit_us = None) then Inr None
            else Inr (Some \<lparr>cs_exchange_id = exchange_id, cs_path_id = read_u16 value 8,
                            cs_mode = mode, cs_origin_us = origin_us,
                            cs_receive_us = receive_us, cs_transmit_us = transmit_us\<rparr>)))"

definition decode_sink_time_value :: "bytes \<Rightarrow> sink_time_message option res" where
  "decode_sink_time_value value =
     (if length value \<noteq> 19 then Inr None
      else rbind (idx value 18) (\<lambda>ntp_state.
        if ntp_state \<notin> {0, 1, 2} then Inr None
        else let sink_unix_us = read_u64 value 2; sink_internal_us = read_u64 value 10 in
          if sink_unix_us \<le> 0 \<or> sink_internal_us \<le> 0 then Inr None
          else Inr (Some \<lparr>st_path_id = read_u16 value 0, st_sink_unix_us = sink_unix_us,
                          st_sink_internal_us = sink_internal_us, st_ntp_state = ntp_state\<rparr>)))"

section \<open>The contract of a message kind\<close>

text \<open>
  One message on the wire: type byte, two length bytes, value. A message kind is an encoder step
  that appends exactly one such message, and a value decoder that never raises and inverts the
  encoder up to \<open>norm\<close> on the items that satisfy \<open>okay\<close>.
\<close>

definition message :: "int \<Rightarrow> bytes \<Rightarrow> bytes" where
  "message tcode value = word_of_int tcode # be_bytes 2 (int (length value)) @ value"

locale wire_message =
  fixes tcode :: int
    and enc :: "'a \<Rightarrow> bytes \<Rightarrow> bytes res"
    and dec :: "bytes \<Rightarrow> 'b option res"
    and norm :: "'a \<Rightarrow> 'b"
    and okay :: "'a \<Rightarrow> bool"
  assumes tcode_byte: "0 \<le> tcode \<and> tcode < 256"
    and enc_message: "enc x out = Inr out' \<Longrightarrow>
      \<exists>v. out' = out @ message tcode v \<and> length v < 65536 \<and> (okay x \<longrightarrow> dec v = Inr (Some (norm x)))"
    and dec_total: "dec v \<noteq> Inl e"
begin

lemma foreach_messages:
  assumes "foreach enc xs out = Inr out'" and "\<forall>x\<in>set xs. okay x"
  shows "\<exists>vs. out' = out @ concat (map (message tcode) vs) \<and> length vs = length xs
           \<and> (\<forall>v\<in>set vs. length v < 65536) \<and> list_all2 (\<lambda>v x. dec v = Inr (Some (norm x))) vs xs"
  using assms
proof (induction xs arbitrary: out)
  case (Cons x xs)
  then obtain mid where mid: "enc x out = Inr mid" "foreach enc xs mid = Inr out'"
    by (auto simp: rbind_eq_Inr)
  obtain v where v: "mid = out @ message tcode v" "length v < 65536" "dec v = Inr (Some (norm x))"
    using enc_message [OF mid(1)] Cons.prems(2) by auto
  obtain vs where vs: "out' = mid @ concat (map (message tcode) vs)" "length vs = length xs"
      "\<forall>v\<in>set vs. length v < 65536" "list_all2 (\<lambda>v x. dec v = Inr (Some (norm x))) vs xs"
    using Cons.IH [OF mid(2)] Cons.prems(2) by auto
  show ?case using v vs by (intro exI [of _ "v # vs"]) auto
qed simp

end

section \<open>Round trip of each message kind\<close>

lemma length_message [simp]: "length (message t v) = 3 + length v"
  by (simp add: message_def)

definition text_value :: "int \<Rightarrow> bytes \<Rightarrow> bytes" where
  "text_value ident encoded = be_bytes 2 ident @ word_of_int (int (length encoded)) # encoded"

lemma text_value_simps [simp]:
  "length (text_value ident encoded) = 3 + length encoded"
  "0 \<le> ident \<Longrightarrow> ident < 65536 \<Longrightarrow> read_u16 (text_value ident encoded) 0 = ident"
  "drop 3 (text_value ident encoded) = encoded"
  "length encoded < 256 \<Longrightarrow> uint (text_value ident encoded ! 2) = int (length encoded)"
  by (simp_all add: text_value_def read_defs nth_append unsigned_of_nat take_bit_eq_mod)

lemmas text_simps = append_simps rbind_eq_Inr str_encode_eq_Inr const_simps text_value_simps

lemma path_metadata_message:
  assumes "encode_path_metadata_item x out = Inr out'"
  shows "\<exists>v. out' = out @ message CONTROL_TYPE_PATH_METADATA v \<and> length v < 65536
           \<and> decode_path_metadata_value v = Inr (Some x)"
proof -
  obtain ident name where x: "x = (ident, name)" by (cases x)
  obtain encoded where e: "utf8_encode name = Some encoded" "encoded \<noteq> []" "length encoded \<le> 255"
      "0 \<le> ident" "ident \<le> 65535" "out' = out @ message CONTROL_TYPE_PATH_METADATA (text_value ident encoded)"
    using assms x
    by (auto simp: encode_path_metadata_item_def text_simps message_def text_value_def split: if_splits)
  then have "decode_path_metadata_value (text_value ident encoded) = Inr (Some x)"
    using utf8_decode_encode [OF e(1)] utf8_decode_nonempty x
    by (auto simp: decode_path_metadata_value_def str_decode_def const_simps)
  then show ?thesis using e by (intro exI [of _ "text_value ident encoded"]) simp
qed

lemma service_metadata_message:
  assumes "encode_service_metadata_item x out = Inr out'"
  shows "\<exists>v. out' = out @ message CONTROL_TYPE_SERVICE_METADATA v \<and> length v < 65536
           \<and> decode_service_metadata_value v = Inr (Some x)"
proof -
  obtain ident name where x: "x = (ident, name)" by (cases x)
  obtain encoded where e: "utf8_encode name = Some encoded" "encoded \<noteq> []" "length encoded \<le> 255"
      "256 \<le> ident" "ident \<le> 65535" "out' = out @ message CONTROL_TYPE_SERVICE_METADATA (text_value ident encoded)"
    using assms x
    by (auto simp: encode_service_metadata_item_def text_simps message_def text_value_def split: if_splits)
  then have "decode_service_metadata_value (text_value ident encoded) = Inr (Some x)"
    using utf8_decode_encode [OF e(1)] utf8_decode_nonempty x
    by (auto simp: decode_service_metadata_value_def str_decode_def const_simps)
  then show ?thesis using e by (intro exI [of _ "text_value ident encoded"]) simp
qed

lemma service_endpoint_assertions_message:
  assumes "encode_service_endpoint_assertions_item x out = Inr out'"
  shows "\<exists>v. out' = out @ message CONTROL_TYPE_SERVICE_ENDPOINT_ASSERTION v \<and> length v < 65536
           \<and> decode_service_endpoint_assertion_value v = Inr (Some x)"
proof -
  obtain ident name where x: "x = (ident, name)" by (cases x)
  obtain encoded where e: "utf8_encode name = Some encoded" "encoded \<noteq> []" "length encoded \<le> 255"
      "256 \<le> ident" "ident \<le> 65535" "out' = out @ message CONTROL_TYPE_SERVICE_ENDPOINT_ASSERTION (text_value ident encoded)"
    using assms x
    by (auto simp: encode_service_endpoint_assertions_item_def text_simps message_def text_value_def split: if_splits)
  then have "decode_service_endpoint_assertion_value (text_value ident encoded) = Inr (Some x)"
    using utf8_decode_encode [OF e(1)] utf8_decode_nonempty x
    by (auto simp: decode_service_endpoint_assertion_value_def str_decode_def const_simps)
  then show ?thesis using e by (intro exI [of _ "text_value ident encoded"]) simp
qed

lemma service_disables_message:
  assumes "encode_service_disables_item x out = Inr out'"
  shows "\<exists>v. out' = out @ message CONTROL_TYPE_SERVICE_DISABLE v \<and> length v < 65536
           \<and> decode_service_disable_value v = Inr (Some x)"
proof -
  obtain ident name where x: "x = (ident, name)" by (cases x)
  obtain encoded where e: "utf8_encode name = Some encoded" "encoded \<noteq> []" "length encoded \<le> 255"
      "256 \<le> ident" "ident \<le> 65535" "out' = out @ message CONTROL_TYPE_SERVICE_DISABLE (text_value ident encoded)"
    using assms x
    by (auto simp: encode_service_disables_item_def text_simps message_def text_value_def split: if_splits)
  then have "decode_service_disable_value (text_value ident encoded) = Inr (Some x)"
    using utf8_decode_encode [OF e(1)] utf8_decode_nonempty x
    by (auto simp: decode_service_disable_value_def str_decode_def const_simps)
  then show ?thesis using e by (intro exI [of _ "text_value ident encoded"]) simp
qed

lemma optional_u64_Inr:
  "optional_u64 x = Inr a \<Longrightarrow> 0 \<le> a \<and> a < 18446744073709551616 \<and> decode_optional_u64 a = x"
  by (auto simp: optional_u64_def decode_optional_u64_def const_simps split: option.splits if_splits)

lemma optional_u32_Inr:
  "optional_u32 x = Inr a \<Longrightarrow> 0 \<le> a \<and> a < 4294967296 \<and> decode_optional_u32 a = x"
  by (auto simp: optional_u32_def decode_optional_u32_def const_simps split: option.splits if_splits)

lemma optional_u16_Inr:
  "optional_u16 x = Inr a \<Longrightarrow> 0 \<le> a \<and> a < 65536 \<and> decode_optional_u16 a = x"
  by (auto simp: optional_u16_def decode_optional_u16_def const_simps split: option.splits if_splits)

text \<open>A metric of zero is written as zero, which the decoder reads as absent.\<close>

definition zero_absent :: "int option \<Rightarrow> int option" where
  "zero_absent x = (if x = Some 0 then None else x)"

lemma optional_metric_u32_Inr:
  "optional_metric_u32 x = Inr a \<Longrightarrow> 0 \<le> a \<and> a < 4294967296 \<and> decode_optional_u32 a = zero_absent x"
  by (auto simp: optional_metric_u32_def decode_optional_u32_def zero_absent_def const_simps
      split: option.splits if_splits)

lemma counter_u32_Inr: "counter_u32 x = Inr a \<Longrightarrow> a = x \<and> 0 \<le> x \<and> x < 4294967296"
  by (auto simp: counter_u32_def const_simps split: if_splits)

lemmas numeric_simps = append_simps rbind_eq_Inr const_simps message_def

lemma message_intro:
  "out' = out @ word_of_int t # be_bytes 2 n @ v \<Longrightarrow> n = int (length v) \<Longrightarrow> length v < 65536
     \<Longrightarrow> P v \<Longrightarrow> \<exists>v. out' = out @ message t v \<and> length v < 65536 \<and> P v"
  by (auto simp: message_def)

lemma path_capacity_message:
  assumes "encode_path_capacity_item x out = Inr out'"
  shows "\<exists>v. out' = out @ message CONTROL_TYPE_PATH_CAPACITY v \<and> length v < 65536
           \<and> decode_path_capacity_value v = Inr (Some x)"
proof -
  obtain pid tx rx where x: "x = (pid, tx, rx)" by (cases x)
  from assms obtain a b where v: "optional_u64 tx = Inr a" "optional_u64 rx = Inr b" "0 \<le> pid" "pid < 65536"
      and out: "out' = out @ word_of_int 4 # be_bytes 2 18 @ be_bytes 2 pid @ be_bytes 8 a @ be_bytes 8 b"
    by (auto simp: x encode_path_capacity_item_def numeric_simps split: if_splits)
  show ?thesis
    using v(3,4) optional_u64_Inr [OF v(1)] optional_u64_Inr [OF v(2)]
    by (intro message_intro) (auto simp: x out const_simps decode_path_capacity_value_def read_defs)
qed

lemma path_latency_message:
  assumes "encode_path_latency_item x out = Inr out'"
  shows "\<exists>v. out' = out @ message CONTROL_TYPE_PATH_LATENCY v \<and> length v < 65536
           \<and> decode_path_latency_value v = Inr (Some (x))"
proof -
  obtain pid tc tm rc rm where x: "x = (pid, tc, tm, rc, rm)" by (cases x)
  from assms obtain a b c d where
      v: "optional_u32 tc = Inr a" "optional_u32 tm = Inr b" "optional_u32 rc = Inr c" "optional_u32 rm = Inr d"
         "0 \<le> pid" "pid < 65536"
      and out: "out' = out @ word_of_int 5 # be_bytes 2 18 @ be_bytes 2 pid @ be_bytes 4 a @ be_bytes 4 b @ be_bytes 4 c @ be_bytes 4 d"
    by (auto simp: x encode_path_latency_item_def numeric_simps split: if_splits)
  show ?thesis
    using v(5,6) optional_u32_Inr [OF v(1)] optional_u32_Inr [OF v(2)] optional_u32_Inr [OF v(3)] optional_u32_Inr [OF v(4)]
    by (intro message_intro) (auto simp: x out const_simps decode_path_latency_value_def read_defs)
qed

definition norm_stats :: "int \<times> opt6 \<Rightarrow> int \<times> opt6" where
  "norm_stats x = (let (pid, a, b, c, d, e, f) = x in
     (pid, zero_absent a, zero_absent b, zero_absent c, zero_absent d, zero_absent e, zero_absent f))"

lemma path_latency_stats_message:
  assumes "encode_path_latency_stats_item x out = Inr out'"
  shows "\<exists>v. out' = out @ message CONTROL_TYPE_PATH_LATENCY_STATS v \<and> length v < 65536
           \<and> decode_path_latency_stats_value v = Inr (Some (norm_stats x))"
proof -
  obtain pid rtt ce tj rj tp rp where x: "x = (pid, rtt, ce, tj, rj, tp, rp)" by (cases x)
  from assms obtain a b c d e f where
      v: "optional_metric_u32 rtt = Inr a" "optional_metric_u32 ce = Inr b" "optional_metric_u32 tj = Inr c" "optional_metric_u32 rj = Inr d" "optional_metric_u32 tp = Inr e" "optional_metric_u32 rp = Inr f"
         "0 \<le> pid" "pid < 65536"
      and out: "out' = out @ word_of_int 17 # be_bytes 2 26 @ be_bytes 2 pid @ be_bytes 4 a @ be_bytes 4 b @ be_bytes 4 c @ be_bytes 4 d @ be_bytes 4 e @ be_bytes 4 f"
    by (auto simp: x encode_path_latency_stats_item_def numeric_simps split: if_splits)
  show ?thesis
    using v(7,8) optional_metric_u32_Inr [OF v(1)] optional_metric_u32_Inr [OF v(2)] optional_metric_u32_Inr [OF v(3)] optional_metric_u32_Inr [OF v(4)] optional_metric_u32_Inr [OF v(5)] optional_metric_u32_Inr [OF v(6)]
    by (intro message_intro) (auto simp: x out const_simps decode_path_latency_stats_value_def norm_stats_def read_defs)
qed

lemma path_mtu_message:
  assumes "encode_path_mtu_item x out = Inr out'"
  shows "\<exists>v. out' = out @ message CONTROL_TYPE_PATH_MTU v \<and> length v < 65536
           \<and> decode_path_mtu_value v = Inr (Some (x))"
proof -
  obtain pid tl tf rl rf where x: "x = (pid, tl, tf, rl, rf)" by (cases x)
  from assms obtain a b c d where
      v: "optional_u16 tl = Inr a" "optional_u16 tf = Inr b" "optional_u16 rl = Inr c" "optional_u16 rf = Inr d"
         "0 \<le> pid" "pid < 65536" "valid_mtu_pair tl tf" "valid_mtu_pair rl rf"
         "\<not> (tl = None \<and> rl = None)"
      and out: "out' = out @ word_of_int 11 # be_bytes 2 10 @ be_bytes 2 pid @ be_bytes 2 a @ be_bytes 2 b @ be_bytes 2 c @ be_bytes 2 d"
    by (auto simp: x encode_path_mtu_item_def numeric_simps split: if_splits)
  show ?thesis
    using v(5-9) optional_u16_Inr [OF v(1)] optional_u16_Inr [OF v(2)] optional_u16_Inr [OF v(3)] optional_u16_Inr [OF v(4)]
    by (intro message_intro) (auto simp: x out const_simps decode_path_mtu_value_def read_defs)
qed

lemma latency_source_code:
  "encode_latency_source x = Inr c \<Longrightarrow> 0 \<le> c \<and> c < 256 \<and> decode_latency_source c = x \<and> (c \<noteq> 0 \<longrightarrow> x \<noteq> None)"
  by (auto simp: encode_latency_source_def decode_latency_source_def LATENCY_SOURCE_TO_CODE_def
      dict_inverse_def split: option.splits if_splits)

lemma latency_confidence_code:
  "encode_latency_confidence x = Inr c \<Longrightarrow>
     0 \<le> c \<and> c < 256 \<and> decode_latency_confidence c = x \<and> (c \<noteq> 0 \<longrightarrow> x \<noteq> None)"
  by (auto simp: encode_latency_confidence_def decode_latency_confidence_def LATENCY_CONFIDENCE_TO_CODE_def
      dict_inverse_def split: option.splits if_splits)

lemma uint_byte_word_of_int: "0 \<le> c \<Longrightarrow> c < 256 \<Longrightarrow> uint (word_of_int c :: byte) = c"
  by (simp add: uint_word_of_int)

lemma path_latency_quality_message:
  assumes "encode_path_latency_quality_item x out = Inr out'"
  shows "\<exists>v. out' = out @ message CONTROL_TYPE_PATH_LATENCY_QUALITY v \<and> length v < 65536
           \<and> decode_path_latency_quality_value v = Inr (Some x)"
proof -
  obtain pid src conf where x: "x = (pid, src, conf)" by (cases x)
  from assms obtain a b where
      v: "encode_latency_source src = Inr a" "encode_latency_confidence conf = Inr b" "0 \<le> pid" "pid < 65536"
      and out: "out' = out @ word_of_int 16 # be_bytes 2 4 @ be_bytes 2 pid @ [word_of_int a, word_of_int b]"
    by (auto simp: x encode_path_latency_quality_item_def numeric_simps split: if_splits)
  note c = latency_source_code [OF v(1)] latency_confidence_code [OF v(2)]
  let ?v = "be_bytes 2 pid @ [word_of_int a, word_of_int b]"
  have i: "idx ?v 2 = Inr a" "idx ?v 3 = Inr b"
    using c by (simp_all add: nth_append uint_byte_word_of_int)
  have "decode_path_latency_quality_value ?v = Inr (Some x)"
    using v(3,4) c i
    by (auto simp: x decode_path_latency_quality_value_def read_defs simp del: idx_total)
  then show ?thesis by (intro message_intro) (auto simp: out const_simps)
qed

lemma data_transmit_samples_message:
  assumes "encode_data_transmit_samples_item x out = Inr out'"
  shows "\<exists>v. out' = out @ message CONTROL_TYPE_DATA_TRANSMIT_SAMPLE v \<and> length v < 65536
           \<and> decode_data_transmit_sample_value v = Inr (Some x)"
proof -
  obtain pid fs n t where x: "x = (pid, fs, n, t)" by (cases x)
  from assms have
      v: "0 \<le> pid" "pid < 65536" "0 \<le> fs" "fs < 18446744073709551616" "0 < n" "n < 4294967296"
         "0 < t" "t < 18446744073709551616"
      and out: "out' = out @ word_of_int 15 # be_bytes 2 22 @ be_bytes 2 pid @ be_bytes 8 fs @ be_bytes 4 n @ be_bytes 8 t"
    by (auto simp: x encode_data_transmit_samples_item_def numeric_simps split: if_splits)
  show ?thesis
    using v
    by (intro message_intro) (auto simp: x out const_simps decode_data_transmit_sample_value_def read_defs)
qed

lemma sink_time_message:
  assumes "encode_sink_time_item x out = Inr out'"
  shows "\<exists>v. out' = out @ message CONTROL_TYPE_SINK_TIME v \<and> length v < 65536
           \<and> decode_sink_time_value v = Inr (Some x)"
proof -
  from assms have
      v: "0 \<le> st_path_id x" "st_path_id x < 65536" "0 < st_sink_unix_us x"
         "st_sink_unix_us x < 18446744073709551616" "0 < st_sink_internal_us x"
         "st_sink_internal_us x < 18446744073709551616" "st_ntp_state x \<in> {0, 1, 2}"
      and out: "out' = out @ word_of_int 7 # be_bytes 2 19 @ be_bytes 2 (st_path_id x)
         @ be_bytes 8 (st_sink_unix_us x) @ be_bytes 8 (st_sink_internal_us x) @ [word_of_int (st_ntp_state x)]"
    by (auto simp: encode_sink_time_item_def numeric_simps split: if_splits)
  show ?thesis
    using v
    by (intro message_intro)
      (auto simp: out const_simps decode_sink_time_value_def read_defs nth_append uint_byte_word_of_int)
qed

text \<open>The clock-sync messages the decoder accepts; the encoder accepts more.\<close>

definition clock_sync_decodable :: "clock_sync_message \<Rightarrow> bool" where
  "clock_sync_decodable m \<longleftrightarrow>
     cs_mode m = 1 \<or> cs_mode m = 2 \<and> cs_receive_us m \<noteq> None \<and> cs_transmit_us m \<noteq> None"

lemma internal_clock_sync_message:
  assumes "encode_internal_clock_sync_item x out = Inr out'"
  shows "\<exists>v. out' = out @ message CONTROL_TYPE_INTERNAL_CLOCK_SYNC v \<and> length v < 65536
           \<and> (clock_sync_decodable x \<longrightarrow> decode_internal_clock_sync_value v = Inr (Some x))"
proof -
  from assms obtain a b where
      v: "optional_u64 (cs_receive_us x) = Inr a" "optional_u64 (cs_transmit_us x) = Inr b"
         "0 \<le> cs_path_id x" "cs_path_id x < 65536" "0 < cs_exchange_id x"
         "cs_exchange_id x < 18446744073709551616" "0 < cs_origin_us x"
         "cs_origin_us x < 18446744073709551616" "0 \<le> cs_mode x" "cs_mode x < 256"
      and out: "out' = out @ word_of_int 6 # be_bytes 2 35 @ be_bytes 8 (cs_exchange_id x)
         @ be_bytes 2 (cs_path_id x) @ [word_of_int (cs_mode x)] @ be_bytes 8 (cs_origin_us x)
         @ be_bytes 8 a @ be_bytes 8 b"
    by (auto simp: encode_internal_clock_sync_item_def numeric_simps split: if_splits)
  show ?thesis
    using v(3-) optional_u64_Inr [OF v(1)] optional_u64_Inr [OF v(2)]
    by (intro message_intro)
      (auto simp: out const_simps decode_internal_clock_sync_value_def clock_sync_decodable_def read_defs
        nth_append uint_byte_word_of_int)
qed

definition norm_policy :: "int \<times> policy \<Rightarrow> int \<times> policy" where
  "norm_policy x = (fst x, if length (snd x) = 5 then snd x @ [0] else snd x)"

lemma service_scheduler_policies_message:
  assumes "encode_service_scheduler_policies_item x out = Inr out'"
  shows "\<exists>v. out' = out @ message CONTROL_TYPE_SERVICE_SCHEDULER_POLICY v \<and> length v < 65536
           \<and> decode_service_scheduler_policy_value v = Inr (Some (norm_policy x))"
proof -
  obtain sid pol where x: "x = (sid, pol)" by (cases x)
  from assms obtain a b c d e f where
      pol: "(if length pol = 5 then pol @ [0] else pol) = [a, b, c, d, e, f]"
    by (auto simp: x encode_service_scheduler_policies_item_def Let_def split: list.splits)
  with assms have
      v: "256 \<le> sid" "sid < 65536" "0 \<le> a" "a < 65536" "0 \<le> b" "b < 4294967296"
         "0 \<le> c" "c < 18446744073709551616" "0 \<le> d" "d < 18446744073709551616"
         "0 \<le> e" "e < 4294967296" "0 \<le> f" "f \<le> 2"
      and out: "out' = out @ word_of_int 12 # be_bytes 2 29 @ be_bytes 2 sid @ be_bytes 2 a @ be_bytes 4 b
         @ be_bytes 8 c @ be_bytes 8 d @ be_bytes 4 e @ [word_of_int f]"
    by (auto simp: x encode_service_scheduler_policies_item_def numeric_simps Let_def split: if_splits)
  have "norm_policy x = (sid, [a, b, c, d, e, f])" using pol by (simp only: x norm_policy_def fst_conv snd_conv)
  then show ?thesis
    using v
    by (intro message_intro)
      (auto simp: out const_simps decode_service_scheduler_policy_value_def read_defs nth_append
        uint_byte_word_of_int)
qed

lemma chain_append: "chain (fs @ gs) s = rbind (chain fs s) (chain gs)"
  by (simp add: chain_def foreach_append)

lemma chain_counters:
  "chain (map (\<lambda>c. arg (counter_u32 c) append_u32) cs) out = Inr out' \<Longrightarrow>
     out' = out @ concat (map (be_bytes 4) cs) \<and> (\<forall>c\<in>set cs. 0 \<le> c \<and> c < 4294967296)"
proof (induction cs arbitrary: out)
  case (Cons c cs)
  from Cons.prems have c: "0 \<le> c" "c < 4294967296"
      and rest: "chain (map (\<lambda>c. arg (counter_u32 c) append_u32) cs) (out @ be_bytes 4 c) = Inr out'"
    by (auto simp: append_simps rbind_eq_Inr dest!: counter_u32_Inr)
  show ?case using Cons.IH [OF rest] c by simp
qed simp

lemma drop_counters: "drop (4 * k) (concat (map (be_bytes 4) cs)) = concat (map (be_bytes 4) (drop k cs))"
proof (induction cs arbitrary: k)
  case (Cons c cs)
  then show ?case by (cases k) simp_all
qed simp

lemma read_counter:
  assumes "k < length cs" and "\<forall>c\<in>set cs. 0 \<le> c \<and> c < 4294967296"
  shows "read_u32 (be_bytes 2 pid @ concat (map (be_bytes 4) cs)) (2 + 4 * k) = cs ! k"
proof -
  have "drop (2 + 4 * k) (be_bytes 2 pid @ concat (map (be_bytes 4) cs)) = concat (map (be_bytes 4) (drop k cs))"
    using drop_counters by simp
  also have "\<dots> = be_bytes 4 (cs ! k) @ concat (map (be_bytes 4) (drop (Suc k) cs))"
    using assms(1) by (simp add: Cons_nth_drop_Suc [symmetric])
  finally show ?thesis
    using assms by (simp add: read_u32_def slice_def from_bytes_be_bytes)
qed

lemma length_counters: "length (concat (map (be_bytes 4) cs)) = 4 * length cs"
  by (induction cs) simp_all

lemma path_pressure_message:
  assumes "encode_path_pressure_item x out = Inr out'"
  shows "\<exists>v. out' = out @ message CONTROL_TYPE_PATH_PRESSURE v \<and> length v < 65536
           \<and> decode_path_pressure_value v = Inr (Some x)"
proof -
  obtain pid cs where x: "x = (pid, cs)" by (cases x)
  from assms have v: "0 \<le> pid" "pid < 65536" "length cs = 14" "cs ! 0 \<le> 1000000"
      and ch: "chain (map (\<lambda>c. arg (counter_u32 c) append_u32) cs)
                 (out @ word_of_int 13 # be_bytes 2 58 @ be_bytes 2 pid) = Inr out'"
    by (auto simp: x encode_path_pressure_item_def numeric_simps chain_append split: if_splits)
  define V where "V = be_bytes 2 pid @ concat (map (be_bytes 4) cs)"
  have out: "out' = out @ word_of_int 13 # be_bytes 2 58 @ V"
    and r: "\<forall>c\<in>set cs. 0 \<le> c \<and> c < 4294967296"
    using chain_counters [OF ch] by (simp_all add: V_def)
  have "cs = map (\<lambda>k. read_u32 V (2 + 4 * k)) [0..<14]"
    unfolding V_def using read_counter [OF _ r] v(3) by (intro nth_equalityI) simp_all
  then have l: "cs = [read_u32 V 2, read_u32 V 6, read_u32 V 10, read_u32 V 14, read_u32 V 18,
      read_u32 V 22, read_u32 V 26, read_u32 V 30, read_u32 V 34, read_u32 V 38, read_u32 V 42,
      read_u32 V 46, read_u32 V 50, read_u32 V 54]"
    by (simp add: upt_rec numeral_2_eq_2)
  have loss: "read_u32 V 2 \<le> 1000000" using read_counter [of 0 cs pid] r v(3,4) by (simp add: V_def)
  have pid: "read_u16 V 0 = pid" using v by (simp add: V_def read_defs)
  have lv: "length V = 58" using v(3) by (simp add: V_def length_counters)
  have "decode_path_pressure_value V = Inr (Some (pid, cs))"
    using l [symmetric] loss pid lv by (simp add: decode_path_pressure_value_def)
  then show ?thesis using lv by (intro message_intro) (auto simp: x out const_simps)
qed

lemma status_step:
  assumes "utf8_encode s = Some e" "e \<noteq> []" "length e \<le> 63" "length pre = cursor"
  shows "decode_status_strings (Suc n) (pre @ word_of_int (int (length e)) # e @ post) cursor values
         = decode_status_strings n (pre @ word_of_int (int (length e)) # e @ post)
             (cursor + 1 + length e) (values @ [s])"
proof -
  have b: "uint (word_of_int (int (length e)) :: byte) = int (length e)"
    using assms(3) by (intro uint_byte_word_of_int) simp_all
  then have "idx (pre @ word_of_int (int (length e)) # e @ post) cursor = Inr (int (length e))"
    using assms(4) by (simp add: idx_def nth_append)
  moreover have "slice (pre @ word_of_int (int (length e)) # e @ post) (cursor + 1) (cursor + 1 + length e) = e"
    using assms(4) by (simp add: slice_def)
  ultimately show ?thesis
    using assms utf8_decode_encode [OF assms(1)] by (simp add: str_decode_def Let_def del: idx_total)
qed

lemma scheduler_status_message:
  assumes "encode_scheduler_status_item x out = Inr out'"
  shows "\<exists>v. out' = out @ message CONTROL_TYPE_SCHEDULER_STATUS v \<and> length v < 65536
           \<and> decode_scheduler_status_value v = Inr (Some x)"
proof -
  obtain s1 s2 s3 where x: "x = (s1, s2, s3)" by (cases x)
  define L where "L e = (word_of_int (int (length (e :: bytes))) :: byte)" for e
  from assms obtain e1 e2 e3 where
      e: "utf8_encode s1 = Some e1" "utf8_encode s2 = Some e2" "utf8_encode s3 = Some e3"
         "e1 \<noteq> []" "length e1 \<le> 63" "e2 \<noteq> []" "length e2 \<le> 63" "e3 \<noteq> []" "length e3 \<le> 63"
      and out: "out' = out @ word_of_int 14
                  # be_bytes 2 (int (length (L e1 # e1 @ L e2 # e2 @ L e3 # e3)))
                  @ L e1 # e1 @ L e2 # e2 @ L e3 # e3"
    by (auto simp: x encode_scheduler_status_item_def text_simps Let_def L_def algebra_simps not_less
        split: if_splits)
  let ?v = "L e1 # e1 @ L e2 # e2 @ L e3 # e3"
  have "decode_status_strings 3 ?v 0 [] = decode_status_strings 2 ?v (1 + length e1) [s1]"
    using status_step [OF e(1,4,5), of "[]" 0 2 "L e2 # e2 @ L e3 # e3" "[]"]
    by (simp add: L_def numeral_3_eq_3 numeral_2_eq_2)
  also have "\<dots> = decode_status_strings 1 ?v (2 + length e1 + length e2) [s1, s2]"
    using status_step [OF e(2,6,7), of "L e1 # e1" "1 + length e1" 1 "L e3 # e3" "[s1]"]
    by (simp add: L_def numeral_2_eq_2)
  also have "\<dots> = decode_status_strings 0 ?v (3 + length e1 + length e2 + length e3) [s1, s2, s3]"
    using status_step [OF e(3,8,9), of "L e1 # e1 @ L e2 # e2" "2 + length e1 + length e2" 0 "[]" "[s1, s2]"]
    by (simp add: L_def numeral_2_eq_2 numeral_3_eq_3)
  finally have "decode_scheduler_status_value ?v = Inr (Some x)"
    by (simp add: decode_scheduler_status_value_def x)
  then show ?thesis using e(5,7,9) by (intro message_intro) (auto simp: out const_simps)
qed

section \<open>Decoders never raise\<close>

lemma decode_status_strings_total:
  "decode_status_strings n bs cursor vals \<noteq> Inl e
   \<and> (decode_status_strings n bs cursor vals = Inr (Some (c, vs)) \<longrightarrow> length vs = length vals + n)"
  by (induction n arbitrary: cursor vals)
    (auto simp: Let_def rbind_eq_Inl rbind_eq_Inr split: option.splits if_splits)

lemma decode_scheduler_status_total: "decode_scheduler_status_value v \<noteq> Inl e"
proof (cases "decode_status_strings 3 v 0 []")
  case (Inl e')
  then show ?thesis using decode_status_strings_total [of 3 v 0 "[]" e'] by simp
next
  case (Inr r)
  show ?thesis
  proof (cases r)
    case (Some p)
    obtain c vs where p: "p = (c, vs)" by (cases p)
    have "length vs = 3" using decode_status_strings_total [of 3 v 0 "[]" e c vs] Inr Some p by simp
    then obtain v0 v1 v2 where "vs = [v0, v1, v2]" by (auto simp: length_Suc_conv numeral_3_eq_3)
    then show ?thesis using Inr Some p by (simp add: decode_scheduler_status_value_def)
  qed (use Inr in \<open>simp add: decode_scheduler_status_value_def\<close>)
qed

lemma decoders_total:
  "decode_path_metadata_value v \<noteq> Inl e" "decode_service_metadata_value v \<noteq> Inl e"
  "decode_service_endpoint_assertion_value v \<noteq> Inl e" "decode_service_disable_value v \<noteq> Inl e"
  "decode_service_scheduler_policy_value v \<noteq> Inl e" "decode_path_capacity_value v \<noteq> Inl e"
  "decode_path_latency_value v \<noteq> Inl e" "decode_path_latency_quality_value v \<noteq> Inl e"
  "decode_path_latency_stats_value v \<noteq> Inl e" "decode_path_mtu_value v \<noteq> Inl e"
  "decode_path_pressure_value v \<noteq> Inl e" "decode_data_transmit_sample_value v \<noteq> Inl e"
  "decode_internal_clock_sync_value v \<noteq> Inl e" "decode_sink_time_value v \<noteq> Inl e"
  by (auto simp: decode_path_metadata_value_def decode_service_metadata_value_def
      decode_service_endpoint_assertion_value_def decode_service_disable_value_def
      decode_service_scheduler_policy_value_def decode_path_capacity_value_def
      decode_path_latency_value_def decode_path_latency_quality_value_def
      decode_path_latency_stats_value_def decode_path_mtu_value_def decode_path_pressure_value_def
      decode_data_transmit_sample_value_def decode_internal_clock_sync_value_def
      decode_sink_time_value_def Let_def rbind_eq_Inl split: option.splits if_splits)

section \<open>Every message kind satisfies the contract\<close>

lemmas contract_simps = decoders_total decode_scheduler_status_total const_simps

interpretation pm_msg: wire_message CONTROL_TYPE_PATH_METADATA encode_path_metadata_item
    decode_path_metadata_value id "\<lambda>_. True"
  using path_metadata_message by unfold_locales (auto simp: contract_simps)

interpretation sm_msg: wire_message CONTROL_TYPE_SERVICE_METADATA encode_service_metadata_item
    decode_service_metadata_value id "\<lambda>_. True"
  using service_metadata_message by unfold_locales (auto simp: contract_simps)

interpretation sea_msg: wire_message CONTROL_TYPE_SERVICE_ENDPOINT_ASSERTION encode_service_endpoint_assertions_item
    decode_service_endpoint_assertion_value id "\<lambda>_. True"
  using service_endpoint_assertions_message by unfold_locales (auto simp: contract_simps)

interpretation sd_msg: wire_message CONTROL_TYPE_SERVICE_DISABLE encode_service_disables_item
    decode_service_disable_value id "\<lambda>_. True"
  using service_disables_message by unfold_locales (auto simp: contract_simps)

interpretation ssp_msg: wire_message CONTROL_TYPE_SERVICE_SCHEDULER_POLICY encode_service_scheduler_policies_item
    decode_service_scheduler_policy_value norm_policy "\<lambda>_. True"
  using service_scheduler_policies_message by unfold_locales (auto simp: contract_simps)

interpretation pc_msg: wire_message CONTROL_TYPE_PATH_CAPACITY encode_path_capacity_item
    decode_path_capacity_value id "\<lambda>_. True"
  using path_capacity_message by unfold_locales (auto simp: contract_simps)

interpretation pl_msg: wire_message CONTROL_TYPE_PATH_LATENCY encode_path_latency_item
    decode_path_latency_value id "\<lambda>_. True"
  using path_latency_message by unfold_locales (auto simp: contract_simps)

interpretation plq_msg: wire_message CONTROL_TYPE_PATH_LATENCY_QUALITY encode_path_latency_quality_item
    decode_path_latency_quality_value id "\<lambda>_. True"
  using path_latency_quality_message by unfold_locales (auto simp: contract_simps)

interpretation pls_msg: wire_message CONTROL_TYPE_PATH_LATENCY_STATS encode_path_latency_stats_item
    decode_path_latency_stats_value norm_stats "\<lambda>_. True"
  using path_latency_stats_message by unfold_locales (auto simp: contract_simps)

interpretation pmtu_msg: wire_message CONTROL_TYPE_PATH_MTU encode_path_mtu_item
    decode_path_mtu_value id "\<lambda>_. True"
  using path_mtu_message by unfold_locales (auto simp: contract_simps)

interpretation pp_msg: wire_message CONTROL_TYPE_PATH_PRESSURE encode_path_pressure_item
    decode_path_pressure_value id "\<lambda>_. True"
  using path_pressure_message by unfold_locales (auto simp: contract_simps)

interpretation ss_msg: wire_message CONTROL_TYPE_SCHEDULER_STATUS encode_scheduler_status_item
    decode_scheduler_status_value id "\<lambda>_. True"
  using scheduler_status_message by unfold_locales (auto simp: contract_simps)

interpretation dts_msg: wire_message CONTROL_TYPE_DATA_TRANSMIT_SAMPLE encode_data_transmit_samples_item
    decode_data_transmit_sample_value id "\<lambda>_. True"
  using data_transmit_samples_message by unfold_locales (auto simp: contract_simps)

interpretation ics_msg: wire_message CONTROL_TYPE_INTERNAL_CLOCK_SYNC encode_internal_clock_sync_item
    decode_internal_clock_sync_value id "clock_sync_decodable"
  using internal_clock_sync_message by unfold_locales (auto simp: contract_simps)

interpretation st_msg: wire_message CONTROL_TYPE_SINK_TIME encode_sink_time_item
    decode_sink_time_value id "\<lambda>_. True"
  using sink_time_message by unfold_locales (auto simp: contract_simps)

end
