(* ===== verification/Control_Payload.thy ===== *)
theory Control_Payload
  imports Control_Messages
begin

text \<open>
  The control metaband of \<^verbatim>\<open>protocol.py\<close>: the decoded \<open>ControlFrame\<close>, the fifteen encoder
  loops, \<open>encode_control_payload\<close>, \<open>decode_control_payload\<close> and \<open>decode_control_frame\<close>.

  The record \<open>control_frame\<close> serves both as the argument list of the encoder (an argument left
  out is the empty dictionary or list, which is what the source substitutes) and as the decoded
  result. \<open>decode_messages\<close> is the loop over the announced message count; \<open>apply_message\<close> is
  the dispatch on the message type in its body.

  The locale \<open>control_message\<close> extends the contract of a message kind by the dispatch of
  \<open>apply_message\<close>; its client lemma says that the decoder loop undoes one encoder loop. It is
  interpreted for all fifteen kinds, and the payload round trip composes the fifteen facts.
\<close>

section \<open>State\<close>

record control_frame =
  cf_path_metadata :: "(int, ustr) dict"
  cf_service_metadata :: "(int, ustr) dict"
  cf_service_endpoint_assertions :: "(int, ustr) dict"
  cf_service_disables :: "(int, ustr) dict"
  cf_service_scheduler_policies :: "(int, policy) dict"
  cf_path_capacity_bps :: "(int, opt2) dict"
  cf_path_latency_us :: "(int, opt4) dict"
  cf_path_latency_quality :: "(int, latency_quality) dict"
  cf_path_latency_stats :: "(int, opt6) dict"
  cf_path_mtu :: "(int, opt4) dict"
  cf_path_pressure :: "(int, pressure) dict"
  cf_scheduler_status :: "scheduler_status option"
  cf_data_transmit_samples :: "transmit_sample list"
  cf_internal_clock_sync :: "clock_sync_message list"
  cf_sink_time :: "sink_time_message list"

definition empty_frame :: control_frame where
  "empty_frame = \<lparr>cf_path_metadata = [],
     cf_service_metadata = [],
     cf_service_endpoint_assertions = [],
     cf_service_disables = [],
     cf_service_scheduler_policies = [],
     cf_path_capacity_bps = [],
     cf_path_latency_us = [],
     cf_path_latency_quality = [],
     cf_path_latency_stats = [],
     cf_path_mtu = [],
     cf_path_pressure = [],
     cf_scheduler_status = None,
     cf_data_transmit_samples = [],
     cf_internal_clock_sync = [],
     cf_sink_time = []\<rparr>"

section \<open>Encoder\<close>

definition encode_path_metadata :: "(int, ustr) dict \<Rightarrow> bytes \<Rightarrow> bytes res" where
  "encode_path_metadata items output = foreach encode_path_metadata_item items output"

definition encode_service_metadata :: "(int, ustr) dict \<Rightarrow> bytes \<Rightarrow> bytes res" where
  "encode_service_metadata items output = foreach encode_service_metadata_item items output"

definition encode_service_endpoint_assertions :: "(int, ustr) dict \<Rightarrow> bytes \<Rightarrow> bytes res" where
  "encode_service_endpoint_assertions items output = foreach encode_service_endpoint_assertions_item items output"

definition encode_service_disables :: "(int, ustr) dict \<Rightarrow> bytes \<Rightarrow> bytes res" where
  "encode_service_disables items output = foreach encode_service_disables_item items output"

definition encode_service_scheduler_policies :: "(int, policy) dict \<Rightarrow> bytes \<Rightarrow> bytes res" where
  "encode_service_scheduler_policies items output = foreach encode_service_scheduler_policies_item items output"

definition encode_path_capacity :: "(int, opt2) dict \<Rightarrow> bytes \<Rightarrow> bytes res" where
  "encode_path_capacity items output = foreach encode_path_capacity_item items output"

definition encode_path_latency :: "(int, opt4) dict \<Rightarrow> bytes \<Rightarrow> bytes res" where
  "encode_path_latency items output = foreach encode_path_latency_item items output"

definition encode_path_latency_quality :: "(int, latency_quality) dict \<Rightarrow> bytes \<Rightarrow> bytes res" where
  "encode_path_latency_quality items output = foreach encode_path_latency_quality_item items output"

definition encode_path_latency_stats :: "(int, opt6) dict \<Rightarrow> bytes \<Rightarrow> bytes res" where
  "encode_path_latency_stats items output = foreach encode_path_latency_stats_item items output"

definition encode_path_mtu :: "(int, opt4) dict \<Rightarrow> bytes \<Rightarrow> bytes res" where
  "encode_path_mtu items output = foreach encode_path_mtu_item items output"

definition encode_path_pressure :: "(int, pressure) dict \<Rightarrow> bytes \<Rightarrow> bytes res" where
  "encode_path_pressure items output = foreach encode_path_pressure_item items output"

definition encode_scheduler_status :: "scheduler_status option \<Rightarrow> bytes \<Rightarrow> bytes res" where
  "encode_scheduler_status status output = (case status of None \<Rightarrow> Inr output | Some s \<Rightarrow> encode_scheduler_status_item s output)"

definition encode_data_transmit_samples :: "transmit_sample list \<Rightarrow> bytes \<Rightarrow> bytes res" where
  "encode_data_transmit_samples items output = foreach encode_data_transmit_samples_item items output"

definition encode_internal_clock_sync :: "clock_sync_message list \<Rightarrow> bytes \<Rightarrow> bytes res" where
  "encode_internal_clock_sync items output = foreach encode_internal_clock_sync_item items output"

definition encode_sink_time :: "sink_time_message list \<Rightarrow> bytes \<Rightarrow> bytes res" where
  "encode_sink_time items output = foreach encode_sink_time_item items output"

definition message_count :: "control_frame \<Rightarrow> nat" where
  "message_count frame =
     length (cf_path_metadata frame)
     + length (cf_service_metadata frame)
     + length (cf_service_endpoint_assertions frame)
     + length (cf_service_disables frame)
     + length (cf_service_scheduler_policies frame)
     + length (cf_path_capacity_bps frame)
     + length (cf_path_latency_us frame)
     + length (cf_path_latency_quality frame)
     + length (cf_path_latency_stats frame)
     + length (cf_path_mtu frame)
     + length (cf_path_pressure frame)
     + (if cf_scheduler_status frame \<noteq> None then 1 else 0)
     + length (cf_data_transmit_samples frame)
     + length (cf_internal_clock_sync frame)
     + length (cf_sink_time frame)"

definition encode_control_payload :: "control_frame \<Rightarrow> bytes res" where
  "encode_control_payload frame =
     (if message_count frame = 0 then Inl (ValueError ''control payload must include at least one message'')
      else rbind
        (chain [append_u8 CONTROL_PAYLOAD_VERSION,
                append_u16 (int (message_count frame)),
                encode_path_metadata (cf_path_metadata frame),
                encode_service_metadata (cf_service_metadata frame),
                encode_service_endpoint_assertions (cf_service_endpoint_assertions frame),
                encode_service_disables (cf_service_disables frame),
                encode_service_scheduler_policies (cf_service_scheduler_policies frame),
                encode_path_capacity (cf_path_capacity_bps frame),
                encode_path_latency (cf_path_latency_us frame),
                encode_path_latency_quality (cf_path_latency_quality frame),
                encode_path_latency_stats (cf_path_latency_stats frame),
                encode_path_mtu (cf_path_mtu frame),
                encode_path_pressure (cf_path_pressure frame),
                encode_scheduler_status (cf_scheduler_status frame),
                encode_data_transmit_samples (cf_data_transmit_samples frame),
                encode_internal_clock_sync (cf_internal_clock_sync frame),
                encode_sink_time (cf_sink_time frame)] [])
        (\<lambda>output. if int (length output) > u16_max
                  then Inl (ValueError ''control payload is too large'') else Inr output))"

definition encode_control_payload_path_metadata :: "(int, ustr) dict \<Rightarrow> bytes res" where
  "encode_control_payload_path_metadata path_metadata =
     encode_control_payload (empty_frame\<lparr>cf_path_metadata := path_metadata\<rparr>)"

section \<open>Decoder\<close>

definition on_decoded :: "'a option res \<Rightarrow> ('a \<Rightarrow> control_frame) \<Rightarrow> control_frame option res" where
  "on_decoded decoded store =
     rbind decoded (\<lambda>d. case d of None \<Rightarrow> Inr None | Some x \<Rightarrow> Inr (Some (store x)))"

definition apply_message :: "int \<Rightarrow> bytes \<Rightarrow> control_frame \<Rightarrow> control_frame option res" where
  "apply_message message_type value frame =
     (if message_type = CONTROL_TYPE_PATH_METADATA then
        on_decoded (decode_path_metadata_value value)
          (\<lambda>(key, item). frame\<lparr>cf_path_metadata := dict_set key item (cf_path_metadata frame)\<rparr>)
      else if message_type = CONTROL_TYPE_SERVICE_METADATA then
        on_decoded (decode_service_metadata_value value)
          (\<lambda>(key, item). frame\<lparr>cf_service_metadata := dict_set key item (cf_service_metadata frame)\<rparr>)
      else if message_type = CONTROL_TYPE_SERVICE_ENDPOINT_ASSERTION then
        on_decoded (decode_service_endpoint_assertion_value value)
          (\<lambda>(key, item). frame\<lparr>cf_service_endpoint_assertions := dict_set key item (cf_service_endpoint_assertions frame)\<rparr>)
      else if message_type = CONTROL_TYPE_SERVICE_DISABLE then
        on_decoded (decode_service_disable_value value)
          (\<lambda>(key, item). frame\<lparr>cf_service_disables := dict_set key item (cf_service_disables frame)\<rparr>)
      else if message_type = CONTROL_TYPE_SERVICE_SCHEDULER_POLICY then
        on_decoded (decode_service_scheduler_policy_value value)
          (\<lambda>(key, item). frame\<lparr>cf_service_scheduler_policies := dict_set key item (cf_service_scheduler_policies frame)\<rparr>)
      else if message_type = CONTROL_TYPE_PATH_CAPACITY then
        on_decoded (decode_path_capacity_value value)
          (\<lambda>(key, item). frame\<lparr>cf_path_capacity_bps := dict_set key item (cf_path_capacity_bps frame)\<rparr>)
      else if message_type = CONTROL_TYPE_PATH_LATENCY then
        on_decoded (decode_path_latency_value value)
          (\<lambda>(key, item). frame\<lparr>cf_path_latency_us := dict_set key item (cf_path_latency_us frame)\<rparr>)
      else if message_type = CONTROL_TYPE_PATH_LATENCY_QUALITY then
        on_decoded (decode_path_latency_quality_value value)
          (\<lambda>(key, item). frame\<lparr>cf_path_latency_quality := dict_set key item (cf_path_latency_quality frame)\<rparr>)
      else if message_type = CONTROL_TYPE_PATH_LATENCY_STATS then
        on_decoded (decode_path_latency_stats_value value)
          (\<lambda>(key, item). frame\<lparr>cf_path_latency_stats := dict_set key item (cf_path_latency_stats frame)\<rparr>)
      else if message_type = CONTROL_TYPE_PATH_MTU then
        on_decoded (decode_path_mtu_value value)
          (\<lambda>(key, item). frame\<lparr>cf_path_mtu := dict_set key item (cf_path_mtu frame)\<rparr>)
      else if message_type = CONTROL_TYPE_PATH_PRESSURE then
        on_decoded (decode_path_pressure_value value)
          (\<lambda>(key, item). frame\<lparr>cf_path_pressure := dict_set key item (cf_path_pressure frame)\<rparr>)
      else if message_type = CONTROL_TYPE_SCHEDULER_STATUS then
        on_decoded (decode_scheduler_status_value value)
          (\<lambda>item. frame\<lparr>cf_scheduler_status := Some item\<rparr>)
      else if message_type = CONTROL_TYPE_DATA_TRANSMIT_SAMPLE then
        on_decoded (decode_data_transmit_sample_value value)
          (\<lambda>item. frame\<lparr>cf_data_transmit_samples := cf_data_transmit_samples frame @ [item]\<rparr>)
      else if message_type = CONTROL_TYPE_INTERNAL_CLOCK_SYNC then
        on_decoded (decode_internal_clock_sync_value value)
          (\<lambda>item. frame\<lparr>cf_internal_clock_sync := cf_internal_clock_sync frame @ [item]\<rparr>)
      else if message_type = CONTROL_TYPE_SINK_TIME then
        on_decoded (decode_sink_time_value value)
          (\<lambda>item. frame\<lparr>cf_sink_time := cf_sink_time frame @ [item]\<rparr>)
      else Inr (Some frame))"

fun decode_messages :: "nat \<Rightarrow> bytes \<Rightarrow> nat \<Rightarrow> control_frame \<Rightarrow> (nat \<times> control_frame) option res" where
  "decode_messages 0 payload cursor frame = Inr (Some (cursor, frame))"
| "decode_messages (Suc n) payload cursor frame =
     (if cursor + 3 > length payload then Inr None
      else rbind (idx payload cursor) (\<lambda>message_type.
        let value_len = nat (read_u16 payload (cursor + 1)); cursor = cursor + 3 in
        if cursor + value_len > length payload then Inr None
        else let value = slice payload cursor (cursor + value_len) in
          rbind (apply_message message_type value frame) (\<lambda>r.
            case r of None \<Rightarrow> Inr None
            | Some frame' \<Rightarrow> decode_messages n payload (cursor + value_len) frame')))"

definition decode_control_payload :: "bytes \<Rightarrow> control_frame option res" where
  "decode_control_payload payload =
     (if length payload < 3 then Inr None
      else rbind (idx payload 0) (\<lambda>version.
        if version \<noteq> CONTROL_PAYLOAD_VERSION then Inr None
        else rbind (decode_messages (nat (read_u16 payload 1)) payload 3 empty_frame) (\<lambda>r.
          case r of None \<Rightarrow> Inr None
          | Some (cursor, frame) \<Rightarrow>
              if cursor \<noteq> length payload then Inr None else Inr (Some frame))))"

definition decode_control_frame :: "bytes \<Rightarrow> control_frame option res" where
  "decode_control_frame payload =
     rbind (control_frame_payload payload) (\<lambda>body.
       case body of None \<Rightarrow> Inr None | Some b \<Rightarrow> decode_control_payload b)"

section \<open>The decoder loop undoes an encoder loop\<close>

text \<open>
  \<open>decodes bs k g\<close>: at any position of any payload, \<open>k\<close> iterations of the decoder loop consume
  exactly \<open>bs\<close> and change the frame by \<open>g\<close>.
\<close>

definition decodes :: "bytes \<Rightarrow> nat \<Rightarrow> (control_frame \<Rightarrow> control_frame) \<Rightarrow> bool" where
  "decodes bs k g \<longleftrightarrow>
     (\<forall>pre post n frame. decode_messages (k + n) (pre @ bs @ post) (length pre) frame
        = decode_messages n (pre @ bs @ post) (length pre + length bs) (g frame))"

lemma decodes_Nil [simp]: "decodes [] 0 (\<lambda>f. f)"
  by (simp add: decodes_def)

lemma decodes_append:
  assumes "decodes bs k g" and "decodes cs m h"
  shows "decodes (bs @ cs) (k + m) (\<lambda>f. h (g f))"
  unfolding decodes_def
proof (intro allI)
  fix pre post n frame
  have "decode_messages (k + (m + n)) (pre @ bs @ (cs @ post)) (length pre) frame
      = decode_messages (m + n) (pre @ bs @ (cs @ post)) (length pre + length bs) (g frame)"
    using assms(1) unfolding decodes_def by blast
  also have "\<dots> = decode_messages (m + n) ((pre @ bs) @ cs @ post) (length (pre @ bs)) (g frame)" by simp
  also have "\<dots> = decode_messages n ((pre @ bs) @ cs @ post) (length (pre @ bs) + length cs) (h (g frame))"
    using assms(2) unfolding decodes_def by blast
  finally show "decode_messages (k + m + n) (pre @ (bs @ cs) @ post) (length pre) frame
      = decode_messages n (pre @ (bs @ cs) @ post) (length pre + length (bs @ cs)) (h (g frame))"
    by (simp add: add.assoc)
qed

lemma decodes_message:
  assumes "0 \<le> t" "t < 256" "length v < 65536" and "\<And>f. apply_message t v f = Inr (Some (g f))"
  shows "decodes (message t v) 1 g"
  unfolding decodes_def
proof (intro allI)
  fix pre post n frame
  let ?p = "pre @ message t v @ post"
  have i: "idx ?p (length pre) = Inr t"
    using assms(1,2) by (simp add: idx_def nth_append message_def uint_byte_word_of_int)
  have l: "read_u16 ?p (Suc (length pre)) = int (length v)"
    using assms(3) by (simp add: message_def read_defs)
  have s: "slice ?p (length pre + 3) (length pre + 3 + length v) = v"
    by (simp add: message_def slice_def)
  show "decode_messages (1 + n) ?p (length pre) frame
      = decode_messages n ?p (length pre + length (message t v)) (g frame)"
    using i l s assms(4) by (simp add: Let_def add.assoc del: idx_total)
qed

locale frame_field =
  fixes get :: "control_frame \<Rightarrow> 'c"
    and put :: "'c \<Rightarrow> control_frame \<Rightarrow> control_frame"
  assumes get_put: "get (put c f) = c"
    and put_get: "put (get f) f = f"
    and put_put: "put c (put c' f) = put c f"
begin

lemma fold_put: "fold (\<lambda>x f. put (h x (get f)) f) xs f = put (fold h xs (get f)) f"
  by (induction xs arbitrary: f) (simp_all add: get_put put_get put_put)

end

locale control_message =
  wire_message tcode enc dec norm okay + frame_field get put
  for tcode :: int and enc :: "'a \<Rightarrow> bytes \<Rightarrow> bytes res" and dec :: "bytes \<Rightarrow> 'b option res"
    and norm :: "'a \<Rightarrow> 'b" and okay :: "'a \<Rightarrow> bool"
    and get :: "control_frame \<Rightarrow> 'c" and put :: "'c \<Rightarrow> control_frame \<Rightarrow> control_frame" +
  fixes add_item :: "'b \<Rightarrow> 'c \<Rightarrow> 'c"
  assumes dispatch: "apply_message tcode v f = on_decoded (dec v) (\<lambda>y. put (add_item y (get f)) f)"
begin

lemma decodes_values:
  assumes "list_all2 (\<lambda>v x. dec v = Inr (Some (norm x))) vs xs" and "\<forall>v\<in>set vs. length v < 65536"
  shows "decodes (concat (map (message tcode) vs)) (length xs)
           (fold (\<lambda>x f. put (add_item (norm x) (get f)) f) xs)"
  using assms
proof (induction vs arbitrary: xs)
  case (Cons v vs)
  then obtain x xs' where xs: "xs = x # xs'" "dec v = Inr (Some (norm x))"
      "list_all2 (\<lambda>v x. dec v = Inr (Some (norm x))) vs xs'"
    by (auto simp: list_all2_Cons1)
  let ?st = "\<lambda>x f. put (add_item (norm x) (get f)) f"
  have "decodes (message tcode v) 1 (?st x)"
    using tcode_byte Cons.prems(2) xs(2) by (intro decodes_message) (auto simp: dispatch on_decoded_def)
  then have "decodes (message tcode v @ concat (map (message tcode) vs)) (1 + length xs')
      (\<lambda>f. fold ?st xs' (?st x f))"
    using Cons.IH [OF xs(3)] Cons.prems(2) by (intro decodes_append) auto
  then show ?case using xs(1) by (simp add: comp_def)
qed (simp add: decodes_def)

lemma decodes_foreach:
  assumes "foreach enc xs out = Inr out'" and "\<forall>x\<in>set xs. okay x"
  shows "\<exists>bs. out' = out @ bs \<and>
           decodes bs (length xs) (\<lambda>f. put (fold (\<lambda>x. add_item (norm x)) xs (get f)) f)"
proof -
  obtain vs where vs: "out' = out @ concat (map (message tcode) vs)" "\<forall>v\<in>set vs. length v < 65536"
      "list_all2 (\<lambda>v x. dec v = Inr (Some (norm x))) vs xs"
    using foreach_messages [OF assms] by blast
  moreover have "fold (\<lambda>x f. put (add_item (norm x) (get f)) f) xs
      = (\<lambda>f. put (fold (\<lambda>x. add_item (norm x)) xs (get f)) f)"
    by (rule ext) (rule fold_put)
  ultimately show ?thesis using decodes_values [OF vs(3,2)] by auto
qed

end

interpretation pm_ctl: control_message CONTROL_TYPE_PATH_METADATA encode_path_metadata_item
    decode_path_metadata_value id "\<lambda>_. True"
    cf_path_metadata "\<lambda>c. cf_path_metadata_update (\<lambda>_. c)" "\<lambda>(key, item). dict_set key item"
  by unfold_locales (simp_all add: apply_message_def const_simps case_prod_unfold)

interpretation sm_ctl: control_message CONTROL_TYPE_SERVICE_METADATA encode_service_metadata_item
    decode_service_metadata_value id "\<lambda>_. True"
    cf_service_metadata "\<lambda>c. cf_service_metadata_update (\<lambda>_. c)" "\<lambda>(key, item). dict_set key item"
  by unfold_locales (simp_all add: apply_message_def const_simps case_prod_unfold)

interpretation sea_ctl: control_message CONTROL_TYPE_SERVICE_ENDPOINT_ASSERTION encode_service_endpoint_assertions_item
    decode_service_endpoint_assertion_value id "\<lambda>_. True"
    cf_service_endpoint_assertions "\<lambda>c. cf_service_endpoint_assertions_update (\<lambda>_. c)" "\<lambda>(key, item). dict_set key item"
  by unfold_locales (simp_all add: apply_message_def const_simps case_prod_unfold)

interpretation sd_ctl: control_message CONTROL_TYPE_SERVICE_DISABLE encode_service_disables_item
    decode_service_disable_value id "\<lambda>_. True"
    cf_service_disables "\<lambda>c. cf_service_disables_update (\<lambda>_. c)" "\<lambda>(key, item). dict_set key item"
  by unfold_locales (simp_all add: apply_message_def const_simps case_prod_unfold)

interpretation ssp_ctl: control_message CONTROL_TYPE_SERVICE_SCHEDULER_POLICY encode_service_scheduler_policies_item
    decode_service_scheduler_policy_value norm_policy "\<lambda>_. True"
    cf_service_scheduler_policies "\<lambda>c. cf_service_scheduler_policies_update (\<lambda>_. c)" "\<lambda>(key, item). dict_set key item"
  by unfold_locales (simp_all add: apply_message_def const_simps case_prod_unfold)

interpretation pc_ctl: control_message CONTROL_TYPE_PATH_CAPACITY encode_path_capacity_item
    decode_path_capacity_value id "\<lambda>_. True"
    cf_path_capacity_bps "\<lambda>c. cf_path_capacity_bps_update (\<lambda>_. c)" "\<lambda>(key, item). dict_set key item"
  by unfold_locales (simp_all add: apply_message_def const_simps case_prod_unfold)

interpretation pl_ctl: control_message CONTROL_TYPE_PATH_LATENCY encode_path_latency_item
    decode_path_latency_value id "\<lambda>_. True"
    cf_path_latency_us "\<lambda>c. cf_path_latency_us_update (\<lambda>_. c)" "\<lambda>(key, item). dict_set key item"
  by unfold_locales (simp_all add: apply_message_def const_simps case_prod_unfold)

interpretation plq_ctl: control_message CONTROL_TYPE_PATH_LATENCY_QUALITY encode_path_latency_quality_item
    decode_path_latency_quality_value id "\<lambda>_. True"
    cf_path_latency_quality "\<lambda>c. cf_path_latency_quality_update (\<lambda>_. c)" "\<lambda>(key, item). dict_set key item"
  by unfold_locales (simp_all add: apply_message_def const_simps case_prod_unfold)

interpretation pls_ctl: control_message CONTROL_TYPE_PATH_LATENCY_STATS encode_path_latency_stats_item
    decode_path_latency_stats_value norm_stats "\<lambda>_. True"
    cf_path_latency_stats "\<lambda>c. cf_path_latency_stats_update (\<lambda>_. c)" "\<lambda>(key, item). dict_set key item"
  by unfold_locales (simp_all add: apply_message_def const_simps case_prod_unfold)

interpretation pmtu_ctl: control_message CONTROL_TYPE_PATH_MTU encode_path_mtu_item
    decode_path_mtu_value id "\<lambda>_. True"
    cf_path_mtu "\<lambda>c. cf_path_mtu_update (\<lambda>_. c)" "\<lambda>(key, item). dict_set key item"
  by unfold_locales (simp_all add: apply_message_def const_simps case_prod_unfold)

interpretation pp_ctl: control_message CONTROL_TYPE_PATH_PRESSURE encode_path_pressure_item
    decode_path_pressure_value id "\<lambda>_. True"
    cf_path_pressure "\<lambda>c. cf_path_pressure_update (\<lambda>_. c)" "\<lambda>(key, item). dict_set key item"
  by unfold_locales (simp_all add: apply_message_def const_simps case_prod_unfold)

interpretation ss_ctl: control_message CONTROL_TYPE_SCHEDULER_STATUS encode_scheduler_status_item
    decode_scheduler_status_value id "\<lambda>_. True"
    cf_scheduler_status "\<lambda>c. cf_scheduler_status_update (\<lambda>_. c)" "\<lambda>item _. Some item"
  by unfold_locales (simp_all add: apply_message_def const_simps case_prod_unfold)

interpretation dts_ctl: control_message CONTROL_TYPE_DATA_TRANSMIT_SAMPLE encode_data_transmit_samples_item
    decode_data_transmit_sample_value id "\<lambda>_. True"
    cf_data_transmit_samples "\<lambda>c. cf_data_transmit_samples_update (\<lambda>_. c)" "\<lambda>item items. items @ [item]"
  by unfold_locales (simp_all add: apply_message_def const_simps case_prod_unfold)

interpretation ics_ctl: control_message CONTROL_TYPE_INTERNAL_CLOCK_SYNC encode_internal_clock_sync_item
    decode_internal_clock_sync_value id "clock_sync_decodable"
    cf_internal_clock_sync "\<lambda>c. cf_internal_clock_sync_update (\<lambda>_. c)" "\<lambda>item items. items @ [item]"
  by unfold_locales (simp_all add: apply_message_def const_simps case_prod_unfold)

interpretation st_ctl: control_message CONTROL_TYPE_SINK_TIME encode_sink_time_item
    decode_sink_time_value id "\<lambda>_. True"
    cf_sink_time "\<lambda>c. cf_sink_time_update (\<lambda>_. c)" "\<lambda>item items. items @ [item]"
  by unfold_locales (simp_all add: apply_message_def const_simps case_prod_unfold)

section \<open>Payload round trip\<close>

text \<open>
  What a frame becomes on the wire: a five-field scheduler policy is padded with path policy 0,
  and a latency statistic of zero is read back as absent.
\<close>

definition wire_normal :: "control_frame \<Rightarrow> control_frame" where
  "wire_normal frame =
     frame\<lparr>cf_service_scheduler_policies := map norm_policy (cf_service_scheduler_policies frame),
           cf_path_latency_stats := map norm_stats (cf_path_latency_stats frame)\<rparr>"

text \<open>Python dictionaries have one entry per key.\<close>

definition frame_dicts :: "control_frame \<Rightarrow> bool" where
  "frame_dicts frame \<longleftrightarrow>
     dict_wf (cf_path_metadata frame)
     \<and> dict_wf (cf_service_metadata frame)
     \<and> dict_wf (cf_service_endpoint_assertions frame)
     \<and> dict_wf (cf_service_disables frame)
     \<and> dict_wf (cf_service_scheduler_policies frame)
     \<and> dict_wf (cf_path_capacity_bps frame)
     \<and> dict_wf (cf_path_latency_us frame)
     \<and> dict_wf (cf_path_latency_quality frame)
     \<and> dict_wf (cf_path_latency_stats frame)
     \<and> dict_wf (cf_path_mtu frame)
     \<and> dict_wf (cf_path_pressure frame)"

definition appends :: "(bytes \<Rightarrow> bytes res) \<Rightarrow> nat \<Rightarrow> (control_frame \<Rightarrow> control_frame) \<Rightarrow> bool" where
  "appends f k g \<longleftrightarrow> (\<forall>out out'. f out = Inr out' \<longrightarrow> (\<exists>bs. out' = out @ bs \<and> decodes bs k g))"

lemma appends_chain_Nil: "appends (chain []) 0 (\<lambda>f. f)"
  by (auto simp: appends_def)

lemma appends_chain_Cons:
  assumes "appends f k g" and "appends (chain fs) m h"
  shows "appends (chain (f # fs)) (k + m) (\<lambda>x. h (g x))"
  unfolding appends_def
proof (intro allI impI)
  fix out out'
  assume "chain (f # fs) out = Inr out'"
  then obtain mid where mid: "f out = Inr mid" "chain fs mid = Inr out'"
    by (auto simp: chain_Cons rbind_eq_Inr)
  obtain b where b: "mid = out @ b" "decodes b k g" using assms(1) mid(1) by (auto simp: appends_def)
  obtain c where c: "out' = mid @ c" "decodes c m h" using assms(2) mid(2) by (auto simp: appends_def)
  show "\<exists>bs. out' = out @ bs \<and> decodes bs (k + m) (\<lambda>x. h (g x))"
    using decodes_append [OF b(2) c(2)] b(1) c(1) by auto
qed

lemma appendsD:
  assumes "appends f k g" and "f out = Inr out'" and "k = n" and "g e = r"
  shows "\<exists>bs g. out' = out @ bs \<and> decodes bs n g \<and> g e = r"
  using assms unfolding appends_def by blast

lemma fold_dict_norm:
  assumes "dict_wf xs" and "\<And>x. fst (norm x) = fst x"
  shows "fold (\<lambda>x. (\<lambda>(key, item). dict_set key item) (norm x)) xs [] = map norm xs"
proof -
  have "dict_keys (map norm xs) = dict_keys xs" using assms(2) by simp
  then have k: "dict_wf (map norm xs)" using assms(1) by (simp only:)
  have "fold (\<lambda>(key, item). dict_set key item) (map norm xs) [] = map norm xs"
    using fold_dict_set_fresh [OF k, of "[]"] by simp
  then show ?thesis by (simp add: fold_map comp_def)
qed

lemma fold_snoc: "fold (\<lambda>x ys. ys @ [x]) xs ys = ys @ xs"
  by (induction xs arbitrary: ys) simp_all

definition option_list :: "'a option \<Rightarrow> 'a list" where
  "option_list x = (case x of None \<Rightarrow> [] | Some y \<Rightarrow> [y])"

lemma encode_scheduler_status_foreach:
  "encode_scheduler_status status = foreach encode_scheduler_status_item (option_list status)"
proof
  fix out
  show "encode_scheduler_status status out = foreach encode_scheduler_status_item (option_list status) out"
    by (cases status) (auto simp: encode_scheduler_status_def option_list_def rbind_def split: sum.splits)
qed

lemma appends_path_metadata:
  "appends (encode_path_metadata items) (length items)
     (\<lambda>fr. fr\<lparr>cf_path_metadata := fold (\<lambda>x. (\<lambda>(key, item). dict_set key item) (id x)) items (cf_path_metadata fr)\<rparr>)"
  using pm_ctl.decodes_foreach [of items]
  by (simp add: appends_def encode_path_metadata_def)

lemma appends_service_metadata:
  "appends (encode_service_metadata items) (length items)
     (\<lambda>fr. fr\<lparr>cf_service_metadata := fold (\<lambda>x. (\<lambda>(key, item). dict_set key item) (id x)) items (cf_service_metadata fr)\<rparr>)"
  using sm_ctl.decodes_foreach [of items]
  by (simp add: appends_def encode_service_metadata_def)

lemma appends_service_endpoint_assertions:
  "appends (encode_service_endpoint_assertions items) (length items)
     (\<lambda>fr. fr\<lparr>cf_service_endpoint_assertions := fold (\<lambda>x. (\<lambda>(key, item). dict_set key item) (id x)) items (cf_service_endpoint_assertions fr)\<rparr>)"
  using sea_ctl.decodes_foreach [of items]
  by (simp add: appends_def encode_service_endpoint_assertions_def)

lemma appends_service_disables:
  "appends (encode_service_disables items) (length items)
     (\<lambda>fr. fr\<lparr>cf_service_disables := fold (\<lambda>x. (\<lambda>(key, item). dict_set key item) (id x)) items (cf_service_disables fr)\<rparr>)"
  using sd_ctl.decodes_foreach [of items]
  by (simp add: appends_def encode_service_disables_def)

lemma appends_service_scheduler_policies:
  "appends (encode_service_scheduler_policies items) (length items)
     (\<lambda>fr. fr\<lparr>cf_service_scheduler_policies := fold (\<lambda>x. (\<lambda>(key, item). dict_set key item) (norm_policy x)) items (cf_service_scheduler_policies fr)\<rparr>)"
  using ssp_ctl.decodes_foreach [of items]
  by (simp add: appends_def encode_service_scheduler_policies_def)

lemma appends_path_capacity:
  "appends (encode_path_capacity items) (length items)
     (\<lambda>fr. fr\<lparr>cf_path_capacity_bps := fold (\<lambda>x. (\<lambda>(key, item). dict_set key item) (id x)) items (cf_path_capacity_bps fr)\<rparr>)"
  using pc_ctl.decodes_foreach [of items]
  by (simp add: appends_def encode_path_capacity_def)

lemma appends_path_latency:
  "appends (encode_path_latency items) (length items)
     (\<lambda>fr. fr\<lparr>cf_path_latency_us := fold (\<lambda>x. (\<lambda>(key, item). dict_set key item) (id x)) items (cf_path_latency_us fr)\<rparr>)"
  using pl_ctl.decodes_foreach [of items]
  by (simp add: appends_def encode_path_latency_def)

lemma appends_path_latency_quality:
  "appends (encode_path_latency_quality items) (length items)
     (\<lambda>fr. fr\<lparr>cf_path_latency_quality := fold (\<lambda>x. (\<lambda>(key, item). dict_set key item) (id x)) items (cf_path_latency_quality fr)\<rparr>)"
  using plq_ctl.decodes_foreach [of items]
  by (simp add: appends_def encode_path_latency_quality_def)

lemma appends_path_latency_stats:
  "appends (encode_path_latency_stats items) (length items)
     (\<lambda>fr. fr\<lparr>cf_path_latency_stats := fold (\<lambda>x. (\<lambda>(key, item). dict_set key item) (norm_stats x)) items (cf_path_latency_stats fr)\<rparr>)"
  using pls_ctl.decodes_foreach [of items]
  by (simp add: appends_def encode_path_latency_stats_def)

lemma appends_path_mtu:
  "appends (encode_path_mtu items) (length items)
     (\<lambda>fr. fr\<lparr>cf_path_mtu := fold (\<lambda>x. (\<lambda>(key, item). dict_set key item) (id x)) items (cf_path_mtu fr)\<rparr>)"
  using pmtu_ctl.decodes_foreach [of items]
  by (simp add: appends_def encode_path_mtu_def)

lemma appends_path_pressure:
  "appends (encode_path_pressure items) (length items)
     (\<lambda>fr. fr\<lparr>cf_path_pressure := fold (\<lambda>x. (\<lambda>(key, item). dict_set key item) (id x)) items (cf_path_pressure fr)\<rparr>)"
  using pp_ctl.decodes_foreach [of items]
  by (simp add: appends_def encode_path_pressure_def)

lemma appends_scheduler_status:
  "appends (encode_scheduler_status status) (length (option_list status))
     (\<lambda>fr. fr\<lparr>cf_scheduler_status := fold (\<lambda>x _. Some x) (option_list status) (cf_scheduler_status fr)\<rparr>)"
  using ss_ctl.decodes_foreach [of "option_list status"]
  by (simp add: appends_def encode_scheduler_status_foreach)

lemma appends_data_transmit_samples:
  "appends (encode_data_transmit_samples items) (length items)
     (\<lambda>fr. fr\<lparr>cf_data_transmit_samples := fold (\<lambda>x ys. ys @ [x]) items (cf_data_transmit_samples fr)\<rparr>)"
  using dts_ctl.decodes_foreach [of items]
  by (simp add: appends_def encode_data_transmit_samples_def)

lemma appends_internal_clock_sync:
  "\<forall>x\<in>set items. clock_sync_decodable x \<Longrightarrow> appends (encode_internal_clock_sync items) (length items)
     (\<lambda>fr. fr\<lparr>cf_internal_clock_sync := fold (\<lambda>x ys. ys @ [x]) items (cf_internal_clock_sync fr)\<rparr>)"
  using ics_ctl.decodes_foreach [of items]
  by (simp add: appends_def encode_internal_clock_sync_def)

lemma appends_sink_time:
  "appends (encode_sink_time items) (length items)
     (\<lambda>fr. fr\<lparr>cf_sink_time := fold (\<lambda>x ys. ys @ [x]) items (cf_sink_time fr)\<rparr>)"
  using st_ctl.decodes_foreach [of items]
  by (simp add: appends_def encode_sink_time_def)

lemma fold_option_list: "fold (\<lambda>x _. Some x) (option_list status) None = status"
  by (cases status) (simp_all add: option_list_def)

lemma norm_keys: "fst (norm_policy x) = fst x" "fst (norm_stats y) = fst y" "fst (id z) = fst z"
  by (simp_all add: norm_policy_def norm_stats_def case_prod_unfold Let_def)

text \<open>The body of an encoded payload, decoded from the empty frame, is the frame up to \<open>wire_normal\<close>.\<close>

lemma encode_body_decodes:
  assumes clocks: "\<forall>m\<in>set (cf_internal_clock_sync frame). clock_sync_decodable m"
    and ch: "chain [
      encode_path_metadata (cf_path_metadata frame),
      encode_service_metadata (cf_service_metadata frame),
      encode_service_endpoint_assertions (cf_service_endpoint_assertions frame),
      encode_service_disables (cf_service_disables frame),
      encode_service_scheduler_policies (cf_service_scheduler_policies frame),
      encode_path_capacity (cf_path_capacity_bps frame),
      encode_path_latency (cf_path_latency_us frame),
      encode_path_latency_quality (cf_path_latency_quality frame),
      encode_path_latency_stats (cf_path_latency_stats frame),
      encode_path_mtu (cf_path_mtu frame),
      encode_path_pressure (cf_path_pressure frame),
      encode_scheduler_status (cf_scheduler_status frame),
      encode_data_transmit_samples (cf_data_transmit_samples frame),
      encode_internal_clock_sync (cf_internal_clock_sync frame),
      encode_sink_time (cf_sink_time frame)] out = Inr out'"
    and dicts: "frame_dicts frame"
  shows "\<exists>bs g. out' = out @ bs \<and> decodes bs (message_count frame) g \<and> g empty_frame = wire_normal frame"
proof -
  note b14 = appends_chain_Cons [OF appends_sink_time [of "cf_sink_time frame"] appends_chain_Nil]
  note b13 = appends_chain_Cons [OF appends_internal_clock_sync [OF clocks] b14]
  note b12 = appends_chain_Cons [OF appends_data_transmit_samples [of "cf_data_transmit_samples frame"] b13]
  note b11 = appends_chain_Cons [OF appends_scheduler_status [of "cf_scheduler_status frame"] b12]
  note b10 = appends_chain_Cons [OF appends_path_pressure [of "cf_path_pressure frame"] b11]
  note b9 = appends_chain_Cons [OF appends_path_mtu [of "cf_path_mtu frame"] b10]
  note b8 = appends_chain_Cons [OF appends_path_latency_stats [of "cf_path_latency_stats frame"] b9]
  note b7 = appends_chain_Cons [OF appends_path_latency_quality [of "cf_path_latency_quality frame"] b8]
  note b6 = appends_chain_Cons [OF appends_path_latency [of "cf_path_latency_us frame"] b7]
  note b5 = appends_chain_Cons [OF appends_path_capacity [of "cf_path_capacity_bps frame"] b6]
  note b4 = appends_chain_Cons [OF appends_service_scheduler_policies [of "cf_service_scheduler_policies frame"] b5]
  note b3 = appends_chain_Cons [OF appends_service_disables [of "cf_service_disables frame"] b4]
  note b2 = appends_chain_Cons [OF appends_service_endpoint_assertions [of "cf_service_endpoint_assertions frame"] b3]
  note b1 = appends_chain_Cons [OF appends_service_metadata [of "cf_service_metadata frame"] b2]
  note b0 = appends_chain_Cons [OF appends_path_metadata [of "cf_path_metadata frame"] b1]
  have count: "length (option_list (cf_scheduler_status frame)) = (if cf_scheduler_status frame \<noteq> None then 1 else 0)"
    by (simp add: option_list_def split: option.splits)
  show ?thesis
    using dicts
    by (intro appendsD [OF b0 ch])
      (simp_all add: message_count_def count frame_dicts_def empty_frame_def wire_normal_def fold_dict_norm
        norm_keys fold_snoc fold_option_list)
qed

section \<open>Properties of the payload codec\<close>

lemma encode_control_payload_decodes:
  assumes "encode_control_payload frame = Inr bs" and "frame_dicts frame"
    and "\<forall>m\<in>set (cf_internal_clock_sync frame). clock_sync_decodable m"
  shows "decode_control_payload bs = Inr (Some (wire_normal frame))"
proof -
  define n where "n = message_count frame"
  obtain body g where n: "n < 65536" and bs: "bs = 1 # be_bytes 2 (int n) @ body"
      and dec: "decodes body n g" "g empty_frame = wire_normal frame"
    using assms(1) encode_body_decodes [OF assms(3) _ assms(2), of "1 # be_bytes 2 (int n)"]
    by (auto simp: encode_control_payload_def chain_Cons [of "append_u8 x" for x]
        chain_Cons [of "append_u16 x" for x] append_u8_eq_Inr append_u16_eq_Inr rbind_eq_Inr
        const_simps n_def split: if_splits)
  have count: "nat (read_u16 bs 1) = n" using n by (simp add: bs read_defs)
  have "decode_messages (n + 0) ((1 # be_bytes 2 (int n)) @ body @ []) (length (1 # be_bytes 2 (int n))) empty_frame
      = decode_messages 0 ((1 # be_bytes 2 (int n)) @ body @ []) (length (1 # be_bytes 2 (int n)) + length body) (g empty_frame)"
    using dec(1) unfolding decodes_def by blast
  then have "decode_messages n bs 3 empty_frame = Inr (Some (length bs, wire_normal frame))"
    using dec(2) by (simp add: bs)
  then show ?thesis using count by (simp add: decode_control_payload_def bs const_simps)
qed

lemma apply_message_total: "apply_message t v frame \<noteq> Inl e"
  by (auto simp: apply_message_def on_decoded_def rbind_eq_Inl contract_simps split: option.splits if_splits)

lemma decode_messages_total: "decode_messages n payload cursor frame \<noteq> Inl e"
proof (induction n arbitrary: cursor frame)
  case (Suc n)
  then show ?case
    by (auto simp: Let_def rbind_eq_Inl apply_message_total idx_def split: option.splits if_splits)
qed simp

lemma decode_control_payload_total: "\<exists>r. decode_control_payload payload = Inr r"
proof (cases "decode_control_payload payload")
  case (Inl e)
  then show ?thesis
    by (auto simp: decode_control_payload_def rbind_eq_Inl decode_messages_total idx_def
        split: option.splits if_splits)
qed simp

end
