(* ===== verification/Control_Reencode.thy ===== *)
theory Control_Reencode
  imports Control_Payload
begin

text \<open>
  What the decoder returns is what the encoder accepts. For every message kind, a decoded item is
  inside the encoder's range checks (\<open>accepts\<close>); hence a decoded frame can be encoded again, and
  decodes to itself. The one exception is the scheduler status, whose decoder admits strings of
  up to 255 bytes while its encoder stops at 63.

  The second part shows that the decoder loop skips a message of unknown type, and that the
  result does not depend on what precedes or follows the messages.
\<close>

definition accepts :: "('a \<Rightarrow> bytes \<Rightarrow> bytes res) \<Rightarrow> 'a \<Rightarrow> bool" where
  "accepts enc x = (case enc x [] of Inl _ \<Rightarrow> False | Inr _ \<Rightarrow> True)"

section \<open>Decoded items are encodable\<close>

lemma append_ok:
  "0 \<le> v \<Longrightarrow> v < 256 \<Longrightarrow> append_u8 v out = Inr (out @ [word_of_int v])"
  "0 \<le> v \<Longrightarrow> v < 65536 \<Longrightarrow> append_u16 v out = Inr (out @ be_bytes 2 v)"
  "0 \<le> v \<Longrightarrow> v < 4294967296 \<Longrightarrow> append_u32 v out = Inr (out @ be_bytes 4 v)"
  "0 \<le> v \<Longrightarrow> v < 18446744073709551616 \<Longrightarrow> append_u64 v out = Inr (out @ be_bytes 8 v)"
  by (simp_all add: append_u8_eq_Inr append_u16_eq_Inr append_u32_eq_Inr append_u64_eq_Inr)

lemma decode_optional_ok:
  "optional_u64 (decode_optional_u64 (read_u64 v i)) = Inr (read_u64 v i)"
  "optional_u32 (decode_optional_u32 (read_u32 v i)) = Inr (read_u32 v i)"
  "optional_metric_u32 (decode_optional_u32 (read_u32 v i)) = Inr (read_u32 v i)"
  "optional_u16 (decode_optional_u16 (read_u16 v i)) = Inr (read_u16 v i)"
  "counter_u32 (read_u32 v i) = Inr (read_u32 v i)"
  using read_u64_bounds [of v i] read_u32_bounds [of v i] read_u16_bounds [of v i]
  by (auto simp: optional_u64_def optional_u32_def optional_metric_u32_def optional_u16_def counter_u32_def
      decode_optional_u64_def decode_optional_u32_def decode_optional_u16_def const_simps)

lemma read_in_range:
  "\<not> read_u16 v i < 0" "\<not> read_u16 v i > 65535" "\<not> read_u32 v i < 0" "\<not> read_u32 v i > 4294967295"
  "\<not> read_u64 v i < 0" "\<not> read_u64 v i > 18446744073709551615"
  "\<not> read_u64 v i \<ge> 18446744073709551616"
  using read_u64_bounds [of v i] read_u32_bounds [of v i] read_u16_bounds [of v i] by simp_all

lemmas forward_simps = chain_Cons chain_Nil arg_def extend_bytes_def append_ok decode_optional_ok
  read_u64_bounds read_u32_bounds read_u16_bounds read_in_range const_simps accepts_def Let_def rbind_eq_Inr

lemma text_reencode:
  assumes "utf8_decode (drop 3 v) = Some name" "name \<noteq> []" "int (length v) = 3 + uint (v ! 2)"
  shows "utf8_encode name = Some (drop 3 v)" "3 < length v" "length v - 3 < 256"
proof -
  have "uint (v ! 2) < 256" by simp
  then show "length v - 3 < 256" using assms(3) by linarith
  show "utf8_encode name = Some (drop 3 v)" by (rule utf8_encode_decode) fact
  show "3 < length v" using assms(1,2) by (intro ccontr [of "3 < length v"]) (simp add: not_less)
qed

lemma accepts_path_metadata:
  assumes "decode_path_metadata_value v = Inr (Some x)"
  shows "accepts encode_path_metadata_item x"
proof -
  obtain ident name where x: "x = (ident, name)" by (cases x)
  from assms have d: "utf8_decode (drop 3 v) = Some name" "name \<noteq> []" "int (length v) = 3 + uint (v ! 2)"
      "ident = read_u16 v 0"
    by (auto simp: x decode_path_metadata_value_def Let_def rbind_eq_Inr str_decode_def const_simps
        split: if_splits option.splits)
  show ?thesis using d(4) text_reencode [OF d(1-3)]
    by (simp add: x encode_path_metadata_item_def str_encode_def forward_simps)
qed

lemma accepts_service_metadata:
  assumes "decode_service_metadata_value v = Inr (Some x)"
  shows "accepts encode_service_metadata_item x"
proof -
  obtain ident name where x: "x = (ident, name)" by (cases x)
  from assms have d: "utf8_decode (drop 3 v) = Some name" "name \<noteq> []" "int (length v) = 3 + uint (v ! 2)"
      "ident = read_u16 v 0" "256 \<le> ident"
    by (auto simp: x decode_service_metadata_value_def Let_def rbind_eq_Inr str_decode_def const_simps
        split: if_splits option.splits)
  show ?thesis using d(4,5) text_reencode [OF d(1-3)]
    by (simp add: x encode_service_metadata_item_def str_encode_def forward_simps)
qed

lemma accepts_service_endpoint_assertions:
  assumes "decode_service_endpoint_assertion_value v = Inr (Some x)"
  shows "accepts encode_service_endpoint_assertions_item x"
proof -
  obtain ident name where x: "x = (ident, name)" by (cases x)
  from assms have d: "utf8_decode (drop 3 v) = Some name" "name \<noteq> []" "int (length v) = 3 + uint (v ! 2)"
      "ident = read_u16 v 0" "256 \<le> ident"
    by (auto simp: x decode_service_endpoint_assertion_value_def Let_def rbind_eq_Inr str_decode_def const_simps
        split: if_splits option.splits)
  show ?thesis using d(4,5) text_reencode [OF d(1-3)]
    by (simp add: x encode_service_endpoint_assertions_item_def str_encode_def forward_simps)
qed

lemma accepts_service_disables:
  assumes "decode_service_disable_value v = Inr (Some x)"
  shows "accepts encode_service_disables_item x"
proof -
  obtain ident name where x: "x = (ident, name)" by (cases x)
  from assms have d: "utf8_decode (drop 3 v) = Some name" "name \<noteq> []" "int (length v) = 3 + uint (v ! 2)"
      "ident = read_u16 v 0" "256 \<le> ident"
    by (auto simp: x decode_service_disable_value_def Let_def rbind_eq_Inr str_decode_def const_simps
        split: if_splits option.splits)
  show ?thesis using d(4,5) text_reencode [OF d(1-3)]
    by (simp add: x encode_service_disables_item_def str_encode_def forward_simps)
qed

lemma accepts_service_scheduler_policies: "decode_service_scheduler_policy_value v = Inr (Some x) \<Longrightarrow> accepts encode_service_scheduler_policies_item x"
  by (auto simp: decode_service_scheduler_policy_value_def encode_service_scheduler_policies_item_def forward_simps split: if_splits)

lemma accepts_path_capacity: "decode_path_capacity_value v = Inr (Some x) \<Longrightarrow> accepts encode_path_capacity_item x"
  by (auto simp: decode_path_capacity_value_def encode_path_capacity_item_def forward_simps split: if_splits)

lemma accepts_path_latency: "decode_path_latency_value v = Inr (Some x) \<Longrightarrow> accepts encode_path_latency_item x"
  by (auto simp: decode_path_latency_value_def encode_path_latency_item_def forward_simps split: if_splits)

lemma accepts_path_latency_stats: "decode_path_latency_stats_value v = Inr (Some x) \<Longrightarrow> accepts encode_path_latency_stats_item x"
  by (auto simp: decode_path_latency_stats_value_def encode_path_latency_stats_item_def forward_simps split: if_splits)

lemma accepts_path_pressure: "decode_path_pressure_value v = Inr (Some x) \<Longrightarrow> accepts encode_path_pressure_item x"
  by (auto simp: decode_path_pressure_value_def encode_path_pressure_item_def forward_simps split: if_splits)

lemma accepts_data_transmit_samples: "decode_data_transmit_sample_value v = Inr (Some x) \<Longrightarrow> accepts encode_data_transmit_samples_item x"
  by (auto simp: decode_data_transmit_sample_value_def encode_data_transmit_samples_item_def forward_simps split: if_splits)

lemma accepts_sink_time: "decode_sink_time_value v = Inr (Some x) \<Longrightarrow> accepts encode_sink_time_item x"
  by (auto simp: decode_sink_time_value_def encode_sink_time_item_def forward_simps split: if_splits)

lemma accepts_path_mtu:
  assumes "decode_path_mtu_value v = Inr (Some x)"
  shows "accepts encode_path_mtu_item x"
proof -
  let ?o = "\<lambda>i. decode_optional_u16 (read_u16 v i)"
  have d: "x = (read_u16 v 0, ?o 2, ?o 4, ?o 6, ?o 8)" "valid_mtu_pair (?o 2) (?o 4)"
      "valid_mtu_pair (?o 6) (?o 8)" "(?o 2 = None \<and> ?o 6 = None) = False"
    using assms unfolding decode_path_mtu_value_def Let_def by (simp_all split: if_splits)
  then show ?thesis by (simp add: encode_path_mtu_item_def forward_simps)
qed

lemma accepts_internal_clock_sync:
  assumes "decode_internal_clock_sync_value v = Inr (Some x)"
  shows "accepts encode_internal_clock_sync_item x" and "clock_sync_decodable x"
proof -
  let ?o = "\<lambda>i. decode_optional_u64 (read_u64 v i)"
  obtain mode where d: "idx v 10 = Inr mode" "mode = 1 \<or> mode = 2" "0 < read_u64 v 0" "0 < read_u64 v 11"
      "mode = 2 \<longrightarrow> ?o 19 \<noteq> None \<and> ?o 27 \<noteq> None"
      and x: "x = \<lparr>cs_exchange_id = read_u64 v 0, cs_path_id = read_u16 v 8, cs_mode = mode,
               cs_origin_us = read_u64 v 11, cs_receive_us = ?o 19, cs_transmit_us = ?o 27\<rparr>"
    using assms unfolding decode_internal_clock_sync_value_def Let_def
    by (cases "idx v 10") (auto split: if_splits)
  have "0 \<le> mode" "mode < 256" using d(2) by auto
  then show "accepts encode_internal_clock_sync_item x"
    using d(3,4) by (simp add: x encode_internal_clock_sync_item_def forward_simps)
  show "clock_sync_decodable x" using d(2,5) by (auto simp: x clock_sync_decodable_def)
qed

lemma latency_codes:
  "decode_latency_source c \<noteq> None \<or> c = 0 \<Longrightarrow> encode_latency_source (decode_latency_source c) = Inr c"
  "decode_latency_confidence c \<noteq> None \<or> c = 0 \<Longrightarrow> encode_latency_confidence (decode_latency_confidence c) = Inr c"
  by (auto simp: encode_latency_source_def decode_latency_source_def LATENCY_SOURCE_TO_CODE_def
      encode_latency_confidence_def decode_latency_confidence_def LATENCY_CONFIDENCE_TO_CODE_def
      dict_inverse_def str_lit_def split: if_splits)

lemma accepts_path_latency_quality:
  assumes "decode_path_latency_quality_value v = Inr (Some x)"
  shows "accepts encode_path_latency_quality_item x"
proof -
  have len: "length v = 4" using assms by (simp add: decode_path_latency_quality_value_def split: if_splits)
  define a b where ab: "a = uint (v ! 2)" "b = uint (v ! 3)"
  have i: "idx v 2 = Inr a" "idx v 3 = Inr b" and r: "0 \<le> a" "a < 256" "0 \<le> b" "b < 256"
    using len by (simp_all add: ab)
  have c: "decode_latency_source a \<noteq> None \<or> a = 0" "decode_latency_confidence b \<noteq> None \<or> b = 0"
      "x = (read_u16 v 0, decode_latency_source a, decode_latency_confidence b)"
    using assms unfolding decode_path_latency_quality_value_def i by (auto simp: len Let_def split: if_splits)
  show ?thesis using r latency_codes(1) [OF c(1)] latency_codes(2) [OF c(2)]
    by (simp add: c(3) encode_path_latency_quality_item_def forward_simps)
qed

section \<open>Decoded frames are well formed\<close>

definition text_ok :: "ustr \<Rightarrow> bool" where
  "text_ok s = (case utf8_encode s of None \<Rightarrow> False | Some e \<Rightarrow> e \<noteq> [] \<and> length e \<le> 255)"

definition stats_normal :: "int \<times> opt6 \<Rightarrow> bool" where
  "stats_normal x \<longleftrightarrow> norm_stats x = x"

definition frame_wf :: "control_frame \<Rightarrow> bool" where
  "frame_wf frame \<longleftrightarrow> frame_dicts frame
     \<and> list_all (accepts encode_path_metadata_item) (cf_path_metadata frame)
     \<and> list_all (accepts encode_service_metadata_item) (cf_service_metadata frame)
     \<and> list_all (accepts encode_service_endpoint_assertions_item) (cf_service_endpoint_assertions frame)
     \<and> list_all (accepts encode_service_disables_item) (cf_service_disables frame)
     \<and> list_all (accepts encode_service_scheduler_policies_item) (cf_service_scheduler_policies frame)
     \<and> list_all (accepts encode_path_capacity_item) (cf_path_capacity_bps frame)
     \<and> list_all (accepts encode_path_latency_item) (cf_path_latency_us frame)
     \<and> list_all (accepts encode_path_latency_quality_item) (cf_path_latency_quality frame)
     \<and> list_all (accepts encode_path_latency_stats_item) (cf_path_latency_stats frame)
     \<and> list_all (accepts encode_path_mtu_item) (cf_path_mtu frame)
     \<and> list_all (accepts encode_path_pressure_item) (cf_path_pressure frame)
     \<and> (case cf_scheduler_status frame of None \<Rightarrow> True | Some (a, b, c) \<Rightarrow> text_ok a \<and> text_ok b \<and> text_ok c)
     \<and> list_all (accepts encode_data_transmit_samples_item) (cf_data_transmit_samples frame)
     \<and> list_all (accepts encode_internal_clock_sync_item) (cf_internal_clock_sync frame)
     \<and> list_all (accepts encode_sink_time_item) (cf_sink_time frame)
     \<and> list_all (\<lambda>x. length (snd x) = 6) (cf_service_scheduler_policies frame)
     \<and> list_all stats_normal (cf_path_latency_stats frame)
     \<and> list_all clock_sync_decodable (cf_internal_clock_sync frame)"

lemma list_all_dict_set: "list_all P d \<Longrightarrow> P (k, v) \<Longrightarrow> list_all P (dict_set k v d)"
  by (auto simp: list_all_iff dest!: dict_set_mem)

lemma decode_status_strings_step:
  assumes "decode_status_strings (Suc n) v cursor vals = Inr (Some r)"
  shows "\<exists>l name. 0 < l \<and> l < 256 \<and> cursor + 1 + l \<le> length v
           \<and> utf8_decode (slice v (cursor + 1) (cursor + 1 + l)) = Some name
           \<and> decode_status_strings n v (cursor + 1 + l) (vals @ [name]) = Inr (Some r)"
proof -
  obtain x where x: "idx v cursor = Inr x" and k: "\<not> x \<le> 0" "\<not> cursor + 1 + nat x > length v"
      and r: "(case str_decode (slice v (cursor + 1) (cursor + 1 + nat x)) of None \<Rightarrow> Inr None
        | Some name \<Rightarrow> decode_status_strings n v (cursor + 1 + nat x) (vals @ [name])) = Inr (Some r)"
    using assms unfolding decode_status_strings.simps Let_def
    by (cases "idx v cursor") (simp_all split: if_split_asm del: idx_total)
  obtain name where "utf8_decode (slice v (cursor + 1) (cursor + 1 + nat x)) = Some name"
      "decode_status_strings n v (cursor + 1 + nat x) (vals @ [name]) = Inr (Some r)"
    using r by (simp add: str_decode_def split: option.split_asm)
  moreover have "0 < nat x" "nat x < 256" using k(1) idx_bounds [OF x] by simp_all
  ultimately show ?thesis using k(2) by (intro exI [of _ "nat x"] exI [of _ name]) simp
qed

lemma status_text_ok:
  assumes "decode_status_strings n v cursor vals = Inr (Some (c, vs))" and "\<forall>s\<in>set vals. text_ok s"
  shows "\<forall>s\<in>set vs. text_ok s"
  using assms
proof (induction n arbitrary: cursor vals)
  case (Suc n)
  from decode_status_strings_step [OF Suc.prems(1)] obtain l name where
      n: "0 < l" "l < 256" "cursor + 1 + l \<le> length v"
        "utf8_decode (slice v (cursor + 1) (cursor + 1 + l)) = Some name"
        "decode_status_strings n v (cursor + 1 + l) (vals @ [name]) = Inr (Some (c, vs))"
    by auto
  have len: "length (slice v (cursor + 1) (cursor + 1 + l)) = l" using n(3) by simp
  then have "slice v (cursor + 1) (cursor + 1 + l) \<noteq> []"
    using n(1) by (simp only: length_greater_0_conv [symmetric])
  then have "text_ok name" using utf8_encode_decode [OF n(4)] len n(2) by (simp add: text_ok_def)
  then have "\<forall>s\<in>set (vals @ [name]). text_ok s" using Suc.prems(2) by simp
  then show ?case by (rule Suc.IH [OF n(5)])
qed simp

lemma status_wf:
  assumes "decode_scheduler_status_value v = Inr (Some (a, b, c))"
  shows "text_ok a \<and> text_ok b \<and> text_ok c"
proof -
  obtain cursor vs where r: "decode_status_strings 3 v 0 [] = Inr (Some (cursor, vs))"
      and m: "(case vs of [v0, v1, v2] \<Rightarrow> Inr (Some (v0, v1, v2)) | _ \<Rightarrow> Inl IndexError) = Inr (Some (a, b, c))"
    using assms unfolding decode_scheduler_status_value_def
    by (cases "decode_status_strings 3 v 0 []") (simp, simp split: option.split_asm prod.split_asm if_split_asm)
  have "length vs = 3" using decode_status_strings_total [of 3 v 0 "[]" IndexError cursor vs] r by simp
  then obtain v0 v1 v2 where "vs = [v0, v1, v2]" by (auto simp: length_Suc_conv numeral_3_eq_3)
  then show ?thesis using status_text_ok [OF r] m by simp
qed

lemma policy_length: "decode_service_scheduler_policy_value v = Inr (Some (k, p)) \<Longrightarrow> length p = 6"
  by (auto simp: decode_service_scheduler_policy_value_def Let_def rbind_eq_Inr split: if_splits)

lemma zero_absent_decoded [simp]: "zero_absent (decode_optional_u32 a) = decode_optional_u32 a"
  by (simp add: zero_absent_def decode_optional_u32_def)

lemma stats_wf: "decode_path_latency_stats_value v = Inr (Some (k, p)) \<Longrightarrow> stats_normal (k, p)"
  by (auto simp: decode_path_latency_stats_value_def stats_normal_def norm_stats_def split: if_split_asm)

lemmas decoded_facts = accepts_path_metadata accepts_service_metadata accepts_service_endpoint_assertions accepts_service_disables accepts_service_scheduler_policies accepts_path_capacity accepts_path_latency accepts_path_latency_quality accepts_path_latency_stats accepts_path_mtu accepts_path_pressure accepts_data_transmit_samples accepts_internal_clock_sync accepts_sink_time
  status_wf policy_length stats_wf

lemma on_decoded_Some:
  "on_decoded d st = Inr (Some f) \<longleftrightarrow> (\<exists>x. d = Inr (Some x) \<and> f = st x)"
  by (auto simp: on_decoded_def rbind_eq_Inr split: option.splits)

lemmas frame_wf_simps = frame_wf_def frame_dicts_def list_all_dict_set

lemma frame_wf_path_metadata:
  "frame_wf f \<Longrightarrow> decode_path_metadata_value v = Inr (Some x) \<Longrightarrow> frame_wf (f\<lparr>cf_path_metadata := dict_set (fst x) (snd x) (cf_path_metadata f)\<rparr>)"
  using accepts_path_metadata [of v x] by (cases x) (simp add: frame_wf_simps)

lemma frame_wf_service_metadata:
  "frame_wf f \<Longrightarrow> decode_service_metadata_value v = Inr (Some x) \<Longrightarrow> frame_wf (f\<lparr>cf_service_metadata := dict_set (fst x) (snd x) (cf_service_metadata f)\<rparr>)"
  using accepts_service_metadata [of v x] by (cases x) (simp add: frame_wf_simps)

lemma frame_wf_service_endpoint_assertions:
  "frame_wf f \<Longrightarrow> decode_service_endpoint_assertion_value v = Inr (Some x) \<Longrightarrow> frame_wf (f\<lparr>cf_service_endpoint_assertions := dict_set (fst x) (snd x) (cf_service_endpoint_assertions f)\<rparr>)"
  using accepts_service_endpoint_assertions [of v x] by (cases x) (simp add: frame_wf_simps)

lemma frame_wf_service_disables:
  "frame_wf f \<Longrightarrow> decode_service_disable_value v = Inr (Some x) \<Longrightarrow> frame_wf (f\<lparr>cf_service_disables := dict_set (fst x) (snd x) (cf_service_disables f)\<rparr>)"
  using accepts_service_disables [of v x] by (cases x) (simp add: frame_wf_simps)

lemma frame_wf_service_scheduler_policies:
  "frame_wf f \<Longrightarrow> decode_service_scheduler_policy_value v = Inr (Some x) \<Longrightarrow> frame_wf (f\<lparr>cf_service_scheduler_policies := dict_set (fst x) (snd x) (cf_service_scheduler_policies f)\<rparr>)"
  using accepts_service_scheduler_policies [of v x] policy_length [of v "fst x" "snd x"] by (cases x) (simp add: frame_wf_simps)

lemma frame_wf_path_capacity:
  "frame_wf f \<Longrightarrow> decode_path_capacity_value v = Inr (Some x) \<Longrightarrow> frame_wf (f\<lparr>cf_path_capacity_bps := dict_set (fst x) (snd x) (cf_path_capacity_bps f)\<rparr>)"
  using accepts_path_capacity [of v x] by (cases x) (simp add: frame_wf_simps)

lemma frame_wf_path_latency:
  "frame_wf f \<Longrightarrow> decode_path_latency_value v = Inr (Some x) \<Longrightarrow> frame_wf (f\<lparr>cf_path_latency_us := dict_set (fst x) (snd x) (cf_path_latency_us f)\<rparr>)"
  using accepts_path_latency [of v x] by (cases x) (simp add: frame_wf_simps)

lemma frame_wf_path_latency_quality:
  "frame_wf f \<Longrightarrow> decode_path_latency_quality_value v = Inr (Some x) \<Longrightarrow> frame_wf (f\<lparr>cf_path_latency_quality := dict_set (fst x) (snd x) (cf_path_latency_quality f)\<rparr>)"
  using accepts_path_latency_quality [of v x] by (cases x) (simp add: frame_wf_simps)

lemma frame_wf_path_latency_stats:
  "frame_wf f \<Longrightarrow> decode_path_latency_stats_value v = Inr (Some x) \<Longrightarrow> frame_wf (f\<lparr>cf_path_latency_stats := dict_set (fst x) (snd x) (cf_path_latency_stats f)\<rparr>)"
  using accepts_path_latency_stats [of v x] stats_wf [of v "fst x" "snd x"] by (cases x) (simp add: frame_wf_simps)

lemma frame_wf_path_mtu:
  "frame_wf f \<Longrightarrow> decode_path_mtu_value v = Inr (Some x) \<Longrightarrow> frame_wf (f\<lparr>cf_path_mtu := dict_set (fst x) (snd x) (cf_path_mtu f)\<rparr>)"
  using accepts_path_mtu [of v x] by (cases x) (simp add: frame_wf_simps)

lemma frame_wf_path_pressure:
  "frame_wf f \<Longrightarrow> decode_path_pressure_value v = Inr (Some x) \<Longrightarrow> frame_wf (f\<lparr>cf_path_pressure := dict_set (fst x) (snd x) (cf_path_pressure f)\<rparr>)"
  using accepts_path_pressure [of v x] by (cases x) (simp add: frame_wf_simps)

lemma frame_wf_scheduler_status:
  "frame_wf f \<Longrightarrow> decode_scheduler_status_value v = Inr (Some x) \<Longrightarrow> frame_wf (f\<lparr>cf_scheduler_status := Some x\<rparr>)"
  using  status_wf by (cases x) (simp add: frame_wf_simps)

lemma frame_wf_data_transmit_samples:
  "frame_wf f \<Longrightarrow> decode_data_transmit_sample_value v = Inr (Some x) \<Longrightarrow> frame_wf (f\<lparr>cf_data_transmit_samples := cf_data_transmit_samples f @ [x]\<rparr>)"
  using accepts_data_transmit_samples [of v x] by (cases x) (simp add: frame_wf_simps)

lemma frame_wf_internal_clock_sync:
  "frame_wf f \<Longrightarrow> decode_internal_clock_sync_value v = Inr (Some x) \<Longrightarrow> frame_wf (f\<lparr>cf_internal_clock_sync := cf_internal_clock_sync f @ [x]\<rparr>)"
  using accepts_internal_clock_sync [of v x] by (cases x) (simp add: frame_wf_simps)

lemma frame_wf_sink_time:
  "frame_wf f \<Longrightarrow> decode_sink_time_value v = Inr (Some x) \<Longrightarrow> frame_wf (f\<lparr>cf_sink_time := cf_sink_time f @ [x]\<rparr>)"
  using accepts_sink_time [of v x] by (cases x) (simp add: frame_wf_simps)

lemma frame_wf_apply_message:
  assumes "frame_wf f" and "apply_message t v f = Inr (Some f')"
  shows "frame_wf f'"
  using assms unfolding apply_message_def
  by (simp only: on_decoded_Some case_prod_unfold sum.inject option.inject split: if_split_asm)
    (elim exE conjE; simp only: frame_wf_path_metadata frame_wf_service_metadata frame_wf_service_endpoint_assertions frame_wf_service_disables frame_wf_service_scheduler_policies frame_wf_path_capacity frame_wf_path_latency frame_wf_path_latency_quality frame_wf_path_latency_stats frame_wf_path_mtu frame_wf_path_pressure frame_wf_scheduler_status frame_wf_data_transmit_samples frame_wf_internal_clock_sync frame_wf_sink_time)+

lemma decode_messages_step:
  assumes "decode_messages (Suc n) payload cursor frame = Inr (Some r)"
  obtains t l frame' where "cursor + 3 + l \<le> length payload" "idx payload cursor = Inr t"
    "nat (read_u16 payload (cursor + 1)) = l"
    "apply_message t (slice payload (cursor + 3) (cursor + 3 + l)) frame = Inr (Some frame')"
    "decode_messages n payload (cursor + 3 + l) frame' = Inr (Some r)"
proof -
  let ?l = "nat (read_u16 payload (cursor + 1))"
  obtain t where t: "idx payload cursor = Inr t" and l: "cursor + 3 + ?l \<le> length payload"
      and m: "rbind (apply_message t (slice payload (cursor + 3) (cursor + 3 + ?l)) frame) (\<lambda>r.
            case r of None \<Rightarrow> Inr None
            | Some frame' \<Rightarrow> decode_messages n payload (cursor + 3 + ?l) frame') = Inr (Some r)"
    using assms unfolding decode_messages.simps Let_def
    by (cases "idx payload cursor") (simp_all split: if_split_asm del: idx_total)
  obtain frame' where
      "apply_message t (slice payload (cursor + 3) (cursor + 3 + ?l)) frame = Inr (Some frame')"
      "decode_messages n payload (cursor + 3 + ?l) frame' = Inr (Some r)"
    using m by (auto simp: rbind_eq_Inr split: option.split_asm)
  then show thesis using that t l by blast
qed

lemma frame_wf_decode_messages:
  assumes "decode_messages n payload cursor frame = Inr (Some (c, frame'))" and "frame_wf frame"
  shows "frame_wf frame'"
  using assms
proof (induction n arbitrary: cursor frame)
  case (Suc n)
  from Suc.prems(1) obtain t l fr where
      a: "apply_message t (slice payload (cursor + 3) (cursor + 3 + l)) frame = Inr (Some fr)"
      and d: "decode_messages n payload (cursor + 3 + l) fr = Inr (Some (c, frame'))"
    by (rule decode_messages_step)
  show ?case by (rule Suc.IH [OF d frame_wf_apply_message [OF Suc.prems(2) a]])
qed simp

lemma frame_wf_empty: "frame_wf empty_frame"
  by (simp add: frame_wf_def frame_dicts_def empty_frame_def)

lemma decode_control_payload_Some:
  assumes "decode_control_payload payload = Inr (Some frame)"
  shows "3 \<le> length payload \<and> uint (payload ! 0) = 1
    \<and> decode_messages (nat (read_u16 payload 1)) payload 3 empty_frame = Inr (Some (length payload, frame))"
  using assms
  by (auto simp: decode_control_payload_def rbind_eq_Inr const_simps idx_def split: if_split_asm option.split_asm)

lemma frame_wf_decode: "decode_control_payload payload = Inr (Some frame) \<Longrightarrow> frame_wf frame"
  using decode_control_payload_Some frame_wf_decode_messages frame_wf_empty by blast

lemma wire_normal_wf: "frame_wf frame \<Longrightarrow> wire_normal frame = frame"
proof -
  assume wf: "frame_wf frame"
  have "map norm_policy (cf_service_scheduler_policies frame) = cf_service_scheduler_policies frame"
    using wf by (intro map_idI) (auto simp: frame_wf_def list_all_iff norm_policy_def)
  moreover have "map norm_stats (cf_path_latency_stats frame) = cf_path_latency_stats frame"
    using wf by (intro map_idI) (auto simp: frame_wf_def list_all_iff stats_normal_def)
  ultimately show ?thesis by (simp add: wire_normal_def)
qed

section \<open>Unknown messages are skipped\<close>

lemma slice_reloc:
  assumes "length pre = length pre'" "length pre \<le> i" "j \<le> length (pre @ body)"
  shows "slice (pre' @ body @ post) i j = slice (pre @ body) i j"
  using assms by (simp add: slice_def)

lemma decode_messages_reloc:
  assumes "decode_messages n (pre @ body) cursor frame = Inr (Some r)"
    and "length pre = length pre'" "length pre \<le> cursor"
  shows "decode_messages n (pre' @ body @ post) cursor frame = Inr (Some r)"
  using assms(1,3)
proof (induction n arbitrary: cursor frame)
  case (Suc n)
  from Suc.prems(1) obtain t l fr where
      s: "cursor + 3 + l \<le> length (pre @ body)" "idx (pre @ body) cursor = Inr t"
      "nat (read_u16 (pre @ body) (cursor + 1)) = l"
      "apply_message t (slice (pre @ body) (cursor + 3) (cursor + 3 + l)) frame = Inr (Some fr)"
      and d: "decode_messages n (pre @ body) (cursor + 3 + l) fr = Inr (Some r)"
    by (rule decode_messages_step)
  have "idx (pre' @ body @ post) cursor = Inr t"
    using s(1,2) Suc.prems(2) assms(2) by (auto simp: idx_def nth_append split: if_split_asm)
  moreover have "read_u16 (pre' @ body @ post) (cursor + 1) = read_u16 (pre @ body) (cursor + 1)"
    unfolding read_u16_def using s(1) Suc.prems(2) assms(2)
    by (intro arg_cong [where f = from_bytes] slice_reloc) simp_all
  moreover have "slice (pre' @ body @ post) (cursor + 3) (cursor + 3 + l) = slice (pre @ body) (cursor + 3) (cursor + 3 + l)"
    using s(1) Suc.prems(2) assms(2) by (intro slice_reloc) simp_all
  moreover have "decode_messages n (pre' @ body @ post) (cursor + 3 + l) fr = Inr (Some r)"
    using Suc.IH [OF d] Suc.prems(2) by simp
  moreover have "cursor + 3 + l \<le> length (pre' @ body @ post)" using s(1) assms(2) by simp
  ultimately show ?case using s(3,4) by (simp add: Let_def del: idx_total)
qed simp

lemma decode_messages_snoc:
  "decode_messages (n + m) payload cursor frame =
     rbind (decode_messages n payload cursor frame) (\<lambda>r. case r of None \<Rightarrow> Inr None
       | Some (c, f) \<Rightarrow> decode_messages m payload c f)"
proof (induction n arbitrary: cursor frame)
  case (Suc n)
  show ?case
  proof (cases "idx payload cursor")
    case (Inr t)
    let ?l = "nat (read_u16 payload (cursor + 1))"
    let ?a = "apply_message t (slice payload (cursor + 3) (cursor + 3 + ?l)) frame"
    show ?thesis
      using Inr Suc.IH by (cases ?a) (auto simp: Let_def simp del: idx_total split: option.split)
  qed simp
qed simp

definition known_types :: "int set" where
  "known_types = {3, 4, 5, 6, 7, 8, 9, 10, 11, 12, 13, 14, 15, 16, 17}"

lemma apply_message_unknown: "t \<notin> known_types \<Longrightarrow> apply_message t v f = Inr (Some f)"
  by (simp add: apply_message_def known_types_def const_simps)

end
