(* ===== verification/Base64.thy ===== *)
theory Base64
  imports Utf8
begin

text \<open>
  Python's \<^verbatim>\<open>base64.b64encode\<close> and \<^verbatim>\<open>base64.b64decode\<close> (default, non-validating mode), through
  which identities and keys are stored as text. The decoder is the state machine of
  \<^verbatim>\<open>binascii.a2b_base64\<close>: characters outside the alphabet are skipped, a padding sign ends the input
  once it completes a quantum, and leftover bits are an error.
\<close>

definition b64_char :: "nat \<Rightarrow> nat" where
  "b64_char i =
     (if i < 26 then 65 + i else if i < 52 then 71 + i else if i < 62 then i - 4
      else if i = 62 then 43 else 47)"

definition b64_value :: "nat \<Rightarrow> nat option" where
  "b64_value c =
     (if 65 \<le> c \<and> c \<le> 90 then Some (c - 65)
      else if 97 \<le> c \<and> c \<le> 122 then Some (c - 71)
      else if 48 \<le> c \<and> c \<le> 57 then Some (c + 4)
      else if c = 43 then Some 62 else if c = 47 then Some 63 else None)"

fun b64encode :: "bytes \<Rightarrow> ustr" where
  "b64encode (a # b # c # rest) =
     b64_char (unat a div 4) # b64_char (unat a mod 4 * 16 + unat b div 16)
     # b64_char (unat b mod 16 * 4 + unat c div 64) # b64_char (unat c mod 64) # b64encode rest"
| "b64encode [a, b] =
     [b64_char (unat a div 4), b64_char (unat a mod 4 * 16 + unat b div 16), b64_char (unat b mod 16 * 4), 61]"
| "b64encode [a] = [b64_char (unat a div 4), b64_char (unat a mod 4 * 16), 61, 61]"
| "b64encode [] = []"

definition b64_error :: py_error where
  "b64_error = ValueError ''Incorrect padding''"

fun a2b_base64 :: "ustr \<Rightarrow> nat \<Rightarrow> nat \<Rightarrow> nat \<Rightarrow> bytes \<Rightarrow> bytes res" where
  "a2b_base64 [] quad_pos leftchar pads out = (if quad_pos = 0 then Inr out else Inl b64_error)"
| "a2b_base64 (ch # cs) quad_pos leftchar pads out =
     (if ch = 61 then
        (if quad_pos \<ge> 2 \<and> quad_pos + (pads + 1) \<ge> 4 then Inr out
         else a2b_base64 cs quad_pos leftchar (if quad_pos \<ge> 2 then pads + 1 else pads) out)
      else case b64_value ch of
        None \<Rightarrow> a2b_base64 cs quad_pos leftchar pads out
      | Some v \<Rightarrow>
          if quad_pos = 0 then a2b_base64 cs 1 v 0 out
          else if quad_pos = 1 then a2b_base64 cs 2 (v mod 16) 0 (out @ [byte_of (leftchar * 4 + v div 16)])
          else if quad_pos = 2 then a2b_base64 cs 3 (v mod 4) 0 (out @ [byte_of (leftchar * 16 + v div 4)])
          else a2b_base64 cs 0 0 0 (out @ [byte_of (leftchar * 64 + v)]))"

definition b64decode :: "ustr \<Rightarrow> bytes res" where
  "b64decode s =
     (if \<exists>c\<in>set s. c \<ge> 128
      then Inl (ValueError ''string argument should contain only ASCII characters'')
      else a2b_base64 s 0 0 0 [])"

section \<open>Round trip\<close>

lemma b64_char_facts:
  assumes "i < 64"
  shows "b64_value (b64_char i) = Some i" "b64_char i \<noteq> 61" "b64_char i < 128"
  using assms by (auto simp: b64_value_def b64_char_def)

lemma unat_byte_lt [simp]: "unat (b :: byte) < 256"
  using unsigned_less [where 'a = nat, of b] by simp

lemma byte_parts:
  fixes a b c :: byte
  shows "unat a div 4 < 64" "unat a mod 4 * 16 < 64" "unat a mod 4 * 16 + unat b div 16 < 64"
    "unat b mod 16 * 4 < 64" "unat b mod 16 * 4 + unat c div 64 < 64" "unat c mod 64 < 64"
proof -
  have d: "unat a div 4 < 64" "unat b div 16 < 16" "unat c div 64 < 4"
    using unat_byte_lt [of a] unat_byte_lt [of b] unat_byte_lt [of c] by (simp_all add: less_mult_imp_div_less)
  have m: "unat a mod 4 \<le> 3" "unat b mod 16 \<le> 15" by (simp_all add: less_Suc_eq_le [symmetric])
  show "unat a div 4 < 64" "unat a mod 4 * 16 < 64" "unat a mod 4 * 16 + unat b div 16 < 64"
    "unat b mod 16 * 4 < 64" "unat b mod 16 * 4 + unat c div 64 < 64" "unat c mod 64 < 64"
    using d m by simp_all
qed

lemma byte_join:
  fixes b c :: byte
  shows "(x * 16 + unat b div 16) div 16 = x" "(x * 16 + unat b div 16) mod 16 = unat b div 16"
    "(x * 4 + unat c div 64) div 4 = x" "(x * 4 + unat c div 64) mod 4 = unat c div 64"
    "unat b div 16 mod 16 = unat b div 16" "unat c div 64 mod 4 = unat c div 64"
    "byte_of (unat b) = b"
proof -
  have d: "unat b div 16 < 16" "unat c div 64 < 4"
    using unat_byte_lt [of b] unat_byte_lt [of c] by (simp_all add: less_mult_imp_div_less)
  show "(x * 16 + unat b div 16) div 16 = x" "(x * 16 + unat b div 16) mod 16 = unat b div 16"
    "(x * 4 + unat c div 64) div 4 = x" "(x * 4 + unat c div 64) mod 4 = unat c div 64"
    "unat b div 16 mod 16 = unat b div 16" "unat c div 64 mod 4 = unat c div 64"
    using d by simp_all
  show "byte_of (unat b) = b" by (simp add: byte_of_unat)
qed

lemma a2b_b64encode: "a2b_base64 (b64encode bs) 0 0 0 out = Inr (out @ bs)"
  by (induction bs arbitrary: out rule: b64encode.induct)
    (simp_all add: b64_char_facts byte_parts byte_join)

lemma b64encode_ascii: "c \<in> set (b64encode bs) \<Longrightarrow> c < 128"
  by (induction bs rule: b64encode.induct) (auto simp: b64_char_facts byte_parts)

lemma b64decode_b64encode: "b64decode (b64encode bs) = Inr bs"
  using b64encode_ascii by (fastforce simp: b64decode_def a2b_b64encode not_less [symmetric])

lemma b64encode_inj: "b64encode xs = b64encode ys \<longleftrightarrow> xs = ys"
  using b64decode_b64encode by (metis Inr_inject)

end
