(* ===== verification/Identity.thy ===== *)
theory Identity
  imports Base64 "HOL-Library.List_Lexorder"
begin

text \<open>
  Node identities and the signed topology: \<^verbatim>\<open>security/keys.py\<close>, \<^verbatim>\<open>secrets/identity.py\<close> and the topology
  models of \<^verbatim>\<open>secrets/provisioning.py\<close>.

  Ed25519, X25519 and SHA-256 come from packages outside the repository; they are the fields of
  the parameter record \<open>crypto\<close>. A function that raises on malformed key bytes returns an
  option. \<open>crypto_ok\<close> states what the code relies on: output lengths, and that X25519
  agreement is symmetric.
\<close>

section \<open>Cryptographic parameters\<close>

record crypto =
  sha256 :: "bytes \<Rightarrow> bytes"
  ed25519_public_of :: "bytes \<Rightarrow> bytes option"
  x25519_public_of :: "bytes \<Rightarrow> bytes option"
  x25519_exchange :: "bytes \<Rightarrow> bytes \<Rightarrow> bytes option"
  hkdf_sha256 :: "bytes \<Rightarrow> bytes \<Rightarrow> bytes \<Rightarrow> nat \<Rightarrow> bytes"

definition crypto_ok :: "crypto \<Rightarrow> bool" where
  "crypto_ok cr \<longleftrightarrow>
     (\<forall>m. length (sha256 cr m) = 32)
     \<and> (\<forall>k p. ed25519_public_of cr k = Some p \<longrightarrow> length p = 32)
     \<and> (\<forall>k p. x25519_public_of cr k = Some p \<longrightarrow> length p = 32)
     \<and> (\<forall>k p s. x25519_exchange cr k p = Some s \<longrightarrow> length s = 32)
     \<and> (\<forall>a b pa pb. x25519_public_of cr a = Some pa \<longrightarrow> x25519_public_of cr b = Some pb
          \<longrightarrow> x25519_exchange cr a pb = x25519_exchange cr b pa)
     \<and> (\<forall>salt info ikm n. length (hkdf_sha256 cr salt info ikm n) = n)"

definition key_error :: py_error where
  "key_error = ValueError ''malformed key bytes''"

definition of_option :: "'a option \<Rightarrow> 'a res" where
  "of_option x = (case x of None \<Rightarrow> Inl key_error | Some y \<Rightarrow> Inr y)"

section \<open>Node identities\<close>

definition ascii_lit :: "string \<Rightarrow> bytes" where
  "ascii_lit s = map of_char s"

definition NODE_ID_DOMAIN :: bytes where
  "NODE_ID_DOMAIN = ascii_lit ''gatherlink node v1''"

record node_identity =
  ni_ed25519_private :: bytes
  ni_ed25519_public :: bytes
  ni_x25519_private :: bytes
  ni_x25519_public :: bytes
  ni_node_id :: bytes

definition node_id_from_ed25519_public :: "crypto \<Rightarrow> bytes \<Rightarrow> bytes res" where
  "node_id_from_ed25519_public cr public_key =
     (if length public_key \<noteq> 32 then Inl (ValueError ''Ed25519 public key must be 32 bytes'')
      else Inr (sha256 cr (NODE_ID_DOMAIN @ public_key)))"

definition from_private_keys :: "crypto \<Rightarrow> bytes \<Rightarrow> bytes \<Rightarrow> node_identity res" where
  "from_private_keys cr ed_private x_private =
     rbind (of_option (ed25519_public_of cr ed_private)) (\<lambda>ed_public.
     rbind (of_option (x25519_public_of cr x_private)) (\<lambda>x_public.
     rbind (node_id_from_ed25519_public cr ed_public) (\<lambda>node_id.
       Inr \<lparr>ni_ed25519_private = ed_private, ni_ed25519_public = ed_public,
            ni_x25519_private = x_private, ni_x25519_public = x_public, ni_node_id = node_id\<rparr>)))"

definition x25519_shared_secret :: "crypto \<Rightarrow> bytes \<Rightarrow> bytes \<Rightarrow> bytes res" where
  "x25519_shared_secret cr private_key peer_public_key = of_option (x25519_exchange cr private_key peer_public_key)"

section \<open>Serialised identities\<close>

record identity_record =
  ir_schema_version :: int
  ir_node_id :: ustr
  ir_ed25519_public :: ustr
  ir_ed25519_private :: ustr
  ir_x25519_public :: ustr
  ir_x25519_private :: ustr

record identity_public =
  ip_schema_version :: int
  ip_node_id :: ustr
  ip_ed25519_public :: ustr
  ip_x25519_public :: ustr

definition identity_record_of :: "node_identity \<Rightarrow> identity_record" where
  "identity_record_of ident =
     \<lparr>ir_schema_version = 1, ir_node_id = b64encode (ni_node_id ident),
      ir_ed25519_public = b64encode (ni_ed25519_public ident),
      ir_ed25519_private = b64encode (ni_ed25519_private ident),
      ir_x25519_public = b64encode (ni_x25519_public ident),
      ir_x25519_private = b64encode (ni_x25519_private ident)\<rparr>"

definition to_identity :: "crypto \<Rightarrow> identity_record \<Rightarrow> node_identity res" where
  "to_identity cr rec =
     (if ir_schema_version rec \<noteq> 1 then Inl (ValueError ''unsupported identity schema_version'')
      else rbind (b64decode (ir_ed25519_private rec)) (\<lambda>ed_private.
        rbind (b64decode (ir_x25519_private rec)) (\<lambda>x_private.
        rbind (from_private_keys cr ed_private x_private) (\<lambda>ident.
        rbind (b64decode (ir_node_id rec)) (\<lambda>node_id.
          if ni_node_id ident \<noteq> node_id
          then Inl (ValueError ''identity record node_id does not match public key'')
          else Inr ident)))))"

definition public_of_identity :: "node_identity \<Rightarrow> identity_public" where
  "public_of_identity ident =
     \<lparr>ip_schema_version = 1, ip_node_id = b64encode (ni_node_id ident),
      ip_ed25519_public = b64encode (ni_ed25519_public ident),
      ip_x25519_public = b64encode (ni_x25519_public ident)\<rparr>"

definition public_of_record :: "identity_record \<Rightarrow> identity_public" where
  "public_of_record rec =
     \<lparr>ip_schema_version = ir_schema_version rec, ip_node_id = ir_node_id rec,
      ip_ed25519_public = ir_ed25519_public rec, ip_x25519_public = ir_x25519_public rec\<rparr>"

definition public_bytes :: "identity_public \<Rightarrow> (bytes \<times> bytes \<times> bytes) res" where
  "public_bytes rec =
     (if ip_schema_version rec \<noteq> 1 then Inl (ValueError ''unsupported identity schema_version'')
      else rbind (b64decode (ip_node_id rec)) (\<lambda>node_id.
        rbind (b64decode (ip_ed25519_public rec)) (\<lambda>ed25519_public.
        rbind (b64decode (ip_x25519_public rec)) (\<lambda>x25519_public.
          if length node_id \<noteq> 32
          then Inl (ValueError ''identity public record node_id must decode to 32 bytes'')
          else if length ed25519_public \<noteq> 32
          then Inl (ValueError ''identity public record ed25519_public must decode to 32 bytes'')
          else if length x25519_public \<noteq> 32
          then Inl (ValueError ''identity public record x25519_public must decode to 32 bytes'')
          else Inr (node_id, ed25519_public, x25519_public)))))"

section \<open>Topology\<close>

datatype node_role = RoleNode | RoleRelay | RoleExit | RoleHelper

record provisioned_node =
  pn_name :: ustr
  pn_identity :: identity_public
  pn_roles :: "node_role list"

record provisioned_service =
  ps_name :: ustr
  ps_owner_node :: ustr
  ps_service_id :: int

record topology =
  tb_schema_version :: int
  tb_generation :: int
  tb_issuer_node_id :: ustr
  tb_valid_from :: int
  tb_valid_until :: "int option"
  tb_nodes :: "provisioned_node list"
  tb_services :: "provisioned_service list"
  tb_revoked_node_ids :: "ustr list"

definition topology_node_ids :: "topology \<Rightarrow> ustr list" where
  "topology_node_ids t = map (ip_node_id \<circ> pn_identity) (tb_nodes t)"

definition validate_topology :: "topology \<Rightarrow> topology res" where
  "validate_topology t =
     (let node_names = map pn_name (tb_nodes t);
          node_ids = topology_node_ids t;
          service_ids = map ps_service_id (tb_services t) in
      if tb_schema_version t \<noteq> 1 then Inl (ValueError ''topology schema_version must be 1'')
      else if card (set node_names) \<noteq> length (tb_nodes t)
      then Inl (ValueError ''topology node names must be unique'')
      else if card (set node_ids) \<noteq> length node_ids
      then Inl (ValueError ''topology node identities must be unique'')
      else if card (set service_ids) \<noteq> length service_ids
      then Inl (ValueError ''topology service ids must be unique'')
      else if filter (\<lambda>s. ps_owner_node s \<notin> set node_names) (tb_services t) \<noteq> []
      then Inl (ValueError ''topology services reference unknown nodes'')
      else case tb_valid_until t of
        Some until \<Rightarrow> if until \<le> tb_valid_from t
                      then Inl (ValueError ''topology valid_until must be after valid_from'') else Inr t
      | None \<Rightarrow> Inr t)"

definition is_valid_at :: "topology \<Rightarrow> int \<Rightarrow> bool" where
  "is_valid_at t now =
     (if now < tb_valid_from t then False
      else case tb_valid_until t of None \<Rightarrow> True | Some until \<Rightarrow> now \<le> until)"

record topology_diff =
  td_current_generation :: int
  td_candidate_generation :: int
  td_generation_delta :: int
  td_added_nodes :: "ustr list"
  td_removed_nodes :: "ustr list"
  td_revoked_nodes :: "ustr list"
  td_added_services :: "ustr list"
  td_removed_services :: "ustr list"
  td_warnings :: "string list"

definition sorted_difference :: "ustr list \<Rightarrow> ustr list \<Rightarrow> ustr list" where
  "sorted_difference xs ys = sort (remdups (filter (\<lambda>x. x \<notin> set ys) xs))"

definition diff_topology_bundles :: "topology \<Rightarrow> topology \<Rightarrow> topology_diff" where
  "diff_topology_bundles current candidate =
     (let names = \<lambda>t. map pn_name (tb_nodes t); services = \<lambda>t. map ps_name (tb_services t) in
      \<lparr>td_current_generation = tb_generation current,
       td_candidate_generation = tb_generation candidate,
       td_generation_delta = tb_generation candidate - tb_generation current,
       td_added_nodes = sorted_difference (names candidate) (names current),
       td_removed_nodes = sorted_difference (names current) (names candidate),
       td_revoked_nodes = sorted_difference (tb_revoked_node_ids candidate) (tb_revoked_node_ids current),
       td_added_services = sorted_difference (services candidate) (services current),
       td_removed_services = sorted_difference (services current) (services candidate),
       td_warnings =
         (if tb_generation candidate \<le> tb_generation current then [''candidate_generation_not_newer''] else [])
         @ (if tb_issuer_node_id candidate \<noteq> tb_issuer_node_id current then [''issuer_changed''] else [])\<rparr>)"

definition starts_with :: "string \<Rightarrow> string \<Rightarrow> bool" where
  "starts_with s pre \<longleftrightarrow> take (length pre) s = pre"

definition ok_to_install :: "topology_diff \<Rightarrow> bool" where
  "ok_to_install d \<longleftrightarrow>
     td_candidate_generation d > td_current_generation d
     \<and> \<not> list_ex (\<lambda>w. starts_with w ''candidate_generation_not_newer'') (td_warnings d)"

section \<open>Lemmas\<close>

lemma of_option_eq_Inr [simp]: "of_option x = Inr y \<longleftrightarrow> x = Some y"
  by (auto simp: of_option_def split: option.splits)

text \<open>An identity that \<open>from_private_keys\<close> built.\<close>

definition identity_wf :: "crypto \<Rightarrow> node_identity \<Rightarrow> bool" where
  "identity_wf cr ident \<longleftrightarrow>
     from_private_keys cr (ni_ed25519_private ident) (ni_x25519_private ident) = Inr ident"

lemma from_private_keys_wf: "from_private_keys cr a b = Inr ident \<Longrightarrow> identity_wf cr ident"
  by (auto simp: from_private_keys_def identity_wf_def rbind_eq_Inr)

lemma identity_wf_facts:
  assumes "crypto_ok cr" "identity_wf cr ident"
  shows "length (ni_node_id ident) = 32" "length (ni_ed25519_public ident) = 32"
    "length (ni_x25519_public ident) = 32"
    "x25519_public_of cr (ni_x25519_private ident) = Some (ni_x25519_public ident)"
proof -
  obtain e x where ex: "ed25519_public_of cr (ni_ed25519_private ident) = Some e"
      "x25519_public_of cr (ni_x25519_private ident) = Some x" "length e = 32"
      "ident = \<lparr>ni_ed25519_private = ni_ed25519_private ident, ni_ed25519_public = e,
            ni_x25519_private = ni_x25519_private ident, ni_x25519_public = x,
            ni_node_id = sha256 cr (NODE_ID_DOMAIN @ e)\<rparr>"
    using assms(2)
    by (auto simp: identity_wf_def from_private_keys_def rbind_eq_Inr node_id_from_ed25519_public_def split: if_splits)
  have p: "ni_ed25519_public ident = e" "ni_x25519_public ident = x" "ni_node_id ident = sha256 cr (NODE_ID_DOMAIN @ e)"
    by (subst ex(4), simp)+
  show "length (ni_node_id ident) = 32" "length (ni_ed25519_public ident) = 32"
    "length (ni_x25519_public ident) = 32"
    "x25519_public_of cr (ni_x25519_private ident) = Some (ni_x25519_public ident)"
    using assms(1) ex(1-3) unfolding p crypto_ok_def by auto
qed

lemma public_bytes_of_identity:
  assumes "crypto_ok cr" "identity_wf cr ident"
  shows "public_bytes (public_of_identity ident)
    = Inr (ni_node_id ident, ni_ed25519_public ident, ni_x25519_public ident)"
  using identity_wf_facts [OF assms]
  by (simp add: public_bytes_def public_of_identity_def b64decode_b64encode)

lemma public_bytes_lengths:
  "public_bytes rec = Inr (n, e, x) \<Longrightarrow> length n = 32 \<and> length e = 32 \<and> length x = 32"
  by (auto simp: public_bytes_def rbind_eq_Inr split: if_splits)

section \<open>Properties\<close>

text \<open>
  C20. Identity files round-trip: an identity saved as a record loads back identically, its public
  record decodes to the same node id and public keys, and both name the same node.
\<close>

theorem identity_record_roundtrip:
  assumes "crypto_ok cr" and "from_private_keys cr ed_private x_private = Inr ident"
  shows "to_identity cr (identity_record_of ident) = Inr ident
    \<and> public_bytes (public_of_record (identity_record_of ident))
        = Inr (ni_node_id ident, ni_ed25519_public ident, ni_x25519_public ident)"
proof -
  have wf: "identity_wf cr ident" by (rule from_private_keys_wf) fact
  have "public_of_record (identity_record_of ident) = public_of_identity ident"
    by (simp add: public_of_record_def identity_record_of_def public_of_identity_def)
  then show ?thesis
    using wf public_bytes_of_identity [OF assms(1) wf]
    by (simp add: to_identity_def identity_record_of_def b64decode_b64encode identity_wf_def)
qed

text \<open>A concrete instance of the parameters: fixed-length functions with symmetric agreement.\<close>

definition sample_crypto :: crypto where
  "sample_crypto =
     \<lparr>sha256 = (\<lambda>m. take 32 (rev m @ replicate 32 0)),
      ed25519_public_of = (\<lambda>k. if length k = 32 then Some k else None),
      x25519_public_of = (\<lambda>k. if length k = 32 then Some k else None),
      x25519_exchange = (\<lambda>k p. if length k = 32 \<and> length p = 32 then Some (map2 (+) k p) else None),
      hkdf_sha256 = (\<lambda>salt info ikm n. take n (ikm @ salt @ replicate n 0))\<rparr>"

lemma sample_crypto_ok: "crypto_ok sample_crypto"
proof -
  have "map2 (+) a b = map2 (+) b (a :: bytes)" if "length a = length b" for a b
    using that by (induction a b rule: list_induct2) (simp_all add: add.commute)
  then show ?thesis by (auto simp: crypto_ok_def sample_crypto_def)
qed

definition sample_identity :: "byte \<Rightarrow> node_identity" where
  "sample_identity b =
     \<lparr>ni_ed25519_private = replicate 32 b, ni_ed25519_public = replicate 32 b,
      ni_x25519_private = replicate 32 (b + 1), ni_x25519_public = replicate 32 (b + 1),
      ni_node_id = replicate 32 b\<rparr>"

lemma sample_identity_keys:
  "from_private_keys sample_crypto (replicate 32 b) (replicate 32 (b + 1)) = Inr (sample_identity b)"
  by (simp add: from_private_keys_def sample_crypto_def node_id_from_ed25519_public_def sample_identity_def
      of_option_def)

theorem identity_record_roundtrip_witness:
  "to_identity sample_crypto (identity_record_of (sample_identity 3)) = Inr (sample_identity 3)"
  using identity_record_roundtrip [OF sample_crypto_ok sample_identity_keys] by blast

text \<open>
  A topology bundle is offered for installation exactly when its generation is newer, and the
  reported additions, removals and revocations are the sorted set differences of the bundles.
\<close>

lemma topology_diff_correct:
  "let d = diff_topology_bundles current candidate in
     (ok_to_install d \<longleftrightarrow> tb_generation candidate > tb_generation current)
     \<and> sorted (td_revoked_nodes d) \<and> distinct (td_revoked_nodes d)
     \<and> set (td_revoked_nodes d) = set (tb_revoked_node_ids candidate) - set (tb_revoked_node_ids current)
     \<and> set (td_added_nodes d) = pn_name ` set (tb_nodes candidate) - pn_name ` set (tb_nodes current)
     \<and> set (td_removed_nodes d) = pn_name ` set (tb_nodes current) - pn_name ` set (tb_nodes candidate)"
  by (auto simp: diff_topology_bundles_def ok_to_install_def sorted_difference_def Let_def starts_with_def)

end
