(* ===== verification/Replay.thy ===== *)
theory Replay
  imports GL_Prelude
begin

unbundle bit_operations_syntax

text \<open>
  The replay window of \<^verbatim>\<open>security/replay.py\<close>: \<open>replay_window\<close> is the dataclass,
  \<open>new_window\<close> its constructor with the clamp of \<^verbatim>\<open>__post_init__\<close>, \<open>accept\<close> the method that
  decides on one counter and returns the updated window.

  The abstract specification keeps the set of all counters accepted so far; \<open>window_rel\<close> relates
  a window to that set, and \<open>accept_refines\<close> shows that the bitmap implementation takes
  exactly the specified decision. The locale \<open>replay_filter\<close> states what a client of a replay
  filter may rely on; the window is its interpretation.
\<close>

record replay_window =
  window_bits :: int
  highest :: "int option"
  bitmap :: int

definition new_window :: "int \<Rightarrow> replay_window" where
  "new_window bits = \<lparr>window_bits = max 1 (min bits 128), highest = None, bitmap = 0\<rparr>"

definition accept :: "int \<Rightarrow> replay_window \<Rightarrow> bool \<times> replay_window" where
  "accept counter win =
     (if counter < 0 \<or> counter \<ge> 2 ^ 64 then (False, win)
      else case highest win of
        None \<Rightarrow> (True, win\<lparr>highest := Some counter, bitmap := 1\<rparr>)
      | Some h \<Rightarrow>
          if counter > h then
            let shift = counter - h;
                moved = (if shift \<ge> 128 then 0 else push_bit (nat shift) (bitmap win))
            in (True, win\<lparr>bitmap := moved OR 1, highest := Some counter\<rparr>)
          else
            let behind = h - counter in
            if behind \<ge> window_bits win \<or> behind \<ge> 128 then (False, win)
            else
              let mask = push_bit (nat behind) 1 in
              if bitmap win AND mask \<noteq> 0 then (False, win)
              else (True, win\<lparr>bitmap := bitmap win OR mask\<rparr>))"

text \<open>A sequence of calls on one filter: the counters it accepted, in order, and the final state.\<close>

fun filter_all :: "('c \<Rightarrow> 's \<Rightarrow> bool \<times> 's) \<Rightarrow> 'c list \<Rightarrow> 's \<Rightarrow> 'c list \<times> 's" where
  "filter_all acc [] s = ([], s)"
| "filter_all acc (c # cs) s =
     (let (ok, s') = acc c s; (rest, s'') = filter_all acc cs s' in
      (if ok then c # rest else rest, s''))"

lemma accept_rejected: "\<not> fst (accept c win) \<Longrightarrow> snd (accept c win) = win"
  by (auto simp: accept_def Let_def split: option.splits if_splits)

section \<open>Abstract specification\<close>

definition spec_accept :: "int \<Rightarrow> int set \<Rightarrow> int \<Rightarrow> bool" where
  "spec_accept w seen c \<longleftrightarrow>
     0 \<le> c \<and> c < 2 ^ 64 \<and> c \<notin> seen \<and> (seen = {} \<or> Max seen - c < w)"

definition window_rel :: "replay_window \<Rightarrow> int set \<Rightarrow> bool" where
  "window_rel win seen \<longleftrightarrow>
     finite seen \<and> 1 \<le> window_bits win \<and> window_bits win \<le> 128
     \<and> (case highest win of
          None \<Rightarrow> seen = {}
        | Some h \<Rightarrow> seen \<noteq> {} \<and> h = Max seen
            \<and> (\<forall>k < 128. bit (bitmap win) k \<longleftrightarrow> h - int k \<in> seen))"

section \<open>Refinement\<close>

lemma window_rel_new: "window_rel (new_window bits) {}"
  by (simp add: window_rel_def new_window_def)

lemma mask_test: "(b AND 2 ^ k = 0) \<longleftrightarrow> \<not> bit (b :: int) k"
  by (simp add: bit_iff_and_push_bit_not_eq_0)

lemma Max_insert_above: "finite S \<Longrightarrow> S \<noteq> {} \<Longrightarrow> Max S < c \<Longrightarrow> Max (insert c S) = (c :: int)"
  by (simp add: max_def del: Max_less_iff)

lemma not_in_above: "finite S \<Longrightarrow> Max S < c \<Longrightarrow> c \<notin> (S :: int set)"
  using Max_ge by fastforce

lemma window_rel_advance:
  assumes rel: "window_rel win seen" and h: "highest win = Some h" and c: "h < c"
  shows "window_rel (win\<lparr>bitmap := (if c - h \<ge> 128 then 0 else push_bit (nat (c - h)) (bitmap win)) OR 1,
                         highest := Some c\<rparr>) (insert c seen)"
proof -
  have s: "finite seen" "seen \<noteq> {}" "h = Max seen" and b: "\<forall>k < 128. bit (bitmap win) k \<longleftrightarrow> h - int k \<in> seen"
    using rel h by (auto simp: window_rel_def)
  have above: "x \<notin> seen" if "h < x" for x using s(1,3) that not_in_above by blast
  have bits: "bit ((if c - h \<ge> 128 then 0 else push_bit (nat (c - h)) (bitmap win)) OR 1) k
      \<longleftrightarrow> c - int k \<in> insert c seen" if k: "k < 128" for k
  proof (cases "nat (c - h) \<le> k")
    case True
    then have e: "h - int (k - nat (c - h)) = c - int k" and lt: "\<not> 128 \<le> c - h" using c k by auto
    have "bit (bitmap win) (k - nat (c - h)) \<longleftrightarrow> c - int k \<in> seen" using b k e by auto
    moreover have "k \<noteq> 0" using True c by auto
    ultimately show ?thesis using True lt by (simp add: bit_simps)
  next
    case False
    then have "h < c - int k" using c by linarith
    then show ?thesis using False above by (auto simp: bit_simps)
  qed
  show ?thesis
    using rel s c bits Max_insert_above [of seen c] by (simp add: window_rel_def h)
qed

lemma window_rel_mark:
  assumes rel: "window_rel win seen" and h: "highest win = Some h" and c: "c \<le> h" "h - c < 128"
  shows "window_rel (win\<lparr>bitmap := bitmap win OR push_bit (nat (h - c)) 1\<rparr>) (insert c seen)"
proof -
  have s: "finite seen" "seen \<noteq> {}" "h = Max seen" and b: "\<forall>k < 128. bit (bitmap win) k \<longleftrightarrow> h - int k \<in> seen"
    using rel h by (auto simp: window_rel_def)
  have "bit (bitmap win OR push_bit (nat (h - c)) 1) k \<longleftrightarrow> h - int k \<in> insert c seen" if "k < 128" for k
    using b that c by (auto simp: bit_simps)
  moreover have "Max (insert c seen) = h" using s c by (simp add: max_def)
  ultimately show ?thesis using rel s by (simp add: window_rel_def h)
qed

lemma accept_refines:
  assumes "window_rel win seen"
  shows "fst (accept c win) = spec_accept (window_bits win) seen c"
    and "window_rel (snd (accept c win)) (if fst (accept c win) then insert c seen else seen)"
    and "window_bits (snd (accept c win)) = window_bits win"
proof -
  show "window_bits (snd (accept c win)) = window_bits win"
    by (auto simp: accept_def Let_def split: option.split)
  consider (range) "c < 0 \<or> c \<ge> 2 ^ 64" | (first) "0 \<le> c" "c < 2 ^ 64" "highest win = None"
    | (above) h where "0 \<le> c" "c < 2 ^ 64" "highest win = Some h" "h < c"
    | (below) h where "0 \<le> c" "c < 2 ^ 64" "highest win = Some h" "c \<le> h"
    by (cases "highest win") (fastforce simp: not_less)+
  then have "fst (accept c win) = spec_accept (window_bits win) seen c
    \<and> window_rel (snd (accept c win)) (if fst (accept c win) then insert c seen else seen)"
  proof cases
    case range
    then show ?thesis using assms by (auto simp: accept_def spec_accept_def)
  next
    case first
    then show ?thesis using assms by (auto simp: accept_def spec_accept_def window_rel_def bit_simps)
  next
    case above
    have m: "finite seen" "h = Max seen" "1 \<le> window_bits win" using assms above(3) by (auto simp: window_rel_def)
    have "spec_accept (window_bits win) seen c"
      using above m not_in_above [of seen c] by (auto simp: spec_accept_def)
    then show ?thesis
      using above window_rel_advance [OF assms above(3,4)] by (simp add: accept_def Let_def)
  next
    case below
    have m: "seen \<noteq> {}" "h = Max seen" "window_bits win \<le> 128" using assms below(3) by (auto simp: window_rel_def)
    show ?thesis
    proof (cases "h - c < window_bits win")
      case True
      then have "bit (bitmap win) (nat (h - c)) \<longleftrightarrow> c \<in> seen"
        using assms below m(3) by (auto simp: window_rel_def)
      then show ?thesis
        using True below m assms window_rel_mark [OF assms below(3,4)]
        by (auto simp: accept_def Let_def spec_accept_def mask_test)
    next
      case False
      then show ?thesis using below m assms by (auto simp: accept_def Let_def spec_accept_def)
    qed
  qed
  then show "fst (accept c win) = spec_accept (window_bits win) seen c"
    and "window_rel (snd (accept c win)) (if fst (accept c win) then insert c seen else seen)" by blast+
qed

section \<open>The contract of a replay filter\<close>

locale replay_filter =
  fixes acc :: "'c \<Rightarrow> 's \<Rightarrow> bool \<times> 's"
    and rel :: "'s \<Rightarrow> 'c set \<Rightarrow> bool"
  assumes fresh: "rel s seen \<Longrightarrow> fst (acc c s) \<Longrightarrow> c \<notin> seen"
    and keeps: "rel s seen \<Longrightarrow> rel (snd (acc c s)) (if fst (acc c s) then insert c seen else seen)"
begin

lemma filter_all_fresh:
  assumes "rel s seen"
  shows "distinct (fst (filter_all acc cs s)) \<and> set (fst (filter_all acc cs s)) \<inter> seen = {}
    \<and> rel (snd (filter_all acc cs s)) (seen \<union> set (fst (filter_all acc cs s)))"
  using assms
proof (induction cs arbitrary: s seen)
  case (Cons c cs)
  obtain ok s' where a: "acc c s = (ok, s')" by (cases "acc c s")
  obtain rest s'' where r: "filter_all acc cs s' = (rest, s'')" by (cases "filter_all acc cs s'")
  have k: "rel s' (if ok then insert c seen else seen)" using keeps [OF Cons.prems, of c] a by simp
  have "ok \<Longrightarrow> c \<notin> seen" using fresh [OF Cons.prems, of c] a by simp
  then show ?case using Cons.IH [OF k] a r by (cases ok) auto
qed simp

end

interpretation window: replay_filter accept window_rel
  using accept_refines by unfold_locales (auto simp: spec_accept_def split: if_splits)

section \<open>Properties\<close>

lemma window_bits_filter_all: "window_rel s seen \<Longrightarrow> window_bits (snd (filter_all accept cs s)) = window_bits s"
proof (induction cs arbitrary: s seen)
  case (Cons c cs)
  obtain ok s' where a: "accept c s = (ok, s')" by (cases "accept c s")
  have "window_rel s' (if ok then insert c seen else seen)" "window_bits s' = window_bits s"
    using accept_refines [OF Cons.prems, of c] a by simp_all
  then show ?case using Cons.IH a by (auto simp: case_prod_unfold Let_def)
qed simp

text \<open>
  C6. After any sequence of counters, the bitmap window decides exactly as the specification over
  the full set of counters accepted so far: accept iff the counter fits 64 bits, was never
  accepted before, and is less than the window size behind the highest one. In particular no
  counter is ever accepted twice and no fresh counter inside the window is refused.
\<close>

theorem replay_window_refines_spec:
  "let (accepted, win) = filter_all accept cs (new_window bits) in
     distinct accepted
     \<and> (fst (accept c win) \<longleftrightarrow> spec_accept (max 1 (min bits 128)) (set accepted) c)"
proof -
  let ?r = "filter_all accept cs (new_window bits)"
  have f: "distinct (fst ?r)" "window_rel (snd ?r) (set (fst ?r))"
    using window.filter_all_fresh [OF window_rel_new [of bits], of cs] by auto
  have "window_bits (snd ?r) = max 1 (min bits 128)"
    using window_bits_filter_all [OF window_rel_new] by (simp add: new_window_def)
  then show ?thesis using f(1) accept_refines(1) [OF f(2), of c] by (simp add: case_prod_unfold)
qed

text \<open>
  A refused counter leaves the window untouched, so a replayed or stale packet cannot move or
  widen the window.
\<close>

lemma replay_rejection_keeps_window:
  "fst (accept c win) \<or> snd (accept c win) = win"
  using accept_rejected by blast

lemma snd_filter_all_append:
  "snd (filter_all acc (cs @ ds) s) = snd (filter_all acc ds (snd (filter_all acc cs s)))"
  by (induction cs arbitrary: s) (auto simp: case_prod_unfold Let_def)

lemma accept_next:
  assumes "int (Suc n) < 2 ^ 64" "highest win = Some (int n)" "bitmap win = 2 ^ Suc n - 1"
  shows "highest (snd (accept (int (Suc n)) win)) = Some (int (Suc n))
    \<and> bitmap (snd (accept (int (Suc n)) win)) = 2 ^ Suc (Suc n) - 1"
  using assms by (simp add: accept_def Let_def or_one_eq push_bit_eq_mult)

lemma ascending_bitmap:
  "int n < 2 ^ 64 \<Longrightarrow>
   highest (snd (filter_all accept (map int [0..<Suc n]) (new_window 128))) = Some (int n)
   \<and> bitmap (snd (filter_all accept (map int [0..<Suc n]) (new_window 128))) = 2 ^ Suc n - 1"
proof (induction n)
  case 0
  then show ?case by (simp add: accept_def new_window_def)
next
  case (Suc n)
  let ?w = "snd (filter_all accept (map int [0..<Suc n]) (new_window 128))"
  have "map int [0..<Suc (Suc n)] = map int [0..<Suc n] @ [int (Suc n)]" by simp
  then have "snd (filter_all accept (map int [0..<Suc (Suc n)]) (new_window 128)) = snd (accept (int (Suc n)) ?w)"
    by (simp only: snd_filter_all_append) (simp add: case_prod_unfold Let_def)
  then show ?case using Suc accept_next [of n ?w] by simp
qed

text \<open>
  C21. The bitmap is never masked to the window: after accepting the counters 0, 1, .., n it holds
  the n+1-bit number of all ones, so its size grows with the traffic although only the lowest
  128 bits are ever consulted.
\<close>

theorem replay_bitmap_unbounded:
  "int n < 2 ^ 64 \<Longrightarrow>
   bitmap (snd (filter_all accept (map int [0..<Suc n]) (new_window 128))) = 2 ^ Suc n - 1"
  using ascending_bitmap by blast

theorem replay_bitmap_unbounded_witness:
  "bitmap (snd (filter_all accept (map int [0..<Suc 1000]) (new_window 128))) = 2 ^ Suc 1000 - 1"
  using replay_bitmap_unbounded [of 1000] by simp

end
