(* ===== verification/Envelope.thy ===== *)
theory Envelope
  imports Replay Wire_Bytes
begin

text \<open>
  The encrypted transport envelope of \<^verbatim>\<open>security/envelope.py\<close>: \<open>encrypt_frame_with_counter\<close>,
  \<open>decrypt_packet_without_replay\<close>, and the stateful \<open>encrypt_frame\<close> and
  \<open>decrypt_packet\<close> of \<^verbatim>\<open>TransportKeys\<close>.

  ChaCha20-Poly1305 is a package outside the repository, so it is a pair of parameters:
  \<open>encrypt key nonce plaintext ad\<close> and \<open>decrypt key nonce ciphertext ad\<close>, where \<open>None\<close> is the
  \<^verbatim>\<open>InvalidTag\<close> exception. \<open>aead\<close> states what the code relies on: the ciphertext is 16 bytes
  longer than the plaintext, and decryption returns a plaintext exactly for the ciphertext that
  encryption produces from it.

  The step relation \<open>link_step\<close> puts a sender and a receiver around a network that may drop,
  duplicate, reorder and inject packets.
\<close>

type_synonym aead_encrypt = "bytes \<Rightarrow> bytes \<Rightarrow> bytes \<Rightarrow> bytes \<Rightarrow> bytes"
type_synonym aead_decrypt = "bytes \<Rightarrow> bytes \<Rightarrow> bytes \<Rightarrow> bytes \<Rightarrow> bytes option"

section \<open>Packets\<close>

definition PACKET_TYPE_ENCRYPTED_DATA_V1 :: int where
  [const_simps]: "PACKET_TYPE_ENCRYPTED_DATA_V1 = 0x01"

definition ENCRYPTED_DATA_HEADER_LEN :: nat where
  [const_simps]: "ENCRYPTED_DATA_HEADER_LEN = 13"

definition AEAD_TAG_LEN :: nat where
  [const_simps]: "AEAD_TAG_LEN = 16"

text \<open>The ASCII bytes of \<^verbatim>\<open>GATHERLINK_DATA_V1\<close>.\<close>

definition AEAD_DOMAIN :: bytes where
  "AEAD_DOMAIN = map of_char ''GATHERLINK_DATA_V1''"

record decrypted_packet =
  dp_receiver_index :: int
  dp_counter :: int
  dp_plaintext :: bytes

definition nonce_from_counter :: "int \<Rightarrow> bytes res" where
  "nonce_from_counter counter = rbind (to_bytes 8 counter) (\<lambda>bs. Inr ([0, 0, 0, 0] @ bs))"

definition validate_key :: "bytes \<Rightarrow> unit res" where
  "validate_key key = (if length key \<noteq> 32 then Inl (ValueError ''transport key must be 32 bytes'') else Inr ())"

definition validate_u32 :: "int \<Rightarrow> string \<Rightarrow> unit res" where
  "validate_u32 v field = (if v < 0 \<or> v \<ge> 2 ^ 32 then Inl (ValueError (field @ '' must fit u32'')) else Inr ())"

definition validate_u64 :: "int \<Rightarrow> string \<Rightarrow> unit res" where
  "validate_u64 v field = (if v < 0 \<or> v \<ge> 2 ^ 64 then Inl (ValueError (field @ '' must fit u64'')) else Inr ())"

definition encrypt_frame_with_counter :: "aead_encrypt \<Rightarrow> int \<Rightarrow> bytes \<Rightarrow> int \<Rightarrow> bytes \<Rightarrow> bytes res" where
  "encrypt_frame_with_counter encrypt receiver_index key counter plaintext_frame =
     rbind (validate_u32 receiver_index ''receiver_index'') (\<lambda>_.
     rbind (validate_u64 counter ''counter'') (\<lambda>_.
     rbind (validate_key key) (\<lambda>_.
     rbind (chain [append_u8 PACKET_TYPE_ENCRYPTED_DATA_V1,
                   append_u32 receiver_index,
                   append_u64 counter] []) (\<lambda>header.
     rbind (nonce_from_counter counter) (\<lambda>nonce.
       Inr (header @ encrypt key nonce plaintext_frame (AEAD_DOMAIN @ header)))))))"

definition silently_dropped :: py_error where
  "silently_dropped = ValueError ''packet must be silently dropped''"

definition decrypt_packet_without_replay :: "aead_decrypt \<Rightarrow> bytes \<Rightarrow> bytes \<Rightarrow> decrypted_packet res" where
  "decrypt_packet_without_replay decrypt key packet =
     rbind (validate_key key) (\<lambda>_.
       if length packet < ENCRYPTED_DATA_HEADER_LEN + AEAD_TAG_LEN then Inl silently_dropped
       else rbind (idx packet 0) (\<lambda>packet_type.
         if packet_type \<noteq> PACKET_TYPE_ENCRYPTED_DATA_V1 then Inl silently_dropped
         else
           let receiver_index = from_bytes (slice packet 1 5);
               counter = from_bytes (slice packet 5 13) in
           rbind (nonce_from_counter counter) (\<lambda>nonce.
             case decrypt key nonce (drop ENCRYPTED_DATA_HEADER_LEN packet)
                    (AEAD_DOMAIN @ take ENCRYPTED_DATA_HEADER_LEN packet) of
               None \<Rightarrow> Inl silently_dropped
             | Some plaintext \<Rightarrow>
                 Inr \<lparr>dp_receiver_index = receiver_index, dp_counter = counter, dp_plaintext = plaintext\<rparr>)))"

section \<open>Session state\<close>

record transport_keys =
  tk_receiver_index :: int
  tk_send_key :: bytes
  tk_receive_key :: bytes
  tk_local_receiver_index :: int
  tk_remote_receiver_index :: int
  tk_next_send_counter :: int
  tk_replay_window :: replay_window

definition new_transport_keys ::
    "int \<Rightarrow> bytes \<Rightarrow> bytes \<Rightarrow> int option \<Rightarrow> int option \<Rightarrow> transport_keys" where
  "new_transport_keys receiver_index send_key receive_key local remote =
     \<lparr>tk_receiver_index = receiver_index, tk_send_key = send_key, tk_receive_key = receive_key,
      tk_local_receiver_index = (case local of None \<Rightarrow> receiver_index | Some i \<Rightarrow> i),
      tk_remote_receiver_index = (case remote of None \<Rightarrow> receiver_index | Some i \<Rightarrow> i),
      tk_next_send_counter = 0, tk_replay_window = new_window 128\<rparr>"

definition encrypt_frame :: "aead_encrypt \<Rightarrow> transport_keys \<Rightarrow> bytes \<Rightarrow> (bytes \<times> transport_keys) res" where
  "encrypt_frame encrypt keys plaintext_frame =
     rbind (encrypt_frame_with_counter encrypt (tk_remote_receiver_index keys) (tk_send_key keys)
              (tk_next_send_counter keys) plaintext_frame)
       (\<lambda>packet. Inr (packet, keys\<lparr>tk_next_send_counter := tk_next_send_counter keys + 1\<rparr>))"

definition decrypt_packet ::
    "aead_decrypt \<Rightarrow> transport_keys \<Rightarrow> bytes \<Rightarrow> decrypted_packet res \<times> transport_keys" where
  "decrypt_packet decrypt keys packet =
     (case decrypt_packet_without_replay decrypt (tk_receive_key keys) packet of
        Inl e \<Rightarrow> (Inl e, keys)
      | Inr decrypted \<Rightarrow>
          if dp_receiver_index decrypted \<noteq> tk_local_receiver_index keys
          then (Inl (ValueError ''receiver index mismatch''), keys)
          else let (ok, win) = accept (dp_counter decrypted) (tk_replay_window keys);
                   keys' = keys\<lparr>tk_replay_window := win\<rparr> in
            if \<not> ok then (Inl (ValueError ''replayed transport counter''), keys')
            else (Inr decrypted, keys'))"

section \<open>What the code relies on from the AEAD\<close>

definition aead :: "aead_encrypt \<Rightarrow> aead_decrypt \<Rightarrow> bool" where
  "aead encrypt decrypt \<longleftrightarrow>
     (\<forall>key nonce p ad. length (encrypt key nonce p ad) = length p + 16)
     \<and> (\<forall>key nonce c ad p. decrypt key nonce c ad = Some p \<longleftrightarrow> c = encrypt key nonce p ad)"

text \<open>The packet that carries plaintext \<open>p\<close> under counter \<open>c\<close> to receiver index \<open>i\<close>.\<close>

definition packet_of :: "aead_encrypt \<Rightarrow> int \<Rightarrow> bytes \<Rightarrow> int \<Rightarrow> bytes \<Rightarrow> bytes" where
  "packet_of encrypt i key c p =
     (let header = 1 # be_bytes 4 i @ be_bytes 8 c in
      header @ encrypt key ([0, 0, 0, 0] @ be_bytes 8 c) p (AEAD_DOMAIN @ header))"

lemma encrypt_frame_with_counter_eq:
  "encrypt_frame_with_counter encrypt i key c p = Inr packet \<longleftrightarrow>
     0 \<le> i \<and> i < 2 ^ 32 \<and> 0 \<le> c \<and> c < 2 ^ 64 \<and> length key = 32 \<and> packet = packet_of encrypt i key c p"
  by (auto simp: encrypt_frame_with_counter_def validate_u32_def validate_u64_def validate_key_def
      rbind_eq_Inr append_simps const_simps nonce_from_counter_def to_bytes_eq_Inr packet_of_def)

lemma packet_header:
  "take 13 (packet_of encrypt i key c p) = 1 # be_bytes 4 i @ be_bytes 8 c"
  "drop 13 (packet_of encrypt i key c p)
     = encrypt key ([0, 0, 0, 0] @ be_bytes 8 c) p (AEAD_DOMAIN @ 1 # be_bytes 4 i @ be_bytes 8 c)"
  by (simp_all add: packet_of_def)

lemma be_bytes_8_from: "length bs = 8 \<Longrightarrow> be_bytes 8 (from_bytes bs) = bs"
  and be_bytes_4_from: "length bs = 4 \<Longrightarrow> be_bytes 4 (from_bytes bs) = bs"
  using be_bytes_from_bytes [of bs] by simp_all

lemma nonce_of_slice:
  assumes "13 \<le> length packet"
  shows "nonce_from_counter (from_bytes (slice packet 5 13)) = Inr ([0, 0, 0, 0] @ slice packet 5 13)"
proof -
  have "length (slice packet 5 13) = 8" using assms by simp
  then show ?thesis using to_bytes_from_bytes [of "slice packet 5 13"] by (simp add: nonce_from_counter_def)
qed

lemma split_header:
  assumes "13 \<le> length packet"
  shows "take 13 packet = packet ! 0 # slice packet 1 5 @ slice packet 5 13"
proof -
  have "take (1 + (4 + 8)) packet = take 1 packet @ take 4 (drop 1 packet) @ take 8 (drop 5 packet)"
    by (simp only: take_add drop_drop) simp
  moreover have "take 1 packet = [packet ! 0]" using assms by (cases packet) simp_all
  ultimately show ?thesis by (simp add: slice_def)
qed

text \<open>Decryption accepts exactly the packets that encryption makes.\<close>

lemma decrypt_iff_packet_of:
  assumes a: "aead encrypt decrypt" and k: "length key = 32"
  shows "decrypt_packet_without_replay decrypt key packet
           = Inr \<lparr>dp_receiver_index = i, dp_counter = c, dp_plaintext = p\<rparr>
         \<longleftrightarrow> 0 \<le> i \<and> i < 2 ^ 32 \<and> 0 \<le> c \<and> c < 2 ^ 64 \<and> packet = packet_of encrypt i key c p"
    (is "?L \<longleftrightarrow> ?R")
proof
  assume L: ?L
  have len: "29 \<le> length packet" and t: "packet ! 0 = 1"
    and ic: "i = from_bytes (slice packet 1 5)" "c = from_bytes (slice packet 5 13)"
    and d: "decrypt key ([0, 0, 0, 0] @ slice packet 5 13) (drop 13 packet) (AEAD_DOMAIN @ take 13 packet) = Some p"
    using L k nonce_of_slice [of packet]
    by (auto simp: decrypt_packet_without_replay_def validate_key_def const_simps Let_def rbind_eq_Inr
        idx_def word_uint_eq_iff split: if_splits option.splits)
  have l4: "length (slice packet 1 5) = 4" and l8: "length (slice packet 5 13) = 8" using len by simp_all
  have hd: "take 13 packet = 1 # be_bytes 4 i @ be_bytes 8 c"
    using split_header [of packet] len t ic be_bytes_4_from [OF l4] be_bytes_8_from [OF l8] by simp
  have "drop 13 packet = encrypt key ([0, 0, 0, 0] @ be_bytes 8 c) p (AEAD_DOMAIN @ take 13 packet)"
    using a d ic be_bytes_8_from [OF l8] unfolding aead_def by simp
  then have "packet = packet_of encrypt i key c p"
    using hd append_take_drop_id [of 13 packet] by (simp add: packet_of_def)
  moreover have "0 \<le> i \<and> i < 2 ^ 32" "0 \<le> c \<and> c < 2 ^ 64"
    using from_bytes_bounds [of "slice packet 1 5"] from_bytes_bounds [of "slice packet 5 13"] l4 l8 ic by simp_all
  ultimately show ?R by simp
next
  assume R: ?R
  then have p: "packet = packet_of encrypt i key c p" and r: "0 \<le> i" "i < 2 ^ 32" "0 \<le> c" "c < 2 ^ 64" by simp_all
  have len: "29 \<le> length packet" using a by (simp add: p packet_of_def aead_def)
  have s: "slice packet 1 5 = be_bytes 4 i" "slice packet 5 13 = be_bytes 8 c"
    by (simp_all add: p packet_of_def slice_def)
  have f: "from_bytes (be_bytes 4 i) = i" "from_bytes (be_bytes 8 c) = c"
    using r by (simp_all add: from_bytes_be_bytes)
  have "decrypt key ([0, 0, 0, 0] @ be_bytes 8 c) (drop 13 packet) (AEAD_DOMAIN @ take 13 packet) = Some p"
    using a unfolding p packet_header aead_def by simp
  moreover have "idx packet 0 = Inr 1" by (simp add: idx_def p packet_of_def)
  moreover have "nonce_from_counter c = Inr ([0, 0, 0, 0] @ be_bytes 8 c)"
    using r by (simp add: nonce_from_counter_def to_bytes_def)
  ultimately show ?L
    using len k s f
    by (simp add: decrypt_packet_without_replay_def validate_key_def const_simps Let_def del: idx_total)
qed

section \<open>One session direction over an unreliable network\<close>

text \<open>
  \<open>wire\<close> holds every packet ever sent, \<open>sent\<close> the counters and plaintexts in order, \<open>got\<close> the
  packets the receiver accepted with what it read from them. The network may present any bytes
  to the receiver at any time.
\<close>

record link =
  sender :: transport_keys
  receiver :: transport_keys
  wire :: "bytes set"
  sent :: "(int \<times> bytes) list"
  got :: "(bytes \<times> decrypted_packet) list"

definition link_init :: "int \<Rightarrow> bytes \<Rightarrow> bytes \<Rightarrow> link" where
  "link_init index key back_key =
     \<lparr>sender = new_transport_keys index key back_key None None,
      receiver = new_transport_keys index back_key key None None,
      wire = {}, sent = [], got = []\<rparr>"

inductive link_step :: "aead_encrypt \<Rightarrow> aead_decrypt \<Rightarrow> link \<Rightarrow> link \<Rightarrow> bool"
  for encrypt decrypt where
  send: "encrypt_frame encrypt (sender l) p = Inr (packet, ks) \<Longrightarrow>
    link_step encrypt decrypt l
      (l\<lparr>sender := ks, wire := insert packet (wire l),
         sent := sent l @ [(tk_next_send_counter (sender l), p)]\<rparr>)"
| deliver: "decrypt_packet decrypt (receiver l) packet = (Inr d, ks) \<Longrightarrow>
    link_step encrypt decrypt l (l\<lparr>receiver := ks, got := got l @ [(packet, d)]\<rparr>)"
| reject: "decrypt_packet decrypt (receiver l) packet = (Inl e, ks) \<Longrightarrow>
    link_step encrypt decrypt l (l\<lparr>receiver := ks\<rparr>)"

inductive link_reachable :: "aead_encrypt \<Rightarrow> aead_decrypt \<Rightarrow> link \<Rightarrow> link \<Rightarrow> bool"
  for encrypt decrypt l0 where
  start: "link_reachable encrypt decrypt l0 l0"
| step: "link_reachable encrypt decrypt l0 l \<Longrightarrow> link_step encrypt decrypt l l' \<Longrightarrow>
    link_reachable encrypt decrypt l0 l'"

inductive_cases link_stepE: "link_step encrypt decrypt l l'"

definition genuine :: "aead_encrypt \<Rightarrow> bytes \<Rightarrow> bytes \<Rightarrow> decrypted_packet \<Rightarrow> bool" where
  "genuine encrypt key packet d \<longleftrightarrow>
     0 \<le> dp_receiver_index d \<and> dp_receiver_index d < 2 ^ 32 \<and> 0 \<le> dp_counter d \<and> dp_counter d < 2 ^ 64
     \<and> length key = 32
     \<and> packet = packet_of encrypt (dp_receiver_index d) key (dp_counter d) (dp_plaintext d)"

definition link_inv :: "aead_encrypt \<Rightarrow> link \<Rightarrow> bool" where
  "link_inv encrypt l \<longleftrightarrow>
     tk_receive_key (receiver l) = tk_send_key (sender l)
     \<and> map fst (sent l) = map int [0..<length (sent l)]
     \<and> tk_next_send_counter (sender l) = int (length (sent l))
     \<and> (\<forall>packet\<in>wire l. \<exists>d. (dp_counter d, dp_plaintext d) \<in> set (sent l)
          \<and> genuine encrypt (tk_send_key (sender l)) packet d)
     \<and> window_rel (tk_replay_window (receiver l)) (set (map (dp_counter \<circ> snd) (got l)))
     \<and> distinct (map (dp_counter \<circ> snd) (got l))
     \<and> (\<forall>x\<in>set (got l). genuine encrypt (tk_send_key (sender l)) (fst x) (snd x))"

lemma decrypt_genuine:
  assumes "aead encrypt decrypt"
  shows "decrypt_packet_without_replay decrypt key packet = Inr d \<longleftrightarrow> genuine encrypt key packet d"
proof (cases "length key = 32")
  case True
  obtain i c p where "d = \<lparr>dp_receiver_index = i, dp_counter = c, dp_plaintext = p\<rparr>" by (cases d)
  then show ?thesis using decrypt_iff_packet_of [OF assms True, of packet i c p] True by (simp add: genuine_def)
next
  case False
  then show ?thesis by (auto simp: decrypt_packet_without_replay_def validate_key_def genuine_def)
qed

lemma genuine_unique:
  assumes "aead encrypt decrypt" "genuine encrypt key packet d" "genuine encrypt key packet d'"
  shows "d = d'"
  using assms decrypt_genuine [OF assms(1)] by (metis Inr_inject)

lemma encrypt_frame_genuine:
  assumes "encrypt_frame encrypt keys p = Inr (packet, keys')"
  shows "genuine encrypt (tk_send_key keys) packet
      \<lparr>dp_receiver_index = tk_remote_receiver_index keys, dp_counter = tk_next_send_counter keys, dp_plaintext = p\<rparr>
    \<and> keys' = keys\<lparr>tk_next_send_counter := tk_next_send_counter keys + 1\<rparr>"
  using assms by (auto simp: encrypt_frame_def rbind_eq_Inr encrypt_frame_with_counter_eq genuine_def)

lemma decrypt_packet_cases:
  assumes "aead encrypt decrypt" and "decrypt_packet decrypt keys packet = (r, keys')"
  shows "(\<exists>e. r = Inl e \<and> keys' = keys) \<or>
    (\<exists>d. r = Inr d \<and> genuine encrypt (tk_receive_key keys) packet d
       \<and> dp_receiver_index d = tk_local_receiver_index keys
       \<and> fst (accept (dp_counter d) (tk_replay_window keys))
       \<and> keys' = keys\<lparr>tk_replay_window := snd (accept (dp_counter d) (tk_replay_window keys))\<rparr>)"
proof (cases "decrypt_packet_without_replay decrypt (tk_receive_key keys) packet")
  case (Inl e)
  then have "r = Inl e" "keys' = keys" using assms(2) by (simp_all add: decrypt_packet_def)
  then show ?thesis by blast
next
  case (Inr d)
  have g: "genuine encrypt (tk_receive_key keys) packet d" using Inr decrypt_genuine [OF assms(1)] by blast
  let ?a = "accept (dp_counter d) (tk_replay_window keys)"
  consider (index) "dp_receiver_index d \<noteq> tk_local_receiver_index keys"
    | (replay) "dp_receiver_index d = tk_local_receiver_index keys" "\<not> fst ?a"
    | (ok) "dp_receiver_index d = tk_local_receiver_index keys" "fst ?a"
    by blast
  then show ?thesis
  proof cases
    case index
    then have "r = Inl (ValueError ''receiver index mismatch'')" "keys' = keys"
      using assms(2) Inr by (simp_all add: decrypt_packet_def)
    then show ?thesis by blast
  next
    case replay
    then have "snd ?a = tk_replay_window keys" by (simp add: accept_rejected)
    then have "r = Inl (ValueError ''replayed transport counter'')" "keys' = keys"
      using assms(2) Inr replay by (simp_all add: decrypt_packet_def case_prod_unfold Let_def)
    then show ?thesis by blast
  next
    case ok
    then have "r = Inr d" "keys' = keys\<lparr>tk_replay_window := snd ?a\<rparr>"
      using assms(2) Inr by (simp_all add: decrypt_packet_def case_prod_unfold Let_def)
    then show ?thesis using g ok by blast
  qed
qed

lemma link_inv_init: "link_inv encrypt (link_init index key back_key)"
  by (simp add: link_inv_def link_init_def new_transport_keys_def window_rel_new)

lemma link_inv_step:
  assumes a: "aead encrypt decrypt" and inv: "link_inv encrypt l" and "link_step encrypt decrypt l l'"
  shows "link_inv encrypt l'"
  using assms(3)
proof (rule link_stepE)
  fix p packet ks
  assume l': "l' = l\<lparr>sender := ks, wire := insert packet (wire l),
      sent := sent l @ [(tk_next_send_counter (sender l), p)]\<rparr>"
    and e: "encrypt_frame encrypt (sender l) p = Inr (packet, ks)"
  let ?d = "\<lparr>dp_receiver_index = tk_remote_receiver_index (sender l),
      dp_counter = tk_next_send_counter (sender l), dp_plaintext = p\<rparr>"
  have g: "genuine encrypt (tk_send_key (sender l)) packet ?d"
      "ks = (sender l)\<lparr>tk_next_send_counter := tk_next_send_counter (sender l) + 1\<rparr>"
    using encrypt_frame_genuine [OF e] by auto
  have "\<exists>d. (dp_counter d, dp_plaintext d) \<in> set (sent l @ [(tk_next_send_counter (sender l), p)])
      \<and> genuine encrypt (tk_send_key (sender l)) q d" if "q \<in> insert packet (wire l)" for q
  proof (cases "q = packet")
    case True
    then show ?thesis using g(1) by (intro exI [of _ ?d]) simp
  next
    case False
    then have "q \<in> wire l" using that by simp
    then obtain d where "(dp_counter d, dp_plaintext d) \<in> set (sent l)"
        "genuine encrypt (tk_send_key (sender l)) q d"
      using inv unfolding link_inv_def by blast
    then show ?thesis by (intro exI [of _ d]) simp
  qed
  then show ?thesis using inv g(2) unfolding l' link_inv_def by simp
next
  fix packet d ks
  assume l': "l' = l\<lparr>receiver := ks, got := got l @ [(packet, d)]\<rparr>"
    and e: "decrypt_packet decrypt (receiver l) packet = (Inr d, ks)"
  have d: "genuine encrypt (tk_receive_key (receiver l)) packet d"
      "fst (accept (dp_counter d) (tk_replay_window (receiver l)))"
      "ks = (receiver l)\<lparr>tk_replay_window := snd (accept (dp_counter d) (tk_replay_window (receiver l)))\<rparr>"
    using decrypt_packet_cases [OF a e] by auto
  have w: "window_rel (tk_replay_window (receiver l)) (set (map (dp_counter \<circ> snd) (got l)))"
    using inv by (simp add: link_inv_def)
  show ?thesis
    using inv d window.fresh [OF w d(2)] window.keeps [OF w, of "dp_counter d"]
    unfolding l' link_inv_def by auto
next
  fix packet e ks
  assume l': "l' = l\<lparr>receiver := ks\<rparr>" and "decrypt_packet decrypt (receiver l) packet = (Inl e, ks)"
  then have "ks = receiver l" using decrypt_packet_cases [OF a] by blast
  with l' show ?thesis using inv by simp
qed

lemma link_inv_reachable:
  assumes "aead encrypt decrypt" and "link_reachable encrypt decrypt (link_init index key back_key) l"
  shows "link_inv encrypt l"
  using assms(2) by induction (auto intro: link_inv_init link_inv_step [OF assms(1)])

lemma decrypt_without_replay_error:
  assumes "length key = 32" and "decrypt_packet_without_replay decrypt key packet = Inl e"
  shows "e = silently_dropped"
proof (cases "length packet < 29")
  case True
  then show ?thesis
    using assms by (simp add: decrypt_packet_without_replay_def validate_key_def const_simps)
next
  case False
  then have "idx packet 0 = Inr (uint (packet ! 0))" by (auto simp: idx_def)
  then show ?thesis
    using False assms nonce_of_slice [of packet]
    by (auto simp: decrypt_packet_without_replay_def validate_key_def const_simps Let_def simp del: idx_total
        split: if_splits option.splits)
qed

section \<open>A concrete AEAD for the witnesses\<close>

definition sample_tag :: bytes where
  "sample_tag = replicate 16 7"

definition sample_encrypt :: aead_encrypt where
  "sample_encrypt key nonce p ad = p @ sample_tag"

definition sample_decrypt :: aead_decrypt where
  "sample_decrypt key nonce c ad =
     (if length c \<ge> 16 \<and> drop (length c - 16) c = sample_tag then Some (take (length c - 16) c) else None)"

lemma sample_aead: "aead sample_encrypt sample_decrypt"
proof -
  have "c = p @ sample_tag" if "length c \<ge> 16" "drop (length c - 16) c = sample_tag" "take (length c - 16) c = p" for c p
    using that append_take_drop_id [of "length c - 16" c] by simp
  then show ?thesis
    by (auto simp: aead_def sample_encrypt_def sample_decrypt_def sample_tag_def)
qed

definition sample_key :: bytes where
  "sample_key = replicate 32 5"

definition sample_sender :: transport_keys where
  "sample_sender = new_transport_keys 9 sample_key (replicate 32 6) None None"

definition sample_receiver :: transport_keys where
  "sample_receiver = new_transport_keys 9 (replicate 32 6) sample_key None None"

lemma sample_encrypts:
  "encrypt_frame sample_encrypt sample_sender [1, 2]
   = Inr (packet_of sample_encrypt 9 sample_key 0 [1, 2], sample_sender\<lparr>tk_next_send_counter := 1\<rparr>)"
  by (simp add: encrypt_frame_def rbind_eq_Inr encrypt_frame_with_counter_eq sample_sender_def
      new_transport_keys_def sample_key_def)

section \<open>Properties\<close>

text \<open>
  C5. Exactly-once transport. Whatever the network does with the packets of one session direction
  (loss, duplication, reordering, injection of arbitrary bytes), every counter is used for at
  most one encryption, every counter is accepted at most once by the receiver, and a packet of
  the sender that is accepted yields exactly the plaintext the sender encrypted under that counter.
\<close>

theorem transport_exactly_once:
  assumes "aead encrypt decrypt"
    and "link_reachable encrypt decrypt (link_init index key back_key) l"
  shows "distinct (map fst (sent l))
    \<and> distinct (map (dp_counter \<circ> snd) (got l))
    \<and> (\<forall>(packet, d)\<in>set (got l). packet \<in> wire l \<longrightarrow> (dp_counter d, dp_plaintext d) \<in> set (sent l))"
proof -
  have inv: "link_inv encrypt l" by (rule link_inv_reachable) fact+
  have "distinct (map fst (sent l))" using inv by (simp add: link_inv_def distinct_map)
  moreover have "(dp_counter d, dp_plaintext d) \<in> set (sent l)"
    if g: "(packet, d) \<in> set (got l)" and w: "packet \<in> wire l" for packet d
  proof -
    have "genuine encrypt (tk_send_key (sender l)) packet d" using inv g by (auto simp: link_inv_def)
    moreover obtain d' where "(dp_counter d', dp_plaintext d') \<in> set (sent l)"
        "genuine encrypt (tk_send_key (sender l)) packet d'"
      using inv w unfolding link_inv_def by blast
    ultimately show ?thesis using genuine_unique [OF assms(1)] by blast
  qed
  ultimately show ?thesis using inv by (auto simp: link_inv_def)
qed

theorem transport_exactly_once_witness:
  "\<exists>l. link_reachable sample_encrypt sample_decrypt (link_init 9 sample_key (replicate 32 6)) l
     \<and> sent l = [(0, [1, 2])] \<and> distinct (map fst (sent l)) \<and> distinct (map (dp_counter \<circ> snd) (got l))"
proof -
  let ?l = "link_init 9 sample_key (replicate 32 6)"
  have e: "encrypt_frame sample_encrypt (sender ?l) [1, 2]
      = Inr (packet_of sample_encrypt 9 sample_key 0 [1, 2], sample_sender\<lparr>tk_next_send_counter := 1\<rparr>)"
    using sample_encrypts by (simp add: link_init_def sample_sender_def)
  have "link_reachable sample_encrypt sample_decrypt ?l ?l" by (rule link_reachable.start)
  from link_reachable.step [OF this link_step.send [OF e]]
  obtain l where r: "link_reachable sample_encrypt sample_decrypt ?l l" and "sent l = [(0, [1, 2])]"
    by (auto simp: link_init_def new_transport_keys_def)
  then show ?thesis using transport_exactly_once [OF sample_aead r] by blast
qed

text \<open>
  C16. Delivery. A frame encrypted for a receiver that holds the matching key and index, whose counter
  the replay window still admits, is decrypted to the identical frame, and presenting the same
  packet a second time is refused as a replay without changing the session.
\<close>

theorem transport_delivers_then_refuses_replay:
  assumes a: "aead encrypt decrypt" and e: "encrypt_frame encrypt s p = Inr (packet, s')"
    and keys: "tk_receive_key r = tk_send_key s" "tk_local_receiver_index r = tk_remote_receiver_index s"
    and rel: "window_rel (tk_replay_window r) seen"
    and fresh: "spec_accept (window_bits (tk_replay_window r)) seen (tk_next_send_counter s)"
  shows "\<exists>r'. decrypt_packet decrypt r packet
      = (Inr \<lparr>dp_receiver_index = tk_remote_receiver_index s, dp_counter = tk_next_send_counter s,
              dp_plaintext = p\<rparr>, r')
    \<and> decrypt_packet decrypt r' packet = (Inl (ValueError ''replayed transport counter''), r')"
proof -
  let ?d = "\<lparr>dp_receiver_index = tk_remote_receiver_index s, dp_counter = tk_next_send_counter s, dp_plaintext = p\<rparr>"
  let ?w = "snd (accept (tk_next_send_counter s) (tk_replay_window r))"
  let ?r = "r\<lparr>tk_replay_window := ?w\<rparr>"
  have g: "decrypt_packet_without_replay decrypt (tk_receive_key r) packet = Inr ?d"
    using encrypt_frame_genuine [OF e] keys(1) by (simp add: decrypt_genuine [OF a])
  have ok: "fst (accept (tk_next_send_counter s) (tk_replay_window r))"
    using accept_refines(1) [OF rel] fresh by simp
  have rel': "window_rel ?w (insert (tk_next_send_counter s) seen)"
    using accept_refines(2) [OF rel, of "tk_next_send_counter s"] ok by simp
  have no: "\<not> fst (accept (tk_next_send_counter s) ?w)"
    using window.fresh [OF rel', of "tk_next_send_counter s"] by blast
  have same: "snd (accept (tk_next_send_counter s) ?w) = ?w"
    using no by (rule accept_rejected)
  have "decrypt_packet decrypt r packet = (Inr ?d, ?r)"
    using g ok keys(2) by (simp add: decrypt_packet_def case_prod_unfold Let_def)
  moreover have "decrypt_packet decrypt ?r packet = (Inl (ValueError ''replayed transport counter''), ?r)"
    using g no same keys(2) by (simp add: decrypt_packet_def case_prod_unfold Let_def)
  ultimately show ?thesis by blast
qed

theorem transport_delivers_then_refuses_replay_witness:
  "\<exists>r'. decrypt_packet sample_decrypt sample_receiver (packet_of sample_encrypt 9 sample_key 0 [1, 2])
      = (Inr \<lparr>dp_receiver_index = 9, dp_counter = 0, dp_plaintext = [1, 2]\<rparr>, r')"
proof -
  have "window_rel (tk_replay_window sample_receiver) {}"
    by (simp add: sample_receiver_def new_transport_keys_def window_rel_new)
  from transport_delivers_then_refuses_replay [OF sample_aead sample_encrypts, of sample_receiver "{}", OF _ _ this]
  show ?thesis
    by (auto simp: sample_receiver_def sample_sender_def new_transport_keys_def spec_accept_def)
qed

text \<open>
  Fail closed. Bytes that are not a packet of this key raise the silent-drop error and leave
  the session unchanged, whatever they are; no other exception can escape.
\<close>

lemma transport_drops_forgeries:
  assumes "aead encrypt decrypt" and "length (tk_receive_key keys) = 32"
    and "\<nexists>d. genuine encrypt (tk_receive_key keys) packet d"
  shows "decrypt_packet decrypt keys packet = (Inl silently_dropped, keys)"
proof (cases "decrypt_packet_without_replay decrypt (tk_receive_key keys) packet")
  case (Inl e)
  then show ?thesis using decrypt_without_replay_error [OF assms(2) Inl] by (simp add: decrypt_packet_def)
next
  case (Inr d)
  then show ?thesis using assms(3) decrypt_genuine [OF assms(1)] by blast
qed

lemma transport_drops_forgeries_witness:
  "decrypt_packet sample_decrypt sample_receiver [1, 2, 3] = (Inl silently_dropped, sample_receiver)"
proof -
  have "\<nexists>d. genuine sample_encrypt (tk_receive_key sample_receiver) [1, 2, 3] d"
    by (auto simp: genuine_def packet_of_def sample_encrypt_def sample_tag_def Let_def
        dest: arg_cong [of _ _ length])
  then show ?thesis
    using transport_drops_forgeries [OF sample_aead, of sample_receiver]
    by (simp add: sample_receiver_def new_transport_keys_def sample_key_def)
qed



end
