(* ===== verification/Sessions.thy ===== *)
theory Sessions
  imports Identity Envelope
begin

text \<open>
  Session keys and session rotation of \<^verbatim>\<open>security/sessions.py\<close>. Times are integers in microseconds
  since the epoch; \<open>seconds n\<close> is \<^verbatim>\<open>timedelta(seconds=n)\<close>. The random draw of
  \<^verbatim>\<open>generate_receiver_index\<close> is the argument \<open>draw\<close>, a value of \<^verbatim>\<open>randbelow(MAX_RECEIVER_INDEX)\<close>.
\<close>

definition seconds :: "int \<Rightarrow> int" where
  "seconds n = n * 1000000"

section \<open>Session state\<close>

definition STATIC_SESSION_TRANSCRIPT_DOMAIN :: bytes where
  "STATIC_SESSION_TRANSCRIPT_DOMAIN = ascii_lit ''GATHERLINK_STATIC_SESSION_V1''"

definition AUTHENTICATED_SESSION_TRANSCRIPT_DOMAIN :: bytes where
  "AUTHENTICATED_SESSION_TRANSCRIPT_DOMAIN = ascii_lit ''GATHERLINK_AUTH_SESSION_CONTEXT_V1''"

definition DEFAULT_REKEY_AFTER_PACKETS :: int where
  [const_simps]: "DEFAULT_REKEY_AFTER_PACKETS = 2 ^ 48"

definition DEFAULT_REKEY_AFTER_BYTES :: int where
  [const_simps]: "DEFAULT_REKEY_AFTER_BYTES = 2 ^ 50"

definition MIN_RECEIVER_INDEX :: int where
  [const_simps]: "MIN_RECEIVER_INDEX = 1"

definition MAX_RECEIVER_INDEX :: int where
  [const_simps]: "MAX_RECEIVER_INDEX = 2 ^ 32 - 1"

datatype session_role = Initiator | Responder

record directional_keys =
  dk_initiator_to_responder :: bytes
  dk_responder_to_initiator :: bytes

record transport_material =
  tm_receiver_index :: int
  tm_send_key :: bytes
  tm_receive_key :: bytes
  tm_local_receiver_index :: int
  tm_remote_receiver_index :: int

record session_plan =
  sp_local_node_id :: ustr
  sp_peer_node_id :: ustr
  sp_topology_generation :: int
  sp_receiver_index :: int
  sp_role :: session_role
  sp_created_at :: int
  sp_expires_at :: int
  sp_rekey_after_packets :: int
  sp_rekey_after_bytes :: int
  sp_security :: "transport_material option"

datatype rotation_action = Keep | Rekey | Reject | Expired

record rotation_decision =
  rd_action :: rotation_action
  rd_reason :: string
  rd_current_receiver_index :: int
  rd_next_receiver_index :: "int option"
  rd_overlap_until :: "int option"

definition should_rekey :: "rotation_decision \<Rightarrow> bool" where
  "should_rekey d \<longleftrightarrow> rd_action d = Rekey"

definition fail_closed :: "rotation_decision \<Rightarrow> bool" where
  "fail_closed d \<longleftrightarrow> rd_action d = Reject \<or> rd_action d = Expired"

definition needs_rekey :: "session_plan \<Rightarrow> int \<Rightarrow> int \<Rightarrow> int \<Rightarrow> bool" where
  "needs_rekey plan now packets bytes_transferred \<longleftrightarrow>
     now \<ge> sp_expires_at plan \<or> packets \<ge> sp_rekey_after_packets plan
     \<or> bytes_transferred \<ge> sp_rekey_after_bytes plan"

section \<open>Key derivation\<close>

definition derive_directional_session_keys :: "crypto \<Rightarrow> bytes \<Rightarrow> bytes \<Rightarrow> directional_keys res" where
  "derive_directional_session_keys cr shared_secret transcript_hash =
     (if length shared_secret \<noteq> 32 then Inl (ValueError ''shared_secret must be 32 bytes'')
      else let derived = hkdf_sha256 cr transcript_hash (ascii_lit ''GATHERLINK_TRANSPORT_KEYS_V1'') shared_secret 64 in
        Inr \<lparr>dk_initiator_to_responder = take 32 derived, dk_responder_to_initiator = drop 32 derived\<rparr>)"

definition static_session_transcript_hash ::
    "crypto \<Rightarrow> bytes \<Rightarrow> bytes \<Rightarrow> bytes \<Rightarrow> bytes \<Rightarrow> bytes \<Rightarrow> bytes res" where
  "static_session_transcript_hash cr initiator_node_id responder_node_id initiator_x responder_x context =
     (if length initiator_node_id \<noteq> 32 then Inl (ValueError ''initiator_node_id must be 32 bytes'')
      else if length responder_node_id \<noteq> 32 then Inl (ValueError ''responder_node_id must be 32 bytes'')
      else if length initiator_x \<noteq> 32 then Inl (ValueError ''initiator_x25519_public must be 32 bytes'')
      else if length responder_x \<noteq> 32 then Inl (ValueError ''responder_x25519_public must be 32 bytes'')
      else Inr (sha256 cr (STATIC_SESSION_TRANSCRIPT_DOMAIN @ initiator_node_id @ responder_node_id
                           @ initiator_x @ responder_x @ context)))"

definition derive_static_transport_security ::
    "crypto \<Rightarrow> node_identity \<Rightarrow> identity_public \<Rightarrow> session_role \<Rightarrow> int \<Rightarrow> bytes \<Rightarrow> transport_material res" where
  "derive_static_transport_security cr local_identity peer_identity role receiver_index context =
     (if receiver_index < 0 \<or> receiver_index \<ge> 2 ^ 32 then Inl (ValueError ''receiver_index must fit u32'')
      else rbind (public_bytes peer_identity) (\<lambda>(peer_node_id, _, peer_x).
        if peer_node_id = ni_node_id local_identity
        then Inl (ValueError ''peer identity must not be the local identity'')
        else
          let (i_node, r_node, i_x, r_x) =
                (case role of
                   Initiator \<Rightarrow> (ni_node_id local_identity, peer_node_id, ni_x25519_public local_identity, peer_x)
                 | Responder \<Rightarrow> (peer_node_id, ni_node_id local_identity, peer_x, ni_x25519_public local_identity)) in
          rbind (static_session_transcript_hash cr i_node r_node i_x r_x context) (\<lambda>transcript_hash.
          rbind (x25519_shared_secret cr (ni_x25519_private local_identity) peer_x) (\<lambda>shared_secret.
          rbind (derive_directional_session_keys cr shared_secret transcript_hash) (\<lambda>keys.
            let (send_key, receive_key) =
                  (case role of
                     Initiator \<Rightarrow> (dk_initiator_to_responder keys, dk_responder_to_initiator keys)
                   | Responder \<Rightarrow> (dk_responder_to_initiator keys, dk_initiator_to_responder keys)) in
            Inr \<lparr>tm_receiver_index = receiver_index, tm_send_key = send_key, tm_receive_key = receive_key,
                 tm_local_receiver_index = receiver_index, tm_remote_receiver_index = receiver_index\<rparr>)))))"

section \<open>Rotation policy\<close>

definition next_receiver_index :: "int \<Rightarrow> int" where
  "next_receiver_index v = (if v \<ge> MAX_RECEIVER_INDEX then MIN_RECEIVER_INDEX else v + 1)"

definition generate_receiver_index :: "int \<Rightarrow> int" where
  "generate_receiver_index draw = draw + MIN_RECEIVER_INDEX"

record rotation_request =
  rr_now :: int
  rr_packets :: int
  rr_bytes :: int
  rr_observed_generation :: "int option"
  rr_observed_peer :: "ustr option"
  rr_margin_seconds :: int
  rr_overlap_seconds :: int
  rr_next_index :: "int option"

definition decision :: "rotation_action \<Rightarrow> string \<Rightarrow> session_plan \<Rightarrow> rotation_decision" where
  "decision action reason plan =
     \<lparr>rd_action = action, rd_reason = reason, rd_current_receiver_index = sp_receiver_index plan,
      rd_next_receiver_index = None, rd_overlap_until = None\<rparr>"

definition plan_session_rotation :: "session_plan \<Rightarrow> rotation_request \<Rightarrow> int \<Rightarrow> rotation_decision res" where
  "plan_session_rotation current req draw =
     (if rr_observed_generation req \<noteq> None \<and> rr_observed_generation req \<noteq> Some (sp_topology_generation current)
      then Inr (decision Reject ''peer topology generation disagrees with local session'' current)
      else if rr_observed_peer req \<noteq> None \<and> rr_observed_peer req \<noteq> Some (sp_peer_node_id current)
      then Inr (decision Reject ''peer identity disagrees with local session'' current)
      else if rr_now req \<ge> sp_expires_at current
      then Inr (decision Expired ''session expired before replacement completed'' current)
      else if rr_margin_seconds req < 0 then Inl (ValueError ''rekey margin must be zero or greater'')
      else if rr_overlap_seconds req < 0 then Inl (ValueError ''overlap seconds must be zero or greater'')
      else
        let rekey_at = sp_expires_at current - seconds (rr_margin_seconds req);
            volume_rekey = rr_packets req \<ge> sp_rekey_after_packets current
                           \<or> rr_bytes req \<ge> sp_rekey_after_bytes current in
        if rr_now req \<ge> rekey_at \<or> volume_rekey then
          let drawn = (case rr_next_index req of Some i \<Rightarrow> i | None \<Rightarrow> generate_receiver_index draw);
              replacement = (if drawn = sp_receiver_index current then next_receiver_index drawn else drawn) in
          Inr ((decision Rekey (if rr_now req \<ge> rekey_at then ''session is within rekey margin''
                                else ''session volume limit reached'') current)
               \<lparr>rd_next_receiver_index := Some replacement,
                rd_overlap_until := Some (rr_now req + seconds (rr_overlap_seconds req))\<rparr>)
        else Inr (decision Keep ''session remains within time and volume limits'' current))"

section \<open>Topology-bound sessions\<close>

fun decimal_digits :: "nat \<Rightarrow> ustr" where
  "decimal_digits n = (if n < 10 then [48 + n] else decimal_digits (n div 10) @ [48 + n mod 10])"

declare decimal_digits.simps [simp del]

definition str_of_int :: "int \<Rightarrow> ustr" where
  "str_of_int i = (if i < 0 then 45 # decimal_digits (nat (- i)) else decimal_digits (nat i))"

definition ascii_encode :: "ustr \<Rightarrow> bytes res" where
  "ascii_encode s = (if \<exists>c\<in>set s. c \<ge> 128 then Inl UnicodeEncodeError else Inr (map byte_of s))"

definition session_context_bytes :: "topology \<Rightarrow> ustr \<Rightarrow> ustr \<Rightarrow> bytes res" where
  "session_context_bytes topo initiator_node_id responder_node_id =
     rbind (ascii_encode (str_of_int (tb_generation topo))) (\<lambda>g.
     rbind (ascii_encode (tb_issuer_node_id topo)) (\<lambda>issuer.
     rbind (ascii_encode initiator_node_id) (\<lambda>i.
     rbind (ascii_encode responder_node_id) (\<lambda>r.
       Inr (AUTHENTICATED_SESSION_TRANSCRIPT_DOMAIN @ g @ issuer @ i @ r)))))"

definition authenticated_session_context :: "crypto \<Rightarrow> topology \<Rightarrow> ustr \<Rightarrow> ustr \<Rightarrow> bytes res" where
  "authenticated_session_context cr topo initiator_node_id responder_node_id =
     rbind (session_context_bytes topo initiator_node_id responder_node_id) (\<lambda>bs. Inr (sha256 cr bs))"

definition require_topology_member :: "topology \<Rightarrow> identity_public \<Rightarrow> unit res" where
  "require_topology_member topo ident =
     (if ip_node_id ident \<in> set (tb_revoked_node_ids topo) then Inl (ValueError ''identity is revoked by topology'')
      else if \<not> list_ex (\<lambda>n. ip_node_id (pn_identity n) = ip_node_id ident) (tb_nodes topo)
      then Inl (ValueError ''identity is not present in topology'')
      else Inr ())"

definition plan_authenticated_static_session ::
    "crypto \<Rightarrow> node_identity \<Rightarrow> identity_public \<Rightarrow> topology \<Rightarrow> session_role \<Rightarrow> int \<Rightarrow> int \<Rightarrow> int
     \<Rightarrow> session_plan res" where
  "plan_authenticated_static_session cr local_identity peer_identity topo role receiver_index now lifetime_seconds =
     (if lifetime_seconds \<le> 0 then Inl (ValueError ''session lifetime must be positive'')
      else
        let local_public = public_of_identity local_identity in
        rbind (require_topology_member topo local_public) (\<lambda>_.
        rbind (require_topology_member topo peer_identity) (\<lambda>_.
          let (i_node, r_node) =
                (if role = Initiator then (ip_node_id local_public, ip_node_id peer_identity)
                 else (ip_node_id peer_identity, ip_node_id local_public)) in
          rbind (authenticated_session_context cr topo i_node r_node) (\<lambda>context.
          rbind (derive_static_transport_security cr local_identity peer_identity role receiver_index context)
            (\<lambda>security.
              Inr \<lparr>sp_local_node_id = ip_node_id local_public, sp_peer_node_id = ip_node_id peer_identity,
                   sp_topology_generation = tb_generation topo, sp_receiver_index = receiver_index,
                   sp_role = role, sp_created_at = now, sp_expires_at = now + seconds lifetime_seconds,
                   sp_rekey_after_packets = DEFAULT_REKEY_AFTER_PACKETS,
                   sp_rekey_after_bytes = DEFAULT_REKEY_AFTER_BYTES, sp_security = Some security\<rparr>)))))"

section \<open>Lemmas\<close>

lemma transcript_hash_ok:
  "length a = 32 \<Longrightarrow> length b = 32 \<Longrightarrow> length c = 32 \<Longrightarrow> length d = 32 \<Longrightarrow>
   static_session_transcript_hash cr a b c d context
     = Inr (sha256 cr (STATIC_SESSION_TRANSCRIPT_DOMAIN @ a @ b @ c @ d @ context))"
  by (simp add: static_session_transcript_hash_def)

text \<open>The key block both roles compute, as a function of the agreed secret and the ordered transcript.\<close>

definition session_key_block :: "crypto \<Rightarrow> bytes \<Rightarrow> bytes \<Rightarrow> bytes \<Rightarrow> bytes \<Rightarrow> bytes \<Rightarrow> bytes \<Rightarrow> bytes" where
  "session_key_block cr secret i_node r_node i_x r_x context =
     hkdf_sha256 cr (sha256 cr (STATIC_SESSION_TRANSCRIPT_DOMAIN @ i_node @ r_node @ i_x @ r_x @ context))
       (ascii_lit ''GATHERLINK_TRANSPORT_KEYS_V1'') secret 64"

lemma derive_static_ok:
  assumes "crypto_ok cr" "identity_wf cr l" "public_bytes peer = Inr (pn, pe, px)" "pn \<noteq> ni_node_id l"
    and "0 \<le> index" "index < 2 ^ 32" "x25519_exchange cr (ni_x25519_private l) px = Some secret"
  shows "derive_static_transport_security cr l peer role index context = Inr
    (case role of
       Initiator \<Rightarrow> let b = session_key_block cr secret (ni_node_id l) pn (ni_x25519_public l) px context in
         \<lparr>tm_receiver_index = index, tm_send_key = take 32 b, tm_receive_key = drop 32 b,
          tm_local_receiver_index = index, tm_remote_receiver_index = index\<rparr>
     | Responder \<Rightarrow> let b = session_key_block cr secret pn (ni_node_id l) px (ni_x25519_public l) context in
         \<lparr>tm_receiver_index = index, tm_send_key = drop 32 b, tm_receive_key = take 32 b,
          tm_local_receiver_index = index, tm_remote_receiver_index = index\<rparr>)"
proof -
  have "length secret = 32" using assms(1,7) by (simp add: crypto_ok_def)
  then show ?thesis
    using assms identity_wf_facts [OF assms(1,2)] public_bytes_lengths [OF assms(3)]
    by (cases role)
      (simp_all add: derive_static_transport_security_def transcript_hash_ok x25519_shared_secret_def
        derive_directional_session_keys_def session_key_block_def of_option_def Let_def)
qed

lemma exchange_symmetric:
  assumes "crypto_ok cr" "identity_wf cr a" "identity_wf cr b"
  shows "x25519_exchange cr (ni_x25519_private a) (ni_x25519_public b)
       = x25519_exchange cr (ni_x25519_private b) (ni_x25519_public a)"
  using assms(1) identity_wf_facts(4) [OF assms(1,2)] identity_wf_facts(4) [OF assms(1,3)]
  unfolding crypto_ok_def by blast

lemma static_pair:
  assumes cr: "crypto_ok cr" and a: "identity_wf cr a" and b: "identity_wf cr b"
    and "ni_node_id a \<noteq> ni_node_id b" "0 \<le> index" "index < 2 ^ 32"
    and secret: "x25519_exchange cr (ni_x25519_private a) (ni_x25519_public b) = Some secret"
  shows "\<exists>ma mb. derive_static_transport_security cr a (public_of_identity b) Initiator index context = Inr ma
    \<and> derive_static_transport_security cr b (public_of_identity a) Responder index context = Inr mb
    \<and> tm_send_key ma = tm_receive_key mb \<and> tm_receive_key ma = tm_send_key mb
    \<and> tm_remote_receiver_index ma = tm_local_receiver_index mb
    \<and> tm_remote_receiver_index mb = tm_local_receiver_index ma
    \<and> length (tm_send_key ma) = 32 \<and> length (tm_receive_key ma) = 32"
proof -
  have len: "length (session_key_block cr secret i r ix rx context) = 64" for i r ix rx
    using cr by (simp add: session_key_block_def crypto_ok_def)
  have sb: "x25519_exchange cr (ni_x25519_private b) (ni_x25519_public a) = Some secret"
    using secret exchange_symmetric [OF cr a b] by simp
  show ?thesis
    using derive_static_ok [OF cr a public_bytes_of_identity [OF cr b] _ assms(5,6) secret, of Initiator "context"]
      derive_static_ok [OF cr b public_bytes_of_identity [OF cr a] _ assms(5,6) sb, of Responder "context"]
      assms(4) len
    by (auto simp: Let_def)
qed

lemma require_member_iff:
  "require_topology_member topo ident = Inr () \<longleftrightarrow>
     ip_node_id ident \<in> set (topology_node_ids topo) \<and> ip_node_id ident \<notin> set (tb_revoked_node_ids topo)"
  by (force simp: require_topology_member_def topology_node_ids_def list_ex_iff)

lemma plan_Inr:
  "plan_authenticated_static_session cr l peer topo role index now life = Inr plan \<longleftrightarrow>
     (\<exists>context m. life > 0
       \<and> require_topology_member topo (public_of_identity l) = Inr ()
       \<and> require_topology_member topo peer = Inr ()
       \<and> authenticated_session_context cr topo
            (ip_node_id (if role = Initiator then public_of_identity l else peer))
            (ip_node_id (if role = Initiator then peer else public_of_identity l)) = Inr context
       \<and> derive_static_transport_security cr l peer role index context = Inr m
       \<and> plan = \<lparr>sp_local_node_id = ip_node_id (public_of_identity l), sp_peer_node_id = ip_node_id peer,
                 sp_topology_generation = tb_generation topo, sp_receiver_index = index,
                 sp_role = role, sp_created_at = now, sp_expires_at = now + seconds life,
                 sp_rekey_after_packets = DEFAULT_REKEY_AFTER_PACKETS,
                 sp_rekey_after_bytes = DEFAULT_REKEY_AFTER_BYTES, sp_security = Some m\<rparr>)"
  by (cases "role = Initiator")
    (auto simp: plan_authenticated_static_session_def rbind_eq_Inr Let_def split: if_splits)

section \<open>Injectivity of the session context\<close>

definition digits_value :: "ustr \<Rightarrow> nat" where
  "digits_value ds = foldl (\<lambda>acc d. acc * 10 + (d - 48)) 0 ds"

lemma digits_value_decimal: "digits_value (decimal_digits n) = n"
proof (induction n rule: decimal_digits.induct)
  case (1 n)
  then show ?case by (subst decimal_digits.simps) (simp add: digits_value_def)
qed

lemma decimal_digits_range: "d \<in> set (decimal_digits n) \<Longrightarrow> 48 \<le> d \<and> d < 58"
proof (induction n rule: decimal_digits.induct)
  case (1 n)
  then show ?case by (subst (asm) (2) decimal_digits.simps) (auto split: if_splits)
qed

lemma str_of_int_inj:
  assumes "0 \<le> i" "0 \<le> j" "str_of_int i = str_of_int j"
  shows "i = j"
proof -
  have "decimal_digits (nat i) = decimal_digits (nat j)" using assms by (simp add: str_of_int_def)
  then have "digits_value (decimal_digits (nat i)) = digits_value (decimal_digits (nat j))" by (rule arg_cong)
  then show ?thesis using assms(1,2) unfolding digits_value_decimal by simp
qed

lemma byte_of_inj:
  assumes "c < 256" "d < 256" "byte_of c = byte_of d"
  shows "c = d"
proof -
  have "unat (byte_of c) = unat (byte_of d)" by (rule arg_cong) fact
  then show ?thesis using assms(1,2) by simp
qed

lemma ascii_encode_inj:
  assumes "ascii_encode s = Inr bs" "ascii_encode t = Inr bs"
  shows "s = t"
proof -
  have r: "\<forall>c\<in>set s. c < 256" "\<forall>c\<in>set t. c < 256" "map byte_of s = map byte_of t"
    using assms by (fastforce simp: ascii_encode_def split: if_splits)+
  then show ?thesis by (auto intro!: map_inj_on [OF r(3)] inj_onI byte_of_inj)
qed

lemma ascii_encode_length: "ascii_encode s = Inr bs \<Longrightarrow> length bs = length s"
  by (auto simp: ascii_encode_def split: if_splits)

lemma session_context_split:
  assumes "session_context_bytes t i r = Inr bs"
  obtains g u v w where "ascii_encode (str_of_int (tb_generation t)) = Inr g"
    "ascii_encode (tb_issuer_node_id t) = Inr u" "ascii_encode i = Inr v" "ascii_encode r = Inr w"
    "bs = AUTHENTICATED_SESSION_TRANSCRIPT_DOMAIN @ g @ u @ v @ w"
  using assms by (auto simp: session_context_bytes_def rbind_eq_Inr)

section \<open>Properties\<close>

text \<open>
  C9. Key agreement. Two distinct nodes that derive static transport security from each other's
  public records, one as initiator and one as responder, both succeed and obtain inverse keys:
  what one sends with, the other receives with, in both directions, with 32-byte keys and
  matching receiver indexes.
\<close>

theorem static_session_keys_inverse:
  assumes "crypto_ok cr" "identity_wf cr a" "identity_wf cr b" "ni_node_id a \<noteq> ni_node_id b"
    and "0 \<le> index" "index < 2 ^ 32"
    and "x25519_exchange cr (ni_x25519_private a) (ni_x25519_public b) = Some secret"
  shows "\<exists>ma mb. derive_static_transport_security cr a (public_of_identity b) Initiator index context = Inr ma
    \<and> derive_static_transport_security cr b (public_of_identity a) Responder index context = Inr mb
    \<and> tm_send_key ma = tm_receive_key mb \<and> tm_receive_key ma = tm_send_key mb
    \<and> tm_remote_receiver_index ma = tm_local_receiver_index mb
    \<and> tm_remote_receiver_index mb = tm_local_receiver_index ma
    \<and> length (tm_send_key ma) = 32 \<and> length (tm_receive_key ma) = 32"
  using assms by (rule static_pair)

lemma sample_identities:
  "identity_wf sample_crypto (sample_identity 3)" "identity_wf sample_crypto (sample_identity 5)"
  "ni_node_id (sample_identity 3) \<noteq> ni_node_id (sample_identity 5)"
proof -
  show "identity_wf sample_crypto (sample_identity 3)" "identity_wf sample_crypto (sample_identity 5)"
    by (rule from_private_keys_wf [OF sample_identity_keys])+
  show "ni_node_id (sample_identity 3) \<noteq> ni_node_id (sample_identity 5)" by (simp add: sample_identity_def)
qed

lemma sample_exchange:
  "x25519_exchange sample_crypto (ni_x25519_private (sample_identity 3)) (ni_x25519_public (sample_identity 5))
     = Some (replicate 32 10)"
  by (simp add: sample_crypto_def sample_identity_def)

theorem static_session_keys_inverse_witness:
  "\<exists>ma mb. derive_static_transport_security sample_crypto (sample_identity 3)
        (public_of_identity (sample_identity 5)) Initiator 9 [] = Inr ma
    \<and> derive_static_transport_security sample_crypto (sample_identity 5)
        (public_of_identity (sample_identity 3)) Responder 9 [] = Inr mb
    \<and> tm_send_key ma = tm_receive_key mb"
  using static_session_keys_inverse [OF sample_crypto_ok sample_identities _ _ sample_exchange, of 9 "[]"]
  by auto

text \<open>
  C14. Rotation policy. The decision is fail-closed exactly on a generation or identity disagreement
  or after expiry; otherwise it asks for a rekey exactly inside the margin or at a volume limit.
  A rekey names a replacement index different from the current one and inside the u32 range,
  and an overlap that starts now; no other decision names an index.
\<close>

theorem session_rotation_policy:
  assumes "plan_session_rotation current req draw = Inr d"
    and "0 \<le> draw" "draw < MAX_RECEIVER_INDEX"
    and "\<forall>i. rr_next_index req = Some i \<longrightarrow> 1 \<le> i \<and> i \<le> MAX_RECEIVER_INDEX"
  shows "(fail_closed d \<longleftrightarrow>
            rr_observed_generation req \<notin> {None, Some (sp_topology_generation current)}
            \<or> rr_observed_peer req \<notin> {None, Some (sp_peer_node_id current)}
            \<or> rr_now req \<ge> sp_expires_at current)
    \<and> (should_rekey d \<longleftrightarrow> \<not> fail_closed d
          \<and> (rr_now req \<ge> sp_expires_at current - seconds (rr_margin_seconds req)
             \<or> rr_packets req \<ge> sp_rekey_after_packets current
             \<or> rr_bytes req \<ge> sp_rekey_after_bytes current))
    \<and> (if should_rekey d
        then \<exists>n. rd_next_receiver_index d = Some n \<and> n \<noteq> sp_receiver_index current
               \<and> 1 \<le> n \<and> n < 2 ^ 32
               \<and> rd_overlap_until d = Some (rr_now req + seconds (rr_overlap_seconds req))
        else rd_next_receiver_index d = None \<and> rd_overlap_until d = None)"
proof -
  define drawn where "drawn = (case rr_next_index req of Some i \<Rightarrow> i | None \<Rightarrow> generate_receiver_index draw)"
  have r: "1 \<le> drawn" "drawn < 2 ^ 32"
    using assms(2-4) by (auto simp: drawn_def generate_receiver_index_def const_simps split: option.splits)
  then have n: "1 \<le> next_receiver_index drawn" "next_receiver_index drawn < 2 ^ 32" "next_receiver_index drawn \<noteq> drawn"
    by (auto simp: next_receiver_index_def const_simps)
  let ?gen = "rr_observed_generation req \<notin> {None, Some (sp_topology_generation current)}"
  let ?peer = "rr_observed_peer req \<notin> {None, Some (sp_peer_node_id current)}"
  let ?exp = "rr_now req \<ge> sp_expires_at current"
  let ?due = "rr_now req \<ge> sp_expires_at current - seconds (rr_margin_seconds req)
      \<or> rr_packets req \<ge> sp_rekey_after_packets current \<or> rr_bytes req \<ge> sp_rekey_after_bytes current"
  consider (closed) "?gen \<or> ?peer \<or> ?exp" | (rekey) "\<not> (?gen \<or> ?peer \<or> ?exp)" ?due
    | (keep) "\<not> (?gen \<or> ?peer \<or> ?exp)" "\<not> ?due" by blast
  then show ?thesis
  proof cases
    case closed
    then have "fail_closed d" "rd_next_receiver_index d = None" "rd_overlap_until d = None"
      using assms(1) by (auto simp: plan_session_rotation_def decision_def fail_closed_def split: if_split_asm)
    then show ?thesis using closed by (auto simp: fail_closed_def should_rekey_def)
  next
    case rekey
    then obtain reason where "d = (decision Rekey reason current)
        \<lparr>rd_next_receiver_index := Some (if drawn = sp_receiver_index current then next_receiver_index drawn else drawn),
         rd_overlap_until := Some (rr_now req + seconds (rr_overlap_seconds req))\<rparr>"
      using assms(1) unfolding plan_session_rotation_def Let_def drawn_def [symmetric]
      by (auto split: if_split_asm)
    then show ?thesis using rekey r n by (auto simp: decision_def fail_closed_def should_rekey_def)
  next
    case keep
    then have "d = decision Keep ''session remains within time and volume limits'' current"
      using assms(1) by (auto simp: plan_session_rotation_def Let_def split: if_split_asm)
    then show ?thesis using keep by (auto simp: decision_def fail_closed_def should_rekey_def)
  qed
qed

definition sample_plan :: session_plan where
  "sample_plan = \<lparr>sp_local_node_id = [65], sp_peer_node_id = [66], sp_topology_generation = 4,
     sp_receiver_index = 2 ^ 32 - 1, sp_role = Initiator, sp_created_at = 0, sp_expires_at = seconds 120,
     sp_rekey_after_packets = DEFAULT_REKEY_AFTER_PACKETS, sp_rekey_after_bytes = DEFAULT_REKEY_AFTER_BYTES,
     sp_security = None\<rparr>"

definition sample_request :: rotation_request where
  "sample_request = \<lparr>rr_now = seconds 100, rr_packets = 5, rr_bytes = 900, rr_observed_generation = Some 4,
     rr_observed_peer = None, rr_margin_seconds = 30, rr_overlap_seconds = 10, rr_next_index = None\<rparr>"

theorem session_rotation_policy_witness:
  "\<exists>d. plan_session_rotation sample_plan sample_request (2 ^ 32 - 2) = Inr d \<and> should_rekey d
     \<and> rd_next_receiver_index d = Some 1"
proof -
  let ?d = "(decision Rekey ''session is within rekey margin'' sample_plan)
    \<lparr>rd_next_receiver_index := Some 1, rd_overlap_until := Some (seconds 110)\<rparr>"
  have p: "plan_session_rotation sample_plan sample_request (2 ^ 32 - 2) = Inr ?d"
    by (simp add: plan_session_rotation_def sample_plan_def sample_request_def seconds_def const_simps
        generate_receiver_index_def next_receiver_index_def decision_def)
  have "should_rekey ?d"
    using session_rotation_policy [OF p]
    by (simp add: sample_plan_def sample_request_def seconds_def const_simps fail_closed_def should_rekey_def decision_def)
  then show ?thesis using p by simp
qed

text \<open>
  C18. Authenticated sessions fail closed. A session plan exists only when the lifetime is positive and
  both nodes are members of the verified topology and not revoked by it; the plan then expires
  strictly after its creation, does not ask for a rekey at once, and carries 32-byte keys.
\<close>

theorem authenticated_session_sound:
  assumes "crypto_ok cr"
    and "plan_authenticated_static_session cr l peer topo role index now life = Inr plan"
  shows "ip_node_id peer \<in> set (topology_node_ids topo) \<and> ip_node_id peer \<notin> set (tb_revoked_node_ids topo)
    \<and> sp_local_node_id plan \<in> set (topology_node_ids topo)
    \<and> sp_local_node_id plan \<notin> set (tb_revoked_node_ids topo)
    \<and> sp_expires_at plan > sp_created_at plan \<and> \<not> needs_rekey plan now 0 0
    \<and> (\<exists>m. sp_security plan = Some m \<and> length (tm_send_key m) = 32 \<and> length (tm_receive_key m) = 32)"
proof -
  obtain ctx m where p: "life > 0" "require_topology_member topo (public_of_identity l) = Inr ()"
      "require_topology_member topo peer = Inr ()" "derive_static_transport_security cr l peer role index ctx = Inr m"
      and plan: "sp_security plan = Some m" "sp_created_at plan = now" "sp_expires_at plan = now + seconds life"
        "sp_local_node_id plan = ip_node_id (public_of_identity l)"
        "sp_rekey_after_packets plan = DEFAULT_REKEY_AFTER_PACKETS" "sp_rekey_after_bytes plan = DEFAULT_REKEY_AFTER_BYTES"
    using assms(2) unfolding plan_Inr by auto
  have "length (tm_send_key m) = 32 \<and> length (tm_receive_key m) = 32"
    using p(4) assms(1)
    by (cases role) (auto simp: derive_static_transport_security_def derive_directional_session_keys_def Let_def
        rbind_eq_Inr crypto_ok_def split: if_splits prod.splits)
  then show ?thesis
    using p(1-3) plan by (auto simp: require_member_iff needs_rekey_def seconds_def const_simps)
qed

definition sample_topology :: topology where
  "sample_topology = \<lparr>tb_schema_version = 1, tb_generation = 4, tb_issuer_node_id = str_lit ''issuer'',
     tb_valid_from = 0, tb_valid_until = None,
     tb_nodes = [\<lparr>pn_name = str_lit ''a'', pn_identity = public_of_identity (sample_identity 3), pn_roles = [RoleNode]\<rparr>,
                 \<lparr>pn_name = str_lit ''b'', pn_identity = public_of_identity (sample_identity 5), pn_roles = [RoleRelay]\<rparr>],
     tb_services = [], tb_revoked_node_ids = []\<rparr>"

lemma ascii_encode_b64: "ascii_encode (b64encode bs) = Inr (map byte_of (b64encode bs))"
  using b64encode_ascii by (fastforce simp: ascii_encode_def not_less [symmetric])

lemma sample_context: "\<exists>c. authenticated_session_context cr sample_topology (b64encode a) (b64encode b) = Inr c"
proof -
  obtain u g where "ascii_encode (str_lit ''issuer'') = Inr u" "ascii_encode (str_of_int 4) = Inr g"
    by (simp add: ascii_encode_def str_lit_def str_of_int_def decimal_digits.simps)
  then show ?thesis
    by (simp add: authenticated_session_context_def session_context_bytes_def ascii_encode_b64 sample_topology_def)
qed

lemma sample_members:
  "require_topology_member sample_topology (public_of_identity (sample_identity 3)) = Inr ()"
  "require_topology_member sample_topology (public_of_identity (sample_identity 5)) = Inr ()"
  by (simp_all add: require_topology_member_def sample_topology_def)

lemma sample_session:
  "\<exists>plan. plan_authenticated_static_session sample_crypto (sample_identity 3) (public_of_identity (sample_identity 5))
     sample_topology Initiator 9 1000 120 = Inr plan"
proof -
  have pub: "ip_node_id (public_of_identity i) = b64encode (ni_node_id i)" for i
    by (simp add: public_of_identity_def)
  obtain c where c: "authenticated_session_context sample_crypto sample_topology
      (b64encode (ni_node_id (sample_identity 3))) (b64encode (ni_node_id (sample_identity 5))) = Inr c"
    using sample_context by blast
  obtain m where "derive_static_transport_security sample_crypto (sample_identity 3)
      (public_of_identity (sample_identity 5)) Initiator 9 c = Inr m"
    using static_pair [OF sample_crypto_ok sample_identities _ _ sample_exchange, of 9 c] by auto
  then show ?thesis using c sample_members by (auto simp: plan_Inr pub)
qed

theorem authenticated_session_sound_witness:
  "\<exists>plan. plan_authenticated_static_session sample_crypto (sample_identity 3) (public_of_identity (sample_identity 5))
     sample_topology Initiator 9 1000 120 = Inr plan \<and> \<not> needs_rekey plan 1000 0 0"
  using sample_session authenticated_session_sound [OF sample_crypto_ok] by blast

text \<open>
  C19. The context that binds a session to its topology is unambiguous: for node ids of the fixed length
  of a base64-coded hash, two equal context byte strings agree on generation, issuer, initiator
  and responder, although the source concatenates the fields without separators.
\<close>

theorem session_context_injective:
  assumes "session_context_bytes t i r = Inr bs" "session_context_bytes t' i' r' = Inr bs"
    and "0 \<le> tb_generation t" "0 \<le> tb_generation t'"
    and "length (tb_issuer_node_id t) = 44" "length (tb_issuer_node_id t') = 44"
    and "length i = 44" "length i' = 44" "length r = 44" "length r' = 44"
  shows "tb_generation t = tb_generation t' \<and> tb_issuer_node_id t = tb_issuer_node_id t' \<and> i = i' \<and> r = r'"
proof -
  from assms(1) obtain g u v w where 1: "ascii_encode (str_of_int (tb_generation t)) = Inr g"
    "ascii_encode (tb_issuer_node_id t) = Inr u" "ascii_encode i = Inr v" "ascii_encode r = Inr w"
    "bs = AUTHENTICATED_SESSION_TRANSCRIPT_DOMAIN @ g @ u @ v @ w" by (rule session_context_split)
  from assms(2) obtain g' u' v' w' where 2: "ascii_encode (str_of_int (tb_generation t')) = Inr g'"
    "ascii_encode (tb_issuer_node_id t') = Inr u'" "ascii_encode i' = Inr v'" "ascii_encode r' = Inr w'"
    "bs = AUTHENTICATED_SESSION_TRANSCRIPT_DOMAIN @ g' @ u' @ v' @ w'" by (rule session_context_split)
  have l: "length u = 44" "length v = 44" "length w = 44" "length u' = 44" "length v' = 44" "length w' = 44"
    using 1(2-4) 2(2-4) assms(5-) ascii_encode_length by auto
  have e: "g @ u @ v @ w = g' @ u' @ v' @ w'" using 1(5) 2(5) by simp
  then have "length g = length g'" using l by (metis add_right_cancel length_append)
  then have "g = g' \<and> u = u' \<and> v = v' \<and> w = w'" using e l by auto
  then show ?thesis using 1(1-4) 2(1-4) ascii_encode_inj str_of_int_inj [OF assms(3,4)] by blast
qed

theorem session_context_injective_witness:
  "\<exists>bs. session_context_bytes (sample_topology\<lparr>tb_issuer_node_id := replicate 44 49\<rparr>) (replicate 44 65) (replicate 44 66) = Inr bs
    \<and> (\<forall>t'. session_context_bytes t' (replicate 44 67) (replicate 44 66) = Inr bs \<and> 0 \<le> tb_generation t'
          \<longrightarrow> length (tb_issuer_node_id t') \<noteq> 44)"
proof -
  let ?t = "sample_topology\<lparr>tb_issuer_node_id := replicate 44 49\<rparr>"
  obtain bs where bs: "session_context_bytes ?t (replicate 44 65) (replicate 44 66) = Inr bs"
    by (simp add: session_context_bytes_def sample_topology_def ascii_encode_def str_of_int_def decimal_digits.simps)
  have "0 \<le> tb_generation ?t" "length (tb_issuer_node_id ?t) = 44" by (simp_all add: sample_topology_def)
  then show ?thesis
    using bs session_context_injective [OF bs, of _ "replicate 44 67" "replicate 44 66"] by auto
qed

text \<open>
  C23. Membership is checked by node id only. If a session with a member is planned, it is planned just
  as well with a record that carries that member's node id and a different X25519 key, so the
  caller must have authenticated the record itself.
\<close>

theorem peer_key_not_bound_to_topology:
  assumes "crypto_ok cr" "identity_wf cr l" "identity_wf cr b"
    and "plan_authenticated_static_session cr l (public_of_identity b) topo role index now life = Inr plan"
    and "length k = 32" "x25519_exchange cr (ni_x25519_private l) k = Some secret"
  shows "\<exists>plan'. plan_authenticated_static_session cr l
      ((public_of_identity b)\<lparr>ip_x25519_public := b64encode k\<rparr>) topo role index now life = Inr plan'
    \<and> sp_peer_node_id plan' = sp_peer_node_id plan \<and> sp_topology_generation plan' = sp_topology_generation plan"
proof -
  let ?rogue = "(public_of_identity b)\<lparr>ip_x25519_public := b64encode k\<rparr>"
  have id: "ip_node_id ?rogue = ip_node_id (public_of_identity b)" by simp
  have pb: "public_bytes ?rogue = Inr (ni_node_id b, ni_ed25519_public b, k)"
    using identity_wf_facts [OF assms(1,3)] assms(5)
    by (simp add: public_bytes_def public_of_identity_def b64decode_b64encode)
  obtain ctx m where p: "life > 0" "require_topology_member topo (public_of_identity l) = Inr ()"
      "require_topology_member topo (public_of_identity b) = Inr ()"
      "authenticated_session_context cr topo
          (ip_node_id (if role = Initiator then public_of_identity l else public_of_identity b))
          (ip_node_id (if role = Initiator then public_of_identity b else public_of_identity l)) = Inr ctx"
      "derive_static_transport_security cr l (public_of_identity b) role index ctx = Inr m"
      and plan: "sp_peer_node_id plan = ip_node_id (public_of_identity b)" "sp_topology_generation plan = tb_generation topo"
    using assms(4) unfolding plan_Inr by auto
  have "0 \<le> index" "index < 2 ^ 32" "ni_node_id b \<noteq> ni_node_id l"
    using p(5) public_bytes_of_identity [OF assms(1,3)]
    by (auto simp: derive_static_transport_security_def split: if_splits)
  then obtain m' where m': "derive_static_transport_security cr l ?rogue role index ctx = Inr m'"
    using derive_static_ok [OF assms(1,2) pb _ _ _ assms(6)] by blast
  have "require_topology_member topo ?rogue = Inr ()" using p(3) by (simp add: require_member_iff)
  then show ?thesis using p(1,2,4) m' plan by (cases "role = Initiator") (auto simp: plan_Inr)
qed

theorem peer_key_not_bound_to_topology_witness:
  "\<exists>plan'. plan_authenticated_static_session sample_crypto (sample_identity 3)
      ((public_of_identity (sample_identity 5))\<lparr>ip_x25519_public := b64encode (replicate 32 77)\<rparr>)
      sample_topology Initiator 9 1000 120 = Inr plan'"
proof -
  obtain plan where p: "plan_authenticated_static_session sample_crypto (sample_identity 3)
      (public_of_identity (sample_identity 5)) sample_topology Initiator 9 1000 120 = Inr plan"
    using sample_session by blast
  show ?thesis
    using peer_key_not_bound_to_topology [OF sample_crypto_ok sample_identities(1,2) p, of "replicate 32 77"]
    by (auto simp: sample_crypto_def sample_identity_def)
qed

end
