(* ===== verification/Float64.thy ===== *)
theory Float64
  imports GL_Prelude Complex_Main "HOL-Library.Log_Nat"
begin

text \<open>
  The double-precision arithmetic the control plane uses: \<^verbatim>\<open>a / b\<close> on integers, a float times an
  integer constant, \<^verbatim>\<open>round\<close> and \<^verbatim>\<open>int\<close> of the result.

  A double is a pair \<open>(m, e)\<close> standing for \<open>m * 2 ^ e\<close>. \<open>fl n d\<close> is the double nearest to \<open>n / d\<close>:
  the significand is the quotient scaled into \<open>[2 ^ 52, 2 ^ 53]\<close> and rounded half to even. Exponents
  are unbounded: subnormal results and the overflow at \<open>2 ^ 1024\<close>, where Python raises
  \<^verbatim>\<open>OverflowError\<close>, are outside the model; no quantity of the modelled code comes near either.
\<close>

section \<open>Definitions\<close>

type_synonym float64 = "int \<times> int"

definition scale :: "int \<Rightarrow> int \<Rightarrow> int \<Rightarrow> int \<times> int" where
  "scale n d e = (if 0 \<le> e then (n, d * 2 ^ nat e) else (n * 2 ^ nat (- e), d))"

definition quot_exp :: "int \<Rightarrow> int \<Rightarrow> int" where
  "quot_exp n d =
     (let e = bitlen n - bitlen d; (a, b) = scale n d e in if b \<le> a then e else e - 1)"

definition fl :: "int \<Rightarrow> int \<Rightarrow> float64" where
  "fl n d =
     (if n = 0 then (0, 0)
      else let e = quot_exp \<bar>n\<bar> d - 52; (a, b) = scale \<bar>n\<bar> d e in (sgn n * py_round_div a b, e))"

definition py_truediv :: "int \<Rightarrow> int \<Rightarrow> float64" where
  "py_truediv a b = fl a b"

definition py_float_mul_int :: "float64 \<Rightarrow> int \<Rightarrow> float64" where
  "py_float_mul_int x k = (let (m, e) = x; (n, d) = scale (m * k) 1 (- e) in fl n d)"

definition py_float_round :: "float64 \<Rightarrow> int" where
  "py_float_round x = (let (m, e) = x; (n, d) = scale m 1 (- e) in py_round_div n d)"

definition py_float_int :: "float64 \<Rightarrow> int" where
  "py_float_int x = (let (m, e) = x; (n, d) = scale m 1 (- e) in sgn n * (\<bar>n\<bar> div d))"

section \<open>The rounding error\<close>

definition fl_val :: "float64 \<Rightarrow> real" where
  "fl_val x = real_of_int (fst x) * 2 powr real_of_int (snd x)"

lemma scale_pos: "0 < d \<Longrightarrow> 0 < snd (scale n d e)"
  by (simp add: scale_def)

lemma scale_fst_pos: "0 < n \<Longrightarrow> 0 < fst (scale n d e)"
  by (simp add: scale_def)

lemma scale_val:
  assumes "0 < d"
  shows "real_of_int (fst (scale n d e)) / real_of_int (snd (scale n d e))
           = real_of_int n / real_of_int d * 2 powr - real_of_int e"
proof (cases "0 \<le> e")
  case True
  then have "(2::real) powr real_of_int e = 2 ^ nat e"
    by (simp add: powr_real_of_int)
  then show ?thesis using True by (simp add: scale_def powr_minus_divide)
next
  case False
  then have "(2::real) powr - real_of_int e = 2 ^ nat (- e)"
    using powr_real_of_int [of "2::real" "- e"] by simp
  then show ?thesis using False by (simp add: scale_def)
qed

lemma fl_val_scale: "fl_val (m, e) = real_of_int (fst (scale m 1 (- e))) / real_of_int (snd (scale m 1 (- e)))"
  using scale_val [of 1 m "- e"] by (simp add: fl_val_def)

lemma le_powr_minus_iff: "1 \<le> q * 2 powr - x \<longleftrightarrow> 2 powr x \<le> q" for q x :: real
  by (simp add: powr_minus field_simps)

lemma scale_le_iff:
  assumes "0 < d"
  shows "snd (scale n d e) \<le> fst (scale n d e) \<longleftrightarrow> 2 powr real_of_int e \<le> real_of_int n / real_of_int d"
proof -
  have p: "0 < real_of_int (snd (scale n d e))" using scale_pos [OF assms] by simp
  have "snd (scale n d e) \<le> fst (scale n d e)
          \<longleftrightarrow> 1 \<le> real_of_int (fst (scale n d e)) / real_of_int (snd (scale n d e))"
    using p by (simp add: pos_le_divide_eq)
  also have "\<dots> \<longleftrightarrow> 1 \<le> real_of_int n / real_of_int d * 2 powr - real_of_int e"
    by (simp only: scale_val [OF assms])
  also have "\<dots> \<longleftrightarrow> 2 powr real_of_int e \<le> real_of_int n / real_of_int d"
    by (rule le_powr_minus_iff)
  finally show ?thesis .
qed

lemma bitlen_val:
  assumes "0 < x"
  shows "2 powr (real_of_int (bitlen x) - 1) \<le> real_of_int x"
    and "real_of_int x < 2 powr real_of_int (bitlen x)"
proof -
  have b: "1 \<le> bitlen x" using assms by (simp add: bitlen_def floorlog_def)
  have "2 ^ nat (bitlen x - 1) \<le> x" "x < 2 ^ nat (bitlen x)"
    using bitlen_bounds [OF assms] by simp_all
  then have "(2::real) ^ nat (bitlen x - 1) \<le> real_of_int x" "real_of_int x < 2 ^ nat (bitlen x)"
    by (metis of_int_le_iff of_int_numeral of_int_power, metis of_int_less_iff of_int_numeral of_int_power)
  then show "2 powr (real_of_int (bitlen x) - 1) \<le> real_of_int x"
    "real_of_int x < 2 powr real_of_int (bitlen x)"
    using b powr_real_of_int [of "2::real" "bitlen x - 1"] powr_real_of_int [of "2::real" "bitlen x"]
    by simp_all
qed

lemma quot_exp_bounds:
  assumes "0 < n" and "0 < d"
  shows "2 powr real_of_int (quot_exp n d) \<le> real_of_int n / real_of_int d"
    and "real_of_int n / real_of_int d < 2 powr (real_of_int (quot_exp n d) + 1)"
proof -
  define e where "e = bitlen n - bitlen d"
  have dp: "0 < real_of_int d" using assms by simp
  have up: "real_of_int n / real_of_int d < 2 powr (real_of_int e + 1)"
  proof -
    have "real_of_int n < 2 powr real_of_int (bitlen n)" by (rule bitlen_val(2) [OF assms(1)])
    also have "\<dots> = 2 powr (real_of_int e + 1) * 2 powr (real_of_int (bitlen d) - 1)"
      by (simp add: e_def flip: powr_add)
    also have "\<dots> \<le> 2 powr (real_of_int e + 1) * real_of_int d"
      using bitlen_val(1) [OF assms(2)] by simp
    finally show ?thesis using dp by (simp add: pos_divide_less_eq)
  qed
  have lo: "2 powr (real_of_int e - 1) \<le> real_of_int n / real_of_int d"
  proof -
    have "2 powr (real_of_int e - 1) * real_of_int d \<le> 2 powr (real_of_int e - 1) * 2 powr real_of_int (bitlen d)"
      using bitlen_val(2) [OF assms(2)] by simp
    also have "\<dots> = 2 powr (real_of_int (bitlen n) - 1)"
      by (simp add: e_def flip: powr_add)
    also have "\<dots> \<le> real_of_int n" by (rule bitlen_val(1) [OF assms(1)])
    finally show ?thesis using dp by (simp add: pos_le_divide_eq)
  qed
  have q: "quot_exp n d = (if 2 powr real_of_int e \<le> real_of_int n / real_of_int d then e else e - 1)"
    using scale_le_iff [OF assms(2), of n e]
    by (simp add: quot_exp_def Let_def e_def case_prod_beta)
  show "2 powr real_of_int (quot_exp n d) \<le> real_of_int n / real_of_int d"
    "real_of_int n / real_of_int d < 2 powr (real_of_int (quot_exp n d) + 1)"
    using up lo by (auto simp: q not_le)
qed

lemma round_div_near:
  assumes "0 < d"
  shows "\<bar>real_of_int (py_round_div n d) - real_of_int n / real_of_int d\<bar> \<le> 1 / 2"
proof -
  have "2 * (d * py_round_div n d) \<le> 2 * n + d" "2 * n \<le> 2 * (d * py_round_div n d) + d"
    using py_round_div_near [OF assms] by simp_all
  then have "2 * (real_of_int d * real_of_int (py_round_div n d)) \<le> 2 * real_of_int n + real_of_int d"
    "2 * real_of_int n \<le> 2 * (real_of_int d * real_of_int (py_round_div n d)) + real_of_int d"
    by (metis of_int_add of_int_le_iff of_int_mult of_int_numeral)+
  then have "real_of_int (py_round_div n d) - real_of_int n / real_of_int d \<le> 1 / 2"
    "real_of_int n / real_of_int d - real_of_int (py_round_div n d) \<le> 1 / 2"
    using assms by (simp_all add: field_simps)
  then show ?thesis by linarith
qed

lemma fl_pos:
  assumes "0 < n" and "0 < d"
  obtains a b e where "fl n d = (py_round_div a b, e)" "0 < b"
    "real_of_int a / real_of_int b = real_of_int n / real_of_int d * 2 powr - real_of_int e"
    "2 ^ 52 \<le> real_of_int a / real_of_int b"
proof -
  define e where "e = quot_exp n d - 52"
  define a where "a = fst (scale n d e)"
  define b where "b = snd (scale n d e)"
  have f: "fl n d = (py_round_div a b, e)"
    using assms by (simp add: fl_def e_def a_def b_def Let_def case_prod_beta)
  have v: "real_of_int a / real_of_int b = real_of_int n / real_of_int d * 2 powr - real_of_int e"
    unfolding a_def b_def by (rule scale_val [OF assms(2)])
  have "(2::real) powr (real_of_int (quot_exp n d)) * 2 powr - real_of_int e = 2 powr 52"
    by (simp add: e_def flip: powr_add)
  then have "(2::real) ^ 52 = 2 powr (real_of_int (quot_exp n d)) * 2 powr - real_of_int e"
    by simp
  also have "\<dots> \<le> real_of_int n / real_of_int d * 2 powr - real_of_int e"
    using quot_exp_bounds(1) [OF assms] by (rule mult_right_mono) simp
  finally have "2 ^ 52 \<le> real_of_int a / real_of_int b" using v by simp
  then show ?thesis using that f v scale_pos [OF assms(2)] unfolding b_def by blast
qed

lemma fl_error:
  assumes "0 \<le> n" and "0 < d"
  shows "\<bar>fl_val (fl n d) - real_of_int n / real_of_int d\<bar> \<le> real_of_int n / real_of_int d / 2 ^ 53"
proof (cases "n = 0")
  case True
  then show ?thesis by (simp add: fl_def fl_val_def)
next
  case False
  then obtain a b e where f: "fl n d = (py_round_div a b, e)" and b: "0 < b"
    and v: "real_of_int a / real_of_int b = real_of_int n / real_of_int d * 2 powr - real_of_int e"
    and lo: "2 ^ 52 \<le> real_of_int a / real_of_int b"
    using fl_pos [of n d] assms by auto
  define q where "q = real_of_int a / real_of_int b"
  have nd: "real_of_int n / real_of_int d = q * 2 powr real_of_int e"
    using v by (simp add: q_def powr_minus field_simps)
  have "\<bar>real_of_int (py_round_div a b) - q\<bar> \<le> 1 / 2"
    using round_div_near [OF b] by (simp add: q_def)
  also have "\<dots> \<le> q / 2 ^ 53" using lo by (simp add: q_def)
  finally have "\<bar>real_of_int (py_round_div a b) - q\<bar> * 2 powr real_of_int e \<le> q / 2 ^ 53 * 2 powr real_of_int e"
    by (intro mult_right_mono) auto
  then show ?thesis
    by (simp add: f fl_val_def nd abs_mult flip: left_diff_distrib)
qed

section \<open>Rounding a quotient to an integer\<close>

lemma py_round_div_real:
  fixes n d :: int
  assumes "0 < d"
  defines "x \<equiv> real_of_int n / real_of_int d"
  shows "py_round_div n d =
    (if 2 * frac x < 1 then \<lfloor>x\<rfloor> else if 1 < 2 * frac x then \<lfloor>x\<rfloor> + 1
     else if even \<lfloor>x\<rfloor> then \<lfloor>x\<rfloor> else \<lfloor>x\<rfloor> + 1)"
proof -
  have f: "\<lfloor>x\<rfloor> = n div d" by (simp add: x_def floor_divide_of_int_eq)
  have "real_of_int n = real_of_int (n mod d) + real_of_int d * real_of_int (n div d)"
    by (metis mod_mult_div_eq of_int_add of_int_mult)
  then have "x - real_of_int (n div d) = real_of_int (n mod d) / real_of_int d"
    using assms by (simp add: x_def field_simps)
  then have "frac x = real_of_int (n mod d) / real_of_int d"
    by (simp only: frac_def f)
  then have "(2 * frac x < 1) = (2 * (real_of_int (n mod d) / real_of_int d) < 1)"
    "(1 < 2 * frac x) = (1 < 2 * (real_of_int (n mod d) / real_of_int d))"
    by (simp_all only:)
  then have "(2 * frac x < 1) = (2 * real_of_int (n mod d) < real_of_int d)"
    "(1 < 2 * frac x) = (real_of_int d < 2 * real_of_int (n mod d))"
    using assms(1) by (simp_all add: pos_divide_less_eq pos_less_divide_eq)
  then have "(2 * frac x < 1) = (2 * (n mod d) < d)" "(1 < 2 * frac x) = (d < 2 * (n mod d))"
    by linarith+
  then show ?thesis by (simp add: py_round_div_def Let_def f)
qed

lemma py_round_div_cong:
  assumes "0 < d" and "0 < d'" and "real_of_int n / real_of_int d = real_of_int n' / real_of_int d'"
  shows "py_round_div n d = py_round_div n' d'"
  using assms by (simp add: py_round_div_real)

lemma py_round_div_nearest:
  assumes "0 < d" and "\<bar>real_of_int n / real_of_int d - real_of_int r\<bar> < 1 / 2"
  shows "py_round_div n d = r"
  using round_div_near [OF assms(1), of n] assms(2) by linarith

lemma py_round_div_mult: "0 < b \<Longrightarrow> py_round_div (c * b) b = c"
  by (rule py_round_div_nearest) simp_all

lemma py_round_div_nonpos: "n \<le> 0 \<Longrightarrow> 0 < d \<Longrightarrow> py_round_div n d \<le> 0"
  using py_round_div_mono [of d n 0] by (simp add: py_round_div_def)

lemma py_float_round_val:
  obtains n d where "0 < d" "py_float_round x = py_round_div n d" "fl_val x = real_of_int n / real_of_int d"
proof -
  obtain m e where x: "x = (m, e)" by (cases x)
  show ?thesis
    using that [of "snd (scale m 1 (- e))" "fst (scale m 1 (- e))"]
    by (simp add: x fl_val_scale scale_pos py_float_round_def Let_def case_prod_beta)
qed

lemma fl_exact_half:
  assumes "0 < n" and "0 < d" and "2 * n = k * d" and "k < 2 ^ 53"
  shows "fl_val (fl n d) = real_of_int n / real_of_int d"
proof -
  obtain a b e where f: "fl n d = (py_round_div a b, e)" and b: "0 < b"
    and v: "real_of_int a / real_of_int b = real_of_int n / real_of_int d * 2 powr - real_of_int e"
    and lo: "2 ^ 52 \<le> real_of_int a / real_of_int b"
    using fl_pos [OF assms(1,2)] by blast
  have "2 * real_of_int n = real_of_int k * real_of_int d"
    using assms(3) by (metis of_int_mult of_int_numeral)
  then have q: "real_of_int n / real_of_int d = real_of_int k / 2"
    using assms(2) by (simp add: field_simps)
  have "e < 0"
  proof (rule ccontr)
    assume "\<not> e < 0"
    then have "2 powr - real_of_int e \<le> (2 :: real) powr 0" by (intro powr_mono) auto
    then have "2 powr - real_of_int e \<le> (1 :: real)" by simp
    moreover have "0 < k * d" using assms(1,3) by linarith
    then have "0 \<le> real_of_int k" using zero_less_mult_pos2 [of k d] assms(2) by simp
    ultimately have "real_of_int k / 2 * 2 powr - real_of_int e \<le> real_of_int k / 2"
      using mult_left_mono [of "2 powr - real_of_int e" 1 "real_of_int k / 2"] by simp
    moreover have "real_of_int k < 2 ^ 53" using assms(4) by (metis of_int_less_iff of_int_numeral of_int_power)
    ultimately show False using lo v q by simp
  qed
  then have "2 powr - real_of_int e = 2 * (2::real) ^ nat (- e - 1)"
    using powr_real_of_int [of "2::real" "- e - 1"] by (simp add: powr_diff)
  then have ab: "real_of_int a / real_of_int b = real_of_int (k * 2 ^ nat (- e - 1))"
    using v q by simp
  then have "py_round_div a b = k * 2 ^ nat (- e - 1)"
    by (intro py_round_div_nearest [OF b]) simp
  then have "fl_val (fl n d) = real_of_int n / real_of_int d * (2 powr - real_of_int e * 2 powr real_of_int e)"
    using v ab by (simp add: f fl_val_def)
  then show ?thesis by (simp flip: powr_add)
qed

lemma round_fl:
  assumes "0 \<le> n" and "n < 2 ^ 52" and "0 < d"
  shows "py_float_round (fl n d) = py_round_div n d"
proof (cases "n = 0")
  case True
  then show ?thesis using assms(3) by (simp add: fl_def py_float_round_def scale_def Let_def py_round_div_def)
next
  case False
  define r where "r = py_round_div n d"
  define q where "q = real_of_int n / real_of_int d"
  define x where "x = fl_val (fl n d)"
  obtain N D where ND: "0 < D" "py_float_round (fl n d) = py_round_div N D" "x = real_of_int N / real_of_int D"
    using py_float_round_val [of "fl n d"] unfolding x_def by blast
  have dp: "0 < real_of_int d" using assms by simp
  have n52: "real_of_int n < 2 ^ 52" using assms(2) by (metis of_int_less_iff of_int_numeral of_int_power)
  show ?thesis
  proof (cases "\<bar>2 * n - 2 * (d * r)\<bar> < d")
    case True
    then have "\<bar>2 * n - 2 * (d * r)\<bar> + 1 \<le> d" by simp
    then have "real_of_int (\<bar>2 * n - 2 * (d * r)\<bar> + 1) \<le> real_of_int d"
      by (simp only: of_int_le_iff)
    then have "\<bar>2 * real_of_int n - 2 * (real_of_int d * real_of_int r)\<bar> + 1 \<le> real_of_int d"
      by simp
    moreover have e: "2 * real_of_int n - 2 * (real_of_int d * real_of_int r) = 2 * (q - real_of_int r) * real_of_int d"
      using dp by (simp add: q_def field_simps)
    have "\<bar>2 * real_of_int n - 2 * (real_of_int d * real_of_int r)\<bar> = 2 * \<bar>q - real_of_int r\<bar> * real_of_int d"
      unfolding e abs_mult using dp by simp
    ultimately have "2 * \<bar>q - real_of_int r\<bar> * real_of_int d + 1 \<le> real_of_int d"
      by simp
    then have 1: "\<bar>q - real_of_int r\<bar> + 1 / (2 * real_of_int d) \<le> 1 / 2"
      using dp by (simp add: field_simps)
    have "\<bar>x - q\<bar> \<le> q / 2 ^ 53" using fl_error [OF assms(1,3)] by (simp add: x_def q_def)
    also have "\<dots> < 1 / (2 * real_of_int d)" using n52 dp by (simp add: q_def field_simps)
    finally have "\<bar>x - real_of_int r\<bar> < 1 / 2" using 1 by linarith
    then show ?thesis using py_round_div_nearest [OF ND(1)] ND(2,3) r_def by metis
  next
    case False
    then have "\<bar>2 * n - 2 * (d * r)\<bar> = d"
      using py_round_div_near [OF assms(3), of n] by (simp add: r_def)
    then have "2 * n = (2 * r + 1) * d \<or> 2 * n = (2 * r - 1) * d"
      by (auto simp: algebra_simps abs_if split: if_splits)
    then obtain k where k: "2 * n = k * d" by blast
    have "0 < k" using k False \<open>n \<noteq> 0\<close> assms(1,3) by (smt (verit) mult_nonneg_nonpos2)
    then have "k \<le> k * d" using assms(3) by simp
    then have "k < 2 ^ 53" using k assms(2) by simp
    then have "x = q" unfolding x_def q_def using fl_exact_half [OF _ assms(3) k] \<open>n \<noteq> 0\<close> assms(1) by simp
    then show ?thesis using py_round_div_cong [OF ND(1) assms(3)] ND q_def by simp
  qed
qed

lemma round_fl_large:
  assumes "0 \<le> n" and "0 < d" and "2 * c * d \<le> n" and "1 \<le> c"
  shows "c \<le> py_float_round (fl n d)"
proof -
  define q where "q = real_of_int n / real_of_int d"
  define x where "x = fl_val (fl n d)"
  obtain N D where ND: "0 < D" "py_float_round (fl n d) = py_round_div N D" "x = real_of_int N / real_of_int D"
    using py_float_round_val [of "fl n d"] unfolding x_def by blast
  have "real_of_int (2 * c * d) \<le> real_of_int n" using assms(3) by linarith
  then have q: "2 * real_of_int c \<le> q" using assms(2) by (simp add: q_def field_simps)
  have "\<bar>x - q\<bar> \<le> q / 2 ^ 53" using fl_error [OF assms(1,2)] by (simp add: x_def q_def)
  moreover have "q / 2 ^ 53 \<le> q / 4" using q assms(4) by (simp add: field_simps)
  ultimately have "3 / 2 * real_of_int c \<le> x" using q by linarith
  moreover have "x - 1 / 2 \<le> real_of_int (py_round_div N D)"
    using round_div_near [OF ND(1), of N] ND(3) by linarith
  ultimately show ?thesis using assms(4) ND(2) by linarith
qed

lemma round_fl_nonpos:
  assumes "n \<le> 0" and "0 < d"
  shows "py_float_round (fl n d) \<le> 0"
proof (cases "n = 0")
  case False
  define e where "e = quot_exp \<bar>n\<bar> d - 52"
  define r where "r = py_round_div (fst (scale \<bar>n\<bar> d e)) (snd (scale \<bar>n\<bar> d e))"
  have "0 \<le> r" unfolding r_def
    using False assms scale_pos [OF assms(2)] scale_fst_pos [of "\<bar>n\<bar>" d e]
    by (intro py_round_div_nonneg) simp_all
  moreover have "fl n d = (- r, e)"
    using False assms by (simp add: fl_def e_def r_def Let_def case_prod_beta)
  ultimately show ?thesis
    by (auto simp: py_float_round_def Let_def scale_def mult_nonneg_nonneg intro!: py_round_div_nonpos)
qed (simp add: fl_def py_float_round_def scale_def Let_def py_round_div_def)

section \<open>Seconds as a double, back to microseconds\<close>

lemma py_float_int_val: "0 \<le> fst x \<Longrightarrow> py_float_int x = \<lfloor>fl_val x\<rfloor>"
proof -
  assume p: "0 \<le> fst x"
  obtain m e where x: "x = (m, e)" by (cases x)
  have "0 \<le> fst (scale m 1 (- e))" using p x by (simp add: scale_def)
  then have "sgn (fst (scale m 1 (- e))) * (\<bar>fst (scale m 1 (- e))\<bar> div k) = fst (scale m 1 (- e)) div k" for k
    by (simp add: sgn_if)
  then show ?thesis
    by (simp only: x fl_val_scale floor_divide_of_int_eq py_float_int_def Let_def case_prod_beta fst_conv snd_conv)
qed

lemma fl_nonneg:
  assumes "0 \<le> n" and "0 < d"
  shows "0 \<le> fst (fl n d)"
proof -
  have "0 \<le> py_round_div (fst (scale n d e)) (snd (scale n d e))" for e
    using assms scale_pos [OF assms(2), of n e] by (intro py_round_div_nonneg) (simp_all add: scale_def)
  then show ?thesis using assms by (simp add: fl_def Let_def case_prod_beta sgn_if)
qed

lemma near_twice:
  fixes z v u :: real
  assumes "\<bar>z - u\<bar> \<le> u / 2 ^ 53" and "\<bar>v - z\<bar> \<le> z / 2 ^ 53" and "u < 2 ^ 51"
  shows "u - 1 < v \<and> v < u + 1"
proof -
  have "u / 2 ^ 53 < 1 / 4" using assms(3) by simp
  then have z: "u - 1 / 4 < z" "z < u + 1 / 4" using assms(1) by linarith+
  then have "z / 2 ^ 53 < 1 / 2" using assms(3) by simp
  then show ?thesis using assms(2) z by linarith
qed

lemma seconds_microseconds:
  assumes "0 \<le> us" and "us < 2 ^ 51"
  shows "py_float_int (py_float_mul_int (py_truediv us 1000000) 1000000) \<in> {us - 1, us}"
proof -
  obtain m e where x: "py_truediv us 1000000 = (m, e)" by (cases "py_truediv us 1000000")
  define n where "n = fst (scale (m * 1000000) 1 (- e))"
  define d where "d = snd (scale (m * 1000000) 1 (- e))"
  have m: "0 \<le> m" using fl_nonneg [OF assms(1), of 1000000] x by (simp add: py_truediv_def)
  have d: "0 < d" by (simp add: d_def scale_pos)
  have n: "0 \<le> n" using m by (simp add: n_def scale_def)
  have mul: "py_float_mul_int (py_truediv us 1000000) 1000000 = fl n d"
    by (simp add: x py_float_mul_int_def Let_def case_prod_beta n_def d_def)
  have u: "real_of_int us < 2 ^ 51" using assms(2) by (metis of_int_less_iff of_int_numeral of_int_power)
  have "\<bar>fl_val (m, e) - real_of_int us / 1000000\<bar> \<le> real_of_int us / 1000000 / 2 ^ 53"
    using fl_error [OF assms(1), of 1000000] x by (simp add: py_truediv_def)
  moreover have nd: "real_of_int n / real_of_int d = fl_val (m, e) * 1000000"
    using fl_val_scale [of "m * 1000000" e] by (simp add: n_def d_def fl_val_def)
  ultimately have 1: "\<bar>real_of_int n / real_of_int d - real_of_int us\<bar> \<le> real_of_int us / 2 ^ 53"
    by linarith
  have 2: "\<bar>fl_val (fl n d) - real_of_int n / real_of_int d\<bar> \<le> real_of_int n / real_of_int d / 2 ^ 53"
    by (rule fl_error [OF n d])
  have "real_of_int us - 1 < fl_val (fl n d) \<and> fl_val (fl n d) < real_of_int us + 1"
    using near_twice [OF 1 2 u] .
  then have "us - 1 \<le> \<lfloor>fl_val (fl n d)\<rfloor>" "\<lfloor>fl_val (fl n d)\<rfloor> \<le> us"
    by linarith+
  then have "\<lfloor>fl_val (fl n d)\<rfloor> \<in> {us - 1, us}" by auto
  then show ?thesis
    using py_float_int_val [OF fl_nonneg [OF n d]] by (simp add: mul)
qed

end
