(* ===== verification/Relay_Sessions.thy ===== *)
theory Relay_Sessions
  imports Sessions Float64
begin

text \<open>
  Secure relay sessions (\<^verbatim>\<open>security/relay_sessions.py\<close>): authorising a relay hop against a topology,
  and compiling authorisations into the facts the Rust relay executor receives. Times are microseconds
  since the epoch; \<^verbatim>\<open>datetime.timestamp()\<close> is the true division of that number by \<open>10 ^ 6\<close> in double
  precision, as in CPython, so the executor's expiry goes through \<^verbatim>\<open>Float64\<close>. Dates past the range of
  \<^verbatim>\<open>datetime\<close> are outside the model.
\<close>

section \<open>Authorisations\<close>

datatype relay_direction = Upstream_to_downstream | Downstream_to_upstream

record relay_next_hop =
  nh_peer_node_id :: ustr
  nh_endpoint :: ustr
  nh_receiver_index :: int

record relay_authorization =
  ra_relay_receiver_index :: int
  ra_upstream_peer_node_id :: ustr
  ra_relay_node_id :: ustr
  ra_next_hop :: relay_next_hop
  ra_direction :: relay_direction
  ra_topology_generation :: int
  ra_expires_at :: int
  ra_max_packet_size :: "int option"
  ra_max_packets :: "int option"
  ra_max_bytes :: "int option"

definition u32_field :: "int \<Rightarrow> bool" where
  "u32_field i \<longleftrightarrow> 0 \<le> i \<and> i \<le> 2 ^ 32 - 1"

definition limit_field :: "int option \<Rightarrow> bool" where
  "limit_field v = (case v of None \<Rightarrow> True | Some x \<Rightarrow> 1 \<le> x)"

definition next_hop_fields_ok :: "relay_next_hop \<Rightarrow> bool" where
  "next_hop_fields_ok h \<longleftrightarrow> u32_field (nh_receiver_index h)"

definition authorization_fields_ok :: "relay_authorization \<Rightarrow> bool" where
  "authorization_fields_ok a \<longleftrightarrow>
     u32_field (ra_relay_receiver_index a) \<and> 1 \<le> ra_topology_generation a \<and>
     limit_field (ra_max_packet_size a) \<and> limit_field (ra_max_packets a) \<and> limit_field (ra_max_bytes a)"

definition validate_distinct_hops :: "relay_authorization \<Rightarrow> relay_authorization res" where
  "validate_distinct_hops a =
     (if ra_upstream_peer_node_id a = ra_relay_node_id a
      then Inl (ValueError ''relay upstream peer must differ from relay node'')
      else if nh_peer_node_id (ra_next_hop a) = ra_relay_node_id a
      then Inl (ValueError ''relay next hop must differ from relay node'')
      else Inr a)"

definition build_authorization :: "relay_authorization \<Rightarrow> relay_authorization res" where
  "build_authorization a =
     (if \<not> authorization_fields_ok a then Inl (ValidationError ''RelaySessionAuthorization'')
      else validate_distinct_hops a)"

definition is_expired :: "relay_authorization \<Rightarrow> int \<Rightarrow> bool" where
  "is_expired a now \<longleftrightarrow> ra_expires_at a \<le> now"

definition allows_packet :: "relay_authorization \<Rightarrow> int \<Rightarrow> int \<Rightarrow> bool" where
  "allows_packet a packet_size now =
     (if is_expired a now then False
      else case ra_max_packet_size a of None \<Rightarrow> True | Some m \<Rightarrow> packet_size \<le> m)"

section \<open>Authorising against a topology\<close>

definition require_node :: "topology \<Rightarrow> ustr \<Rightarrow> unit res" where
  "require_node topo node_id =
     (if node_id \<in> set (tb_revoked_node_ids topo)
      then Inl (ValueError ''relay session references a revoked node'')
      else if \<not> list_ex (\<lambda>n. ip_node_id (pn_identity n) = node_id) (tb_nodes topo)
      then Inl (ValueError ''relay session references a node outside topology'')
      else Inr ())"

definition require_node_role :: "topology \<Rightarrow> ustr \<Rightarrow> node_role \<Rightarrow> unit res" where
  "require_node_role topo node_id role =
     rbind (require_node topo node_id) (\<lambda>_.
       if list_ex (\<lambda>n. ip_node_id (pn_identity n) = node_id \<and> role \<in> set (pn_roles n)) (tb_nodes topo)
       then Inr () else Inl (ValueError ''node is not authorized for the role''))"

definition authorize_relay_session ::
  "topology \<Rightarrow> identity_public \<Rightarrow> identity_public \<Rightarrow> relay_next_hop \<Rightarrow> relay_direction \<Rightarrow> int \<Rightarrow> int \<Rightarrow> int
     \<Rightarrow> int option \<Rightarrow> relay_authorization res" where
  "authorize_relay_session topo upstream_peer relay next_hop direction relay_receiver_index now lifetime_seconds
     max_packet_size =
     (if lifetime_seconds \<le> 0 then Inl (ValueError ''relay session lifetime must be positive'')
      else
        rbind (require_node_role topo (ip_node_id relay) RoleRelay) (\<lambda>_.
        rbind (require_node topo (ip_node_id upstream_peer)) (\<lambda>_.
        rbind (require_node topo (nh_peer_node_id next_hop)) (\<lambda>_.
          build_authorization
            \<lparr> ra_relay_receiver_index = relay_receiver_index, ra_upstream_peer_node_id = ip_node_id upstream_peer,
              ra_relay_node_id = ip_node_id relay, ra_next_hop = next_hop, ra_direction = direction,
              ra_topology_generation = tb_generation topo, ra_expires_at = now + seconds lifetime_seconds,
              ra_max_packet_size = max_packet_size, ra_max_packets = None, ra_max_bytes = None \<rparr>))))"

section \<open>Compiling for the executor\<close>

record relay_executor =
  re_relay_receiver_index :: int
  re_next_hop_address :: ustr
  re_next_hop_receiver_index :: int
  re_direction :: relay_direction
  re_topology_generation :: int
  re_expires_at_unix_us :: int
  re_max_packet_size :: "int option"
  re_max_packets :: "int option"
  re_max_bytes :: "int option"

definition executor_fields_ok :: "relay_executor \<Rightarrow> bool" where
  "executor_fields_ok e \<longleftrightarrow>
     u32_field (re_relay_receiver_index e) \<and> u32_field (re_next_hop_receiver_index e) \<and>
     1 \<le> re_topology_generation e \<and> 0 \<le> re_expires_at_unix_us e \<and>
     limit_field (re_max_packet_size e) \<and> limit_field (re_max_packets e) \<and> limit_field (re_max_bytes e)"

definition partition_at :: "nat \<Rightarrow> ustr \<Rightarrow> ustr \<times> ustr \<times> ustr" where
  "partition_at sep s =
     (let before = takeWhile (\<lambda>c. c \<noteq> sep) s in
      if sep \<in> set s then (before, [sep], drop (Suc (length before)) s) else (s, [], []))"

definition parse_next_hop_endpoint :: "ustr \<Rightarrow> (ustr \<times> ustr) res" where
  "parse_next_hop_endpoint endpoint =
     (let (transport, separator, address) = partition_at 58 endpoint in
      if separator = [] \<or> transport \<noteq> [117, 100, 112] \<or> address = []
      then Inl (ValueError ''relay next-hop endpoint must use udp:host:port or udp:[ipv6]:port'')
      else Inr ([117, 100, 112], address))"

definition timestamp :: "int \<Rightarrow> float64" where
  "timestamp us = py_truediv us 1000000"

definition from_authorization :: "relay_authorization \<Rightarrow> relay_executor res" where
  "from_authorization a =
     rbind (parse_next_hop_endpoint (nh_endpoint (ra_next_hop a))) (\<lambda>(transport, address).
       let e = \<lparr> re_relay_receiver_index = ra_relay_receiver_index a, re_next_hop_address = address,
                 re_next_hop_receiver_index = nh_receiver_index (ra_next_hop a), re_direction = ra_direction a,
                 re_topology_generation = ra_topology_generation a,
                 re_expires_at_unix_us = py_float_int (py_float_mul_int (timestamp (ra_expires_at a)) 1000000),
                 re_max_packet_size = ra_max_packet_size a, re_max_packets = ra_max_packets a,
                 re_max_bytes = ra_max_bytes a \<rparr>
       in if executor_fields_ok e then Inr e else Inl (ValidationError ''RelayExecutorConfig''))"

definition compile_relay_executor_configs :: "relay_authorization list \<Rightarrow> int \<Rightarrow> relay_executor list res" where
  "compile_relay_executor_configs authorizations now =
     map_res from_authorization (filter (\<lambda>a. \<not> is_expired a now) authorizations)"

section \<open>Lemmas\<close>

definition live_node :: "topology \<Rightarrow> ustr \<Rightarrow> bool" where
  "live_node topo node_id \<longleftrightarrow> node_id \<in> set (topology_node_ids topo) \<and> node_id \<notin> set (tb_revoked_node_ids topo)"

definition has_role :: "topology \<Rightarrow> ustr \<Rightarrow> node_role \<Rightarrow> bool" where
  "has_role topo node_id role \<longleftrightarrow> (\<exists>n\<in>set (tb_nodes topo). ip_node_id (pn_identity n) = node_id \<and> role \<in> set (pn_roles n))"

lemma require_node_iff: "require_node topo n = Inr () \<longleftrightarrow> live_node topo n"
  by (auto simp: require_node_def live_node_def topology_node_ids_def list_ex_iff)

lemma require_node_role_iff: "require_node_role topo n role = Inr () \<longleftrightarrow> live_node topo n \<and> has_role topo n role"
  by (auto simp: require_node_role_def rbind_eq_Inr require_node_iff has_role_def list_ex_iff)

lemma build_authorization_iff:
  "build_authorization a = Inr b \<longleftrightarrow>
     b = a \<and> authorization_fields_ok a \<and> ra_upstream_peer_node_id a \<noteq> ra_relay_node_id a \<and>
     nh_peer_node_id (ra_next_hop a) \<noteq> ra_relay_node_id a"
  by (auto simp: build_authorization_def validate_distinct_hops_def)

lemma parse_next_hop_endpoint_iff:
  "(\<exists>t. parse_next_hop_endpoint endpoint = Inr (t, address)) \<longleftrightarrow>
     endpoint = [117, 100, 112, 58] @ address \<and> address \<noteq> []"
proof
  assume "\<exists>t. parse_next_hop_endpoint endpoint = Inr (t, address)"
  then have *: "58 \<in> set endpoint" "takeWhile (\<lambda>c. c \<noteq> 58) endpoint = [117, 100, 112]"
    "address = drop 4 endpoint" "address \<noteq> []"
    by (auto simp: parse_next_hop_endpoint_def partition_at_def Let_def numeral_nat split: if_split_asm)
  have "endpoint = takeWhile (\<lambda>c. c \<noteq> 58) endpoint @ dropWhile (\<lambda>c. c \<noteq> 58) endpoint" by simp
  moreover obtain rest where "dropWhile (\<lambda>c. c \<noteq> 58) endpoint = 58 # rest"
    using *(1) by (metis (mono_tags, lifting) dropWhile_eq_Nil_conv hd_dropWhile list.exhaust_sel)
  ultimately have e: "endpoint = [117, 100, 112] @ 58 # rest" using *(2) by metis
  then have "address = rest" using *(3) by simp
  then show "endpoint = [117, 100, 112, 58] @ address \<and> address \<noteq> []" using e *(4) by simp
qed (auto simp: parse_next_hop_endpoint_def partition_at_def)

lemma executor_of:
  assumes "from_authorization a = Inr e"
  shows "nh_endpoint (ra_next_hop a) = [117, 100, 112, 58] @ re_next_hop_address e \<and> re_next_hop_address e \<noteq> []"
    and "re_expires_at_unix_us e = py_float_int (py_float_mul_int (py_truediv (ra_expires_at a) 1000000) 1000000)"
    and "re_relay_receiver_index e = ra_relay_receiver_index a"
    and "re_next_hop_receiver_index e = nh_receiver_index (ra_next_hop a)"
    and "re_max_packet_size e = ra_max_packet_size a"
proof -
  obtain t address where p: "parse_next_hop_endpoint (nh_endpoint (ra_next_hop a)) = Inr (t, address)"
    and e: "e = \<lparr> re_relay_receiver_index = ra_relay_receiver_index a, re_next_hop_address = address,
       re_next_hop_receiver_index = nh_receiver_index (ra_next_hop a), re_direction = ra_direction a,
       re_topology_generation = ra_topology_generation a,
       re_expires_at_unix_us = py_float_int (py_float_mul_int (timestamp (ra_expires_at a)) 1000000),
       re_max_packet_size = ra_max_packet_size a, re_max_packets = ra_max_packets a, re_max_bytes = ra_max_bytes a \<rparr>"
    using assms by (auto simp: from_authorization_def rbind_eq_Inr Let_def split: if_split_asm)
  show "nh_endpoint (ra_next_hop a) = [117, 100, 112, 58] @ re_next_hop_address e \<and> re_next_hop_address e \<noteq> []"
    using parse_next_hop_endpoint_iff p e by auto
qed (use assms in \<open>auto simp: from_authorization_def timestamp_def rbind_eq_Inr Let_def split: if_split_asm\<close>)

lemma from_authorization_total:
  assumes "authorization_fields_ok a" and "next_hop_fields_ok (ra_next_hop a)"
    and "nh_endpoint (ra_next_hop a) = [117, 100, 112, 58] @ address" and "address \<noteq> []"
    and "0 < ra_expires_at a" and "ra_expires_at a < 2 ^ 51"
  shows "\<exists>e. from_authorization a = Inr e"
proof -
  obtain t where "parse_next_hop_endpoint (nh_endpoint (ra_next_hop a)) = Inr (t, address)"
    using parse_next_hop_endpoint_iff [of "nh_endpoint (ra_next_hop a)" address] assms(3,4) by auto
  moreover have "0 \<le> py_float_int (py_float_mul_int (timestamp (ra_expires_at a)) 1000000)"
    using seconds_microseconds [of "ra_expires_at a"] assms(5,6) by (auto simp: timestamp_def)
  ultimately show ?thesis
    using assms(1,2)
    by (simp add: from_authorization_def executor_fields_ok_def authorization_fields_ok_def next_hop_fields_ok_def)
qed

section \<open>Properties\<close>

text \<open>
  C37. A relay session is authorised exactly when the lifetime is positive, the relay is a live
  topology node holding the relay role, upstream peer and next hop are live topology nodes other than
  the relay, and the numeric fields are in range. The authorisation is bound to the topology's
  generation, and it admits packets exactly up to its size limit and strictly before its expiry.
\<close>
theorem relay_authorization_exact:
  "authorize_relay_session topo upstream relay hop direction index now lifetime max_size = Inr a \<longleftrightarrow>
     0 < lifetime \<and> live_node topo (ip_node_id relay) \<and> has_role topo (ip_node_id relay) RoleRelay \<and>
     live_node topo (ip_node_id upstream) \<and> live_node topo (nh_peer_node_id hop) \<and>
     ip_node_id upstream \<noteq> ip_node_id relay \<and> nh_peer_node_id hop \<noteq> ip_node_id relay \<and>
     u32_field index \<and> 1 \<le> tb_generation topo \<and> limit_field max_size \<and>
     a = \<lparr> ra_relay_receiver_index = index, ra_upstream_peer_node_id = ip_node_id upstream,
           ra_relay_node_id = ip_node_id relay, ra_next_hop = hop, ra_direction = direction,
           ra_topology_generation = tb_generation topo, ra_expires_at = now + 1000000 * lifetime,
           ra_max_packet_size = max_size, ra_max_packets = None, ra_max_bytes = None \<rparr> \<and>
     (\<forall>size t. allows_packet a size t \<longleftrightarrow> t < now + 1000000 * lifetime \<and> (\<forall>m. max_size = Some m \<longrightarrow> size \<le> m))"
proof -
  have "authorize_relay_session topo upstream relay hop direction index now lifetime max_size = Inr a \<longleftrightarrow>
     0 < lifetime \<and> (live_node topo (ip_node_id relay) \<and> has_role topo (ip_node_id relay) RoleRelay) \<and>
     live_node topo (ip_node_id upstream) \<and> live_node topo (nh_peer_node_id hop) \<and>
     build_authorization \<lparr> ra_relay_receiver_index = index, ra_upstream_peer_node_id = ip_node_id upstream,
           ra_relay_node_id = ip_node_id relay, ra_next_hop = hop, ra_direction = direction,
           ra_topology_generation = tb_generation topo, ra_expires_at = now + 1000000 * lifetime,
           ra_max_packet_size = max_size, ra_max_packets = None, ra_max_bytes = None \<rparr> = Inr a"
    by (auto simp: authorize_relay_session_def rbind_eq_Inr seconds_def mult.commute require_node_iff
        require_node_role_iff)
  then show ?thesis
    by (auto simp: build_authorization_iff authorization_fields_ok_def limit_field_def allows_packet_def is_expired_def
        split: option.split_asm option.split)
qed

definition sample_hop :: relay_next_hop where
  "sample_hop = \<lparr> nh_peer_node_id = ip_node_id (public_of_identity (sample_identity 3)), nh_endpoint = [117, 100, 112, 58, 104],
     nh_receiver_index = 4 \<rparr>"

theorem relay_authorization_exact_witness:
  "\<exists>a. authorize_relay_session sample_topology (public_of_identity (sample_identity 3)) (public_of_identity (sample_identity 5))
      sample_hop Upstream_to_downstream 9 1000 120 (Some 1400) = Inr a \<and> allows_packet a 1400 1000 \<and> \<not> allows_packet a 1401 1000"
proof -
  define a where "a = \<lparr> ra_relay_receiver_index = 9, ra_upstream_peer_node_id = ip_node_id (public_of_identity (sample_identity 3)),
     ra_relay_node_id = ip_node_id (public_of_identity (sample_identity 5)), ra_next_hop = sample_hop,
     ra_direction = Upstream_to_downstream, ra_topology_generation = tb_generation sample_topology,
     ra_expires_at = 1000 + 1000000 * 120, ra_max_packet_size = Some 1400, ra_max_packets = None, ra_max_bytes = None \<rparr>"
  have "ip_node_id (public_of_identity (sample_identity 3)) \<noteq> ip_node_id (public_of_identity (sample_identity 5))"
    by (simp add: public_of_identity_def b64encode_inj sample_identity_def)
  then have "authorize_relay_session sample_topology (public_of_identity (sample_identity 3)) (public_of_identity (sample_identity 5))
      sample_hop Upstream_to_downstream 9 1000 120 (Some 1400) = Inr a"
    unfolding relay_authorization_exact
    by (auto simp: a_def sample_hop_def live_node_def has_role_def topology_node_ids_def sample_topology_def u32_field_def
        limit_field_def allows_packet_def is_expired_def)
  moreover have "allows_packet a 1400 1000" "\<not> allows_packet a 1401 1000"
    by (simp_all add: a_def allows_packet_def is_expired_def)
  ultimately show ?thesis by blast
qed

definition executor_matches :: "int \<Rightarrow> relay_authorization \<Rightarrow> relay_executor \<Rightarrow> bool" where
  "executor_matches now a e \<longleftrightarrow>
     re_expires_at_unix_us e \<in> {ra_expires_at a - 1, ra_expires_at a} \<and> now \<le> re_expires_at_unix_us e \<and>
     nh_endpoint (ra_next_hop a) = [117, 100, 112, 58] @ re_next_hop_address e \<and>
     re_relay_receiver_index e = ra_relay_receiver_index a \<and>
     re_next_hop_receiver_index e = nh_receiver_index (ra_next_hop a) \<and> re_max_packet_size e = ra_max_packet_size a"

text \<open>
  C38. Compiling relay authorisations fails closed: every executor entry comes from an authorisation that
  has not expired, no unexpired one is lost, receiver indexes, size limit and address are the authorised
  ones, and the executor's expiry, computed in floating point, is never later than the authorised expiry
  and at most one microsecond earlier. It succeeds on every list of valid authorisations whose live
  entries name a udp endpoint. Times up to \<open>2 ^ 51\<close> microseconds reach beyond the year 2040.
\<close>
theorem relay_executor_fails_closed:
  assumes "\<forall>a\<in>set authorizations. authorization_fields_ok a \<and> next_hop_fields_ok (ra_next_hop a) \<and> ra_expires_at a < 2 ^ 51"
    and "\<forall>a\<in>set authorizations. now < ra_expires_at a \<longrightarrow>
      (\<exists>address. nh_endpoint (ra_next_hop a) = [117, 100, 112, 58] @ address \<and> address \<noteq> [])"
    and "0 \<le> now"
  shows "\<exists>es. compile_relay_executor_configs authorizations now = Inr es \<and>
    list_all2 (executor_matches now) (filter (\<lambda>a. now < ra_expires_at a) authorizations) es"
proof -
  define live where "live = filter (\<lambda>a. now < ra_expires_at a) authorizations"
  have "\<exists>e. from_authorization a = Inr e \<and> executor_matches now a e" if "a \<in> set live" for a
  proof -
    have a: "a \<in> set authorizations" "now < ra_expires_at a" using that by (auto simp: live_def)
    then obtain address where "nh_endpoint (ra_next_hop a) = [117, 100, 112, 58] @ address" "address \<noteq> []"
      using assms(2) by blast
    then obtain e where e: "from_authorization a = Inr e"
      using from_authorization_total [of a address] assms(1,3) a by force
    have "re_expires_at_unix_us e \<in> {ra_expires_at a - 1, ra_expires_at a}"
      using seconds_microseconds [of "ra_expires_at a"] executor_of(2) [OF e] assms(1,3) a by force
    then show ?thesis using executor_of [OF e] e a(2) by (auto simp: executor_matches_def)
  qed
  from map_res_total [of live from_authorization "executor_matches now", OF this] show ?thesis
    by (simp add: compile_relay_executor_configs_def live_def is_expired_def not_le)
qed

definition sample_authorization :: "int \<Rightarrow> relay_authorization" where
  "sample_authorization expires =
     \<lparr> ra_relay_receiver_index = 9, ra_upstream_peer_node_id = [97], ra_relay_node_id = [98], ra_next_hop = sample_hop,
       ra_direction = Upstream_to_downstream, ra_topology_generation = 4, ra_expires_at = expires,
       ra_max_packet_size = None, ra_max_packets = None, ra_max_bytes = None \<rparr>"

theorem relay_executor_fails_closed_witness:
  "\<exists>e. compile_relay_executor_configs [sample_authorization 1000, sample_authorization 1700000000000001] 1000 = Inr [e]
     \<and> re_next_hop_address e = [104] \<and> re_expires_at_unix_us e \<le> 1700000000000001"
  using relay_executor_fails_closed [of "[sample_authorization 1000, sample_authorization 1700000000000001]" 1000]
  by (auto simp: sample_authorization_def sample_hop_def authorization_fields_ok_def next_hop_fields_ok_def u32_field_def
      limit_field_def executor_matches_def list_all2_Cons1)

end
