(* ===== verification/Noise.thy ===== *)
theory Noise
  imports Sessions Envelope
begin

text \<open>
  The Noise-IK-style handshake of \<^verbatim>\<open>security/noise.py\<close>: the initiator's message, the responder's
  acceptance, the initiator's completion, and the symmetric state both sides keep.

  X25519, HKDF and SHA-256 are the fields of \<open>crypto\<close>, ChaCha20-Poly1305 the pair of parameters of
  \<^verbatim>\<open>Envelope\<close>. Random choices are arguments: \<open>eph\<close> is the key pair
  \<^verbatim>\<open>_generate_x25519_ephemeral\<close> draws, \<open>draw\<close> the number behind \<^verbatim>\<open>generate_receiver_index\<close>. Messages
  are records with the fields the code writes; a field of the wrong JSON type is not represented. The
  hash of the first message is taken over its canonical JSON text, rendered here with \<^verbatim>\<open>isoformat\<close>
  times in UTC.
\<close>

section \<open>Messages\<close>

record noise_initiation =
  nm_schema_version :: int
  nm_protocol :: ustr
  nm_topology_generation :: int
  nm_initiator_node_id :: ustr
  nm_responder_node_id :: ustr
  nm_initiator_receiver_index :: int
  nm_initiator_ephemeral_x25519 :: ustr
  nm_encrypted_initiator_static_x25519 :: ustr
  nm_created_at :: int
  nm_expires_at :: int

record noise_response =
  nr_schema_version :: int
  nr_protocol :: ustr
  nr_topology_generation :: int
  nr_initiator_node_id :: ustr
  nr_responder_node_id :: ustr
  nr_initiation_hash :: ustr
  nr_responder_ephemeral_x25519 :: ustr
  nr_receiver_index :: int
  nr_responder_receiver_index :: int
  nr_created_at :: int
  nr_expires_at :: int

record pending_noise =
  pd_message :: noise_initiation
  pd_ephemeral_private :: bytes
  pd_created_at :: int
  pd_expires_at :: int

record accepted_noise =
  an_response :: noise_response
  an_session :: session_plan

section \<open>Canonical JSON\<close>

definition hex_digit :: "nat \<Rightarrow> nat" where
  "hex_digit d = (if d < 10 then 48 + d else 87 + d)"

definition hex4 :: "nat \<Rightarrow> ustr" where
  "hex4 c = map hex_digit [c div 4096 mod 16, c div 256 mod 16, c div 16 mod 16, c mod 16]"

definition json_char :: "nat \<Rightarrow> ustr" where
  "json_char c =
     (if c = 34 then [92, 34] else if c = 92 then [92, 92]
      else if c = 10 then [92, 110] else if c = 13 then [92, 114] else if c = 9 then [92, 116]
      else if c = 8 then [92, 98] else if c = 12 then [92, 102]
      else if 32 \<le> c \<and> c \<le> 126 then [c]
      else if c < 65536 then [92, 117] @ hex4 c
      else [92, 117] @ hex4 (55296 + (c - 65536) div 1024) @ [92, 117] @ hex4 (56320 + (c - 65536) mod 1024))"

definition json_string :: "ustr \<Rightarrow> ustr" where
  "json_string s = [34] @ concat (map json_char s) @ [34]"

definition pad_int :: "nat \<Rightarrow> int \<Rightarrow> ustr" where
  "pad_int width i = (let s = decimal_digits (nat i) in replicate (width - length s) 48 @ s)"

text \<open>Days since the epoch to year, month and day of the proleptic Gregorian calendar.\<close>

definition civil_from_days :: "int \<Rightarrow> int \<times> int \<times> int" where
  "civil_from_days z =
     (let z = z + 719468;
          era = z div 146097;
          doe = z mod 146097;
          yoe = (doe - doe div 1460 + doe div 36524 - doe div 146096) div 365;
          doy = doe - (365 * yoe + yoe div 4 - yoe div 100);
          mp = (5 * doy + 2) div 153;
          d = doy - (153 * mp + 2) div 5 + 1;
          m = (if mp < 10 then mp + 3 else mp - 9);
          y = yoe + era * 400 + (if m \<le> 2 then 1 else 0)
      in (y, m, d))"

definition isoformat :: "int \<Rightarrow> ustr" where
  "isoformat us =
     (let (y, m, d) = civil_from_days (us div 86400000000);
          s = us div 1000000 mod 86400;
          frac = us mod 1000000
      in pad_int 4 y @ [45] @ pad_int 2 m @ [45] @ pad_int 2 d @ [84]
         @ pad_int 2 (s div 3600) @ [58] @ pad_int 2 (s div 60 mod 60) @ [58] @ pad_int 2 (s mod 60)
         @ (if frac = 0 then [] else [46] @ pad_int 6 frac) @ str_lit ''+00:00'')"

definition json_object :: "(ustr \<times> ustr) list \<Rightarrow> ustr" where
  "json_object kvs =
     [123] @ concat (case map (\<lambda>(k, v). json_string k @ [58] @ v) kvs of
       [] \<Rightarrow> [] | x # xs \<Rightarrow> x # map ((#) 44) xs) @ [125]"

definition json_canonical_bytes :: "noise_initiation \<Rightarrow> bytes" where
  "json_canonical_bytes m =
     map byte_of (json_object
       [(str_lit ''created_at'', json_string (isoformat (nm_created_at m))),
        (str_lit ''encrypted_initiator_static_x25519'', json_string (nm_encrypted_initiator_static_x25519 m)),
        (str_lit ''expires_at'', json_string (isoformat (nm_expires_at m))),
        (str_lit ''initiator_ephemeral_x25519'', json_string (nm_initiator_ephemeral_x25519 m)),
        (str_lit ''initiator_node_id'', json_string (nm_initiator_node_id m)),
        (str_lit ''initiator_receiver_index'', str_of_int (nm_initiator_receiver_index m)),
        (str_lit ''protocol'', json_string (nm_protocol m)),
        (str_lit ''responder_node_id'', json_string (nm_responder_node_id m)),
        (str_lit ''schema_version'', str_of_int (nm_schema_version m)),
        (str_lit ''topology_generation'', str_of_int (nm_topology_generation m))])"

definition message_hash :: "crypto \<Rightarrow> noise_initiation \<Rightarrow> bytes" where
  "message_hash cr m = sha256 cr (json_canonical_bytes m)"

section \<open>Symmetric state\<close>

record noise_state =
  ns_ck :: bytes
  ns_h :: bytes

definition mix_hash :: "crypto \<Rightarrow> bytes \<Rightarrow> noise_state \<Rightarrow> noise_state" where
  "mix_hash cr v st = st\<lparr> ns_h := sha256 cr (ns_h st @ v) \<rparr>"

definition mix_key :: "crypto \<Rightarrow> bytes \<Rightarrow> noise_state \<Rightarrow> bytes \<times> noise_state" where
  "mix_key cr input_key_material st =
     (let output = hkdf_sha256 cr (ns_ck st) (ascii_lit ''noise-mix-key'') input_key_material 64
      in (drop 32 output, st\<lparr> ns_ck := take 32 output \<rparr>))"

definition NOISE_NONCE_ZERO :: bytes where
  "NOISE_NONCE_ZERO = replicate 12 0"

definition encrypt_and_hash ::
  "crypto \<Rightarrow> aead_encrypt \<Rightarrow> bytes \<Rightarrow> bytes \<Rightarrow> noise_state \<Rightarrow> bytes \<times> noise_state" where
  "encrypt_and_hash cr encrypt key plaintext st =
     (let ciphertext = encrypt key NOISE_NONCE_ZERO plaintext (ns_h st) in (ciphertext, mix_hash cr ciphertext st))"

definition decrypt_and_hash ::
  "crypto \<Rightarrow> aead_decrypt \<Rightarrow> bytes \<Rightarrow> bytes \<Rightarrow> noise_state \<Rightarrow> (bytes \<times> noise_state) res" where
  "decrypt_and_hash cr decrypt key ciphertext st =
     (case decrypt key NOISE_NONCE_ZERO ciphertext (ns_h st) of
        None \<Rightarrow> Inl silently_dropped
      | Some plaintext \<Rightarrow> Inr (plaintext, mix_hash cr ciphertext st))"

definition for_pair :: "crypto \<Rightarrow> topology \<Rightarrow> ustr \<Rightarrow> ustr \<Rightarrow> noise_state res" where
  "for_pair cr topo initiator_node_id responder_node_id =
     (let h = sha256 cr (ascii_lit ''Noise_IK_25519_ChaChaPoly_SHA256_GatherlinkV1'') in
      rbind (ascii_encode (str_of_int (tb_generation topo))) (\<lambda>g.
      rbind (ascii_encode (tb_issuer_node_id topo)) (\<lambda>issuer.
      rbind (ascii_encode initiator_node_id) (\<lambda>i.
      rbind (ascii_encode responder_node_id) (\<lambda>r.
        Inr (mix_hash cr (ascii_lit ''GATHERLINK_NOISE_IK_PROLOGUE_V1'' @ g @ issuer @ i @ r)
               \<lparr> ns_ck = h, ns_h = h \<rparr>))))))"

definition derive_transport_keys :: "crypto \<Rightarrow> noise_state \<Rightarrow> bytes \<times> bytes" where
  "derive_transport_keys cr st =
     (let material = hkdf_sha256 cr (ns_ck st) (ascii_lit ''GATHERLINK_NOISE_IK_TRANSPORT_KEYS_V1'' @ ns_h st) [] 64
      in (take 32 material, drop 32 material))"

section \<open>Checks\<close>

definition validate_lifetime :: "int \<Rightarrow> unit res" where
  "validate_lifetime lifetime_seconds = (if lifetime_seconds \<le> 0 then Inl (ValueError ''lifetime must be positive'') else Inr ())"

definition validate_receiver_index :: "int \<Rightarrow> unit res" where
  "validate_receiver_index i = (if i < 0 \<or> i \<ge> 2 ^ 32 then Inl (ValueError ''receiver_index must fit u32'') else Inr ())"

definition require_not_expired :: "int \<Rightarrow> int \<Rightarrow> int \<Rightarrow> unit res" where
  "require_not_expired created_at expires_at now =
     (if now < created_at \<or> now > expires_at then Inl silently_dropped else Inr ())"

definition topology_identity_by_node_id :: "topology \<Rightarrow> ustr \<Rightarrow> identity_public res" where
  "topology_identity_by_node_id topo node_id =
     (if node_id \<in> set (tb_revoked_node_ids topo) then Inl silently_dropped
      else case filter (\<lambda>n. ip_node_id (pn_identity n) = node_id) (tb_nodes topo) of
        [] \<Rightarrow> Inl silently_dropped
      | n # _ \<Rightarrow> Inr (pn_identity n))"

fun identity_by_x25519 :: "ustr list \<Rightarrow> provisioned_node list \<Rightarrow> bytes \<Rightarrow> identity_public res" where
  "identity_by_x25519 revoked [] x25519_public = Inl silently_dropped"
| "identity_by_x25519 revoked (n # ns) x25519_public =
     (if ip_node_id (pn_identity n) \<in> set revoked then identity_by_x25519 revoked ns x25519_public
      else rbind (public_bytes (pn_identity n)) (\<lambda>(_, _, candidate).
        if candidate = x25519_public then Inr (pn_identity n)
        else identity_by_x25519 revoked ns x25519_public))"

definition topology_identity_by_x25519 :: "topology \<Rightarrow> bytes \<Rightarrow> identity_public res" where
  "topology_identity_by_x25519 topo x25519_public =
     identity_by_x25519 (tb_revoked_node_ids topo) (tb_nodes topo) x25519_public"

definition NOISE_IK :: ustr where
  "NOISE_IK = [110, 111, 105, 115, 101, 45, 105, 107]"

definition verified_noise_initiation_header ::
  "noise_initiation \<Rightarrow> topology \<Rightarrow> identity_public \<Rightarrow> int \<Rightarrow> unit res" where
  "verified_noise_initiation_header m topo responder now =
     (if nm_protocol m \<noteq> NOISE_IK \<or> nm_schema_version m \<noteq> 1 then Inl silently_dropped
      else if nm_topology_generation m \<noteq> tb_generation topo then Inl silently_dropped
      else if nm_responder_node_id m \<noteq> ip_node_id responder then Inl silently_dropped
      else rbind (validate_receiver_index (nm_initiator_receiver_index m)) (\<lambda>_.
        rbind (require_not_expired (nm_created_at m) (nm_expires_at m) now) (\<lambda>_.
        rbind (topology_identity_by_node_id topo (nm_initiator_node_id m)) (\<lambda>_. Inr ()))))"

definition verified_noise_response ::
  "crypto \<Rightarrow> noise_response \<Rightarrow> pending_noise \<Rightarrow> topology \<Rightarrow> identity_public \<Rightarrow> int \<Rightarrow> unit res" where
  "verified_noise_response cr m pending topo initiator now =
     (if nr_protocol m \<noteq> NOISE_IK \<or> nr_schema_version m \<noteq> 1 then Inl silently_dropped
      else if nr_topology_generation m \<noteq> tb_generation topo then Inl silently_dropped
      else if nr_initiator_node_id m \<noteq> ip_node_id initiator then Inl silently_dropped
      else if nr_initiation_hash m \<noteq> b64encode (message_hash cr (pd_message pending)) then Inl silently_dropped
      else rbind (validate_receiver_index (nr_responder_receiver_index m)) (\<lambda>_.
        rbind (require_not_expired (nr_created_at m) (nr_expires_at m) now) (\<lambda>_.
        rbind (topology_identity_by_node_id topo (nr_responder_node_id m)) (\<lambda>_. Inr ()))))"

section \<open>The three steps\<close>

definition receiver_index_or :: "int option \<Rightarrow> int \<Rightarrow> int" where
  "receiver_index_or i draw = (case i of Some v \<Rightarrow> v | None \<Rightarrow> generate_receiver_index draw)"

definition create_noise_ik_initiation ::
  "crypto \<Rightarrow> aead_encrypt \<Rightarrow> node_identity \<Rightarrow> identity_public \<Rightarrow> topology \<Rightarrow> int option \<Rightarrow> int \<Rightarrow> bytes \<times> bytes \<Rightarrow> int \<Rightarrow> int
     \<Rightarrow> pending_noise res" where
  "create_noise_ik_initiation cr encrypt local_identity peer_identity topo index draw eph now lifetime_seconds =
     (let expires_at = now + seconds lifetime_seconds;
          receiver_index = receiver_index_or index draw;
          local_public = public_of_identity local_identity;
          (ephemeral_private, ephemeral_public) = eph in
      rbind (validate_lifetime lifetime_seconds) (\<lambda>_.
      rbind (validate_receiver_index receiver_index) (\<lambda>_.
      rbind (require_topology_member topo local_public) (\<lambda>_.
      rbind (require_topology_member topo peer_identity) (\<lambda>_.
      rbind (public_bytes peer_identity) (\<lambda>(_, _, peer_static_public).
      rbind (for_pair cr topo (ip_node_id local_public) (ip_node_id peer_identity)) (\<lambda>st0.
      let st = mix_hash cr ephemeral_public (mix_hash cr peer_static_public st0) in
      rbind (x25519_shared_secret cr ephemeral_private peer_static_public) (\<lambda>es.
      let (k, st) = mix_key cr es st;
          (encrypted_static, st) = encrypt_and_hash cr encrypt k (ni_x25519_public local_identity) st in
      rbind (x25519_shared_secret cr (ni_x25519_private local_identity) peer_static_public) (\<lambda>ss.
        Inr \<lparr> pd_message =
                \<lparr> nm_schema_version = 1, nm_protocol = NOISE_IK, nm_topology_generation = tb_generation topo,
                  nm_initiator_node_id = ip_node_id local_public, nm_responder_node_id = ip_node_id peer_identity,
                  nm_initiator_receiver_index = receiver_index,
                  nm_initiator_ephemeral_x25519 = b64encode ephemeral_public,
                  nm_encrypted_initiator_static_x25519 = b64encode encrypted_static,
                  nm_created_at = now, nm_expires_at = expires_at \<rparr>,
              pd_ephemeral_private = ephemeral_private, pd_created_at = now, pd_expires_at = expires_at \<rparr>)))))))))"

definition accept_noise_ik_initiation ::
  "crypto \<Rightarrow> aead_decrypt \<Rightarrow> node_identity \<Rightarrow> noise_initiation \<Rightarrow> topology \<Rightarrow> int option \<Rightarrow> int \<Rightarrow> bytes \<times> bytes \<Rightarrow> int \<Rightarrow> int
     \<Rightarrow> accepted_noise res" where
  "accept_noise_ik_initiation cr decrypt responder_identity initiation topo index draw eph now session_lifetime_seconds =
     (let receiver_index = receiver_index_or index draw;
          responder_public = public_of_identity responder_identity;
          (responder_ephemeral_private, responder_ephemeral_public) = eph in
      rbind (validate_receiver_index receiver_index) (\<lambda>_.
      rbind (validate_lifetime session_lifetime_seconds) (\<lambda>_.
      rbind (verified_noise_initiation_header initiation topo responder_public now) (\<lambda>_.
      rbind (b64decode (nm_initiator_ephemeral_x25519 initiation)) (\<lambda>initiator_ephemeral_public.
      if length initiator_ephemeral_public \<noteq> 32 then Inl silently_dropped
      else
      rbind (for_pair cr topo (nm_initiator_node_id initiation) (ip_node_id responder_public)) (\<lambda>st0.
      let st = mix_hash cr initiator_ephemeral_public (mix_hash cr (ni_x25519_public responder_identity) st0) in
      rbind (x25519_shared_secret cr (ni_x25519_private responder_identity) initiator_ephemeral_public) (\<lambda>es.
      let (k, st) = mix_key cr es st in
      rbind (b64decode (nm_encrypted_initiator_static_x25519 initiation)) (\<lambda>encrypted_static.
      rbind (decrypt_and_hash cr decrypt k encrypted_static st) (\<lambda>(initiator_static_public, st).
      rbind (topology_identity_by_x25519 topo initiator_static_public) (\<lambda>initiator_public.
      if ip_node_id initiator_public \<noteq> nm_initiator_node_id initiation then Inl silently_dropped
      else
      rbind (x25519_shared_secret cr (ni_x25519_private responder_identity) initiator_static_public) (\<lambda>ss.
      let (_, st) = mix_key cr ss st;
          st = mix_hash cr responder_ephemeral_public st in
      rbind (x25519_shared_secret cr responder_ephemeral_private initiator_ephemeral_public) (\<lambda>ee.
      let (_, st) = mix_key cr ee st in
      rbind (x25519_shared_secret cr (ni_x25519_private responder_identity) initiator_ephemeral_public) (\<lambda>es2.
      let (_, st) = mix_key cr es2 st;
          (receive_key, send_key) = derive_transport_keys cr st;
          expires_at = now + seconds session_lifetime_seconds in
        Inr \<lparr> an_response =
                \<lparr> nr_schema_version = 1, nr_protocol = NOISE_IK, nr_topology_generation = tb_generation topo,
                  nr_initiator_node_id = ip_node_id initiator_public, nr_responder_node_id = ip_node_id responder_public,
                  nr_initiation_hash = b64encode (message_hash cr initiation),
                  nr_responder_ephemeral_x25519 = b64encode responder_ephemeral_public,
                  nr_receiver_index = receiver_index, nr_responder_receiver_index = receiver_index,
                  nr_created_at = now, nr_expires_at = expires_at \<rparr>,
              an_session =
                \<lparr> sp_local_node_id = ip_node_id responder_public, sp_peer_node_id = ip_node_id initiator_public,
                  sp_topology_generation = tb_generation topo, sp_receiver_index = receiver_index, sp_role = Responder,
                  sp_created_at = now, sp_expires_at = expires_at,
                  sp_rekey_after_packets = DEFAULT_REKEY_AFTER_PACKETS, sp_rekey_after_bytes = DEFAULT_REKEY_AFTER_BYTES,
                  sp_security = Some \<lparr> tm_receiver_index = receiver_index, tm_send_key = send_key,
                    tm_receive_key = receive_key, tm_local_receiver_index = receiver_index,
                    tm_remote_receiver_index = nm_initiator_receiver_index initiation \<rparr> \<rparr> \<rparr>)))))))))))))"

definition complete_noise_ik_initiator ::
  "crypto \<Rightarrow> aead_encrypt \<Rightarrow> node_identity \<Rightarrow> pending_noise \<Rightarrow> noise_response \<Rightarrow> topology \<Rightarrow> int \<Rightarrow> session_plan res" where
  "complete_noise_ik_initiator cr encrypt local_identity pending response topo now =
     (let local_public = public_of_identity local_identity in
      rbind (verified_noise_response cr response pending topo local_public now) (\<lambda>_.
      rbind (topology_identity_by_node_id topo (nr_responder_node_id response)) (\<lambda>responder_public.
      rbind (b64decode (nm_initiator_ephemeral_x25519 (pd_message pending))) (\<lambda>initiator_ephemeral_public.
      rbind (b64decode (nr_responder_ephemeral_x25519 response)) (\<lambda>responder_ephemeral_public.
      if length responder_ephemeral_public \<noteq> 32 then Inl silently_dropped
      else
      rbind (for_pair cr topo (ip_node_id local_public) (ip_node_id responder_public)) (\<lambda>st0.
      rbind (public_bytes responder_public) (\<lambda>(_, _, responder_static_public).
      let st = mix_hash cr initiator_ephemeral_public (mix_hash cr responder_static_public st0) in
      rbind (x25519_shared_secret cr (pd_ephemeral_private pending) responder_static_public) (\<lambda>es.
      let (k, st) = mix_key cr es st;
          (encrypted_static, st) = encrypt_and_hash cr encrypt k (ni_x25519_public local_identity) st in
      rbind (b64decode (nm_encrypted_initiator_static_x25519 (pd_message pending))) (\<lambda>sent_static.
      if encrypted_static \<noteq> sent_static then Inl silently_dropped
      else
      rbind (x25519_shared_secret cr (ni_x25519_private local_identity) responder_static_public) (\<lambda>ss.
      let (_, st) = mix_key cr ss st;
          st = mix_hash cr responder_ephemeral_public st in
      rbind (x25519_shared_secret cr (pd_ephemeral_private pending) responder_ephemeral_public) (\<lambda>ee.
      let (_, st) = mix_key cr ee st in
      rbind (x25519_shared_secret cr (pd_ephemeral_private pending) responder_static_public) (\<lambda>es2.
      let (_, st) = mix_key cr es2 st;
          (send_key, receive_key) = derive_transport_keys cr st;
          remote_receiver_index = nr_responder_receiver_index response;
          local_receiver_index = nm_initiator_receiver_index (pd_message pending) in
        Inr \<lparr> sp_local_node_id = ip_node_id local_public, sp_peer_node_id = ip_node_id responder_public,
              sp_topology_generation = tb_generation topo, sp_receiver_index = remote_receiver_index, sp_role = Initiator,
              sp_created_at = now, sp_expires_at = nr_expires_at response,
              sp_rekey_after_packets = DEFAULT_REKEY_AFTER_PACKETS, sp_rekey_after_bytes = DEFAULT_REKEY_AFTER_BYTES,
              sp_security = Some \<lparr> tm_receiver_index = remote_receiver_index, tm_send_key = send_key,
                tm_receive_key = receive_key, tm_local_receiver_index = local_receiver_index,
                tm_remote_receiver_index = remote_receiver_index \<rparr> \<rparr>))))))))))))"

section \<open>Lemmas\<close>

lemma decrypt_encrypted:
  assumes "aead encrypt decrypt"
  shows "decrypt_and_hash cr decrypt k (fst (encrypt_and_hash cr encrypt k p st)) st
    = Inr (p, snd (encrypt_and_hash cr encrypt k p st))"
proof -
  have "decrypt k NOISE_NONCE_ZERO (encrypt k NOISE_NONCE_ZERO p (ns_h st)) (ns_h st) = Some p"
    using assms by (simp add: aead_def)
  then show ?thesis by (simp add: decrypt_and_hash_def encrypt_and_hash_def Let_def)
qed

lemma identity_by_node_id_listed:
  assumes "n \<in> set (tb_nodes topo)" and "distinct (topology_node_ids topo)"
    and "ip_node_id (pn_identity n) \<notin> set (tb_revoked_node_ids topo)"
  shows "topology_identity_by_node_id topo (ip_node_id (pn_identity n)) = Inr (pn_identity n)"
proof -
  define hits where "hits = filter (\<lambda>m. ip_node_id (pn_identity m) = ip_node_id (pn_identity n)) (tb_nodes topo)"
  have "n \<in> set hits" using assms(1) by (simp add: hits_def)
  then obtain m ms where m: "hits = m # ms" by (cases hits) auto
  then have "m \<in> set hits" by simp
  then have "m \<in> set (tb_nodes topo)" "ip_node_id (pn_identity m) = ip_node_id (pn_identity n)" by (auto simp: hits_def)
  then have "m = n" using assms(1,2) by (auto simp: topology_node_ids_def distinct_map inj_on_def)
  then show ?thesis using assms(3) m by (simp add: topology_identity_by_node_id_def hits_def)
qed

lemma identity_by_x25519_Inr:
  "identity_by_x25519 revoked ns x = Inr i \<Longrightarrow>
     ip_node_id i \<notin> set revoked \<and> (\<exists>n\<in>set ns. pn_identity n = i) \<and> (\<exists>a b. public_bytes i = Inr (a, b, x))"
  by (induction ns) (auto simp: rbind_eq_Inr split: if_split_asm)

text \<open>The topology \<open>topo\<close> can identify a node by its X25519 key.\<close>

definition identifies :: "topology \<Rightarrow> node_identity \<Rightarrow> bool" where
  "identifies topo a \<longleftrightarrow>
     (\<exists>n\<in>set (tb_nodes topo). pn_identity n = public_of_identity a) \<and>
     ip_node_id (public_of_identity a) \<notin> set (tb_revoked_node_ids topo) \<and>
     (\<forall>n\<in>set (tb_nodes topo). ip_node_id (pn_identity n) \<notin> set (tb_revoked_node_ids topo) \<longrightarrow>
        (\<exists>i e x. public_bytes (pn_identity n) = Inr (i, e, x) \<and>
           (x = ni_x25519_public a \<longrightarrow> pn_identity n = public_of_identity a)))"

lemma identity_by_x25519_listed:
  assumes "\<exists>n\<in>set ns. pn_identity n = i" and "ip_node_id i \<notin> set revoked" and "public_bytes i = Inr (a, b, x)"
    and "\<forall>n\<in>set ns. ip_node_id (pn_identity n) \<notin> set revoked \<longrightarrow>
      (\<exists>i' e x'. public_bytes (pn_identity n) = Inr (i', e, x') \<and> (x' = x \<longrightarrow> pn_identity n = i))"
  shows "identity_by_x25519 revoked ns x = Inr i"
  using assms(1,4)
proof (induction ns)
  case (Cons n ns)
  show ?case
  proof (cases "ip_node_id (pn_identity n) \<in> set revoked")
    case True
    then show ?thesis using Cons assms(2) by auto
  next
    case False
    then obtain i' e x' where p: "public_bytes (pn_identity n) = Inr (i', e, x')" "x' = x \<longrightarrow> pn_identity n = i"
      using Cons.prems(2) by auto
    show ?thesis
    proof (cases "x' = x")
      case True
      then show ?thesis using False p by simp
    next
      case ne: False
      then have "pn_identity n \<noteq> i" using p(1) assms(3) by auto
      then show ?thesis using False p ne Cons by auto
    qed
  qed
qed simp

lemma member_of_identifies: "identifies topo a \<Longrightarrow> require_topology_member topo (public_of_identity a) = Inr ()"
  by (force simp: identifies_def require_member_iff topology_node_ids_def)

lemma by_node_id_of_identifies:
  assumes "identifies topo a" and "distinct (topology_node_ids topo)"
  shows "topology_identity_by_node_id topo (ip_node_id (public_of_identity a)) = Inr (public_of_identity a)"
proof -
  obtain n where "n \<in> set (tb_nodes topo)" "pn_identity n = public_of_identity a" using assms(1) by (auto simp: identifies_def)
  then show ?thesis using identity_by_node_id_listed [of n topo] assms by (simp add: identifies_def)
qed

lemma by_x25519_of_identifies:
  assumes "identifies topo a" and "crypto_ok cr" and "identity_wf cr a"
  shows "topology_identity_by_x25519 topo (ni_x25519_public a) = Inr (public_of_identity a)"
  unfolding topology_identity_by_x25519_def
  by (rule identity_by_x25519_listed [OF _ _ public_bytes_of_identity [OF assms(2,3)]])
    (use assms(1) in \<open>auto simp: identifies_def\<close>)

text \<open>The state after the first message, with the encrypted static key it carries.\<close>

definition first_message :: "crypto \<Rightarrow> aead_encrypt \<Rightarrow> noise_state \<Rightarrow> bytes \<Rightarrow> bytes \<Rightarrow> bytes \<Rightarrow> bytes \<Rightarrow> bytes \<times> noise_state" where
  "first_message cr encrypt st0 rs e es static =
     (let km = mix_key cr es (mix_hash cr e (mix_hash cr rs st0)) in encrypt_and_hash cr encrypt (fst km) static (snd km))"

text \<open>The state after the second message, from which the transport keys are derived.\<close>

definition final_state :: "crypto \<Rightarrow> noise_state \<Rightarrow> bytes \<Rightarrow> bytes \<Rightarrow> bytes \<Rightarrow> bytes \<Rightarrow> noise_state" where
  "final_state cr st ss re ee es =
     snd (mix_key cr es (snd (mix_key cr ee (mix_hash cr re (snd (mix_key cr ss st))))))"

text \<open>What the three steps return on a successful run, in terms of the shared secrets.\<close>

definition initiation_of ::
  "crypto \<Rightarrow> aead_encrypt \<Rightarrow> topology \<Rightarrow> node_identity \<Rightarrow> node_identity \<Rightarrow> noise_state \<Rightarrow> bytes \<Rightarrow> bytes \<Rightarrow> int \<Rightarrow> int \<Rightarrow> int
     \<Rightarrow> noise_initiation" where
  "initiation_of cr encrypt topo a b st0 ep es i now life =
     \<lparr> nm_schema_version = 1, nm_protocol = NOISE_IK, nm_topology_generation = tb_generation topo,
       nm_initiator_node_id = ip_node_id (public_of_identity a), nm_responder_node_id = ip_node_id (public_of_identity b),
       nm_initiator_receiver_index = i, nm_initiator_ephemeral_x25519 = b64encode ep,
       nm_encrypted_initiator_static_x25519 =
         b64encode (fst (first_message cr encrypt st0 (ni_x25519_public b) ep es (ni_x25519_public a))),
       nm_created_at = now, nm_expires_at = now + seconds life \<rparr>"

definition session_keys ::
  "crypto \<Rightarrow> aead_encrypt \<Rightarrow> node_identity \<Rightarrow> node_identity \<Rightarrow> noise_state \<Rightarrow> bytes \<Rightarrow> bytes \<Rightarrow> bytes \<Rightarrow> bytes \<Rightarrow> bytes \<Rightarrow> bytes \<times> bytes" where
  "session_keys cr encrypt a b st0 ep re es ss ee =
     derive_transport_keys cr
       (final_state cr (snd (first_message cr encrypt st0 (ni_x25519_public b) ep es (ni_x25519_public a))) ss re ee es)"

definition response_of ::
  "crypto \<Rightarrow> topology \<Rightarrow> node_identity \<Rightarrow> node_identity \<Rightarrow> noise_initiation \<Rightarrow> bytes \<Rightarrow> int \<Rightarrow> int \<Rightarrow> int \<Rightarrow> noise_response" where
  "response_of cr topo a b m re j now life =
     \<lparr> nr_schema_version = 1, nr_protocol = NOISE_IK, nr_topology_generation = tb_generation topo,
       nr_initiator_node_id = ip_node_id (public_of_identity a), nr_responder_node_id = ip_node_id (public_of_identity b),
       nr_initiation_hash = b64encode (message_hash cr m), nr_responder_ephemeral_x25519 = b64encode re,
       nr_receiver_index = j, nr_responder_receiver_index = j, nr_created_at = now, nr_expires_at = now + seconds life \<rparr>"

definition session_of ::
  "topology \<Rightarrow> session_role \<Rightarrow> node_identity \<Rightarrow> node_identity \<Rightarrow> int \<Rightarrow> int \<Rightarrow> int \<Rightarrow> int \<Rightarrow> int \<Rightarrow> bytes \<Rightarrow> bytes \<Rightarrow> session_plan" where
  "session_of topo role l peer index local remote now expires send receive =
     \<lparr> sp_local_node_id = ip_node_id (public_of_identity l), sp_peer_node_id = ip_node_id (public_of_identity peer),
       sp_topology_generation = tb_generation topo, sp_receiver_index = index, sp_role = role,
       sp_created_at = now, sp_expires_at = expires,
       sp_rekey_after_packets = DEFAULT_REKEY_AFTER_PACKETS, sp_rekey_after_bytes = DEFAULT_REKEY_AFTER_BYTES,
       sp_security = Some \<lparr> tm_receiver_index = index, tm_send_key = send, tm_receive_key = receive,
         tm_local_receiver_index = local, tm_remote_receiver_index = remote \<rparr> \<rparr>"

lemma create_noise_ok:
  assumes "crypto_ok cr" and "identity_wf cr b" and "identifies topo a" and "identifies topo b"
    and "for_pair cr topo (ip_node_id (public_of_identity a)) (ip_node_id (public_of_identity b)) = Inr st0"
    and "x25519_exchange cr ek (ni_x25519_public b) = Some es"
    and "x25519_exchange cr (ni_x25519_private a) (ni_x25519_public b) = Some ss"
    and "0 \<le> i" and "i < 2 ^ 32" and "0 < life"
  shows "create_noise_ik_initiation cr encrypt a (public_of_identity b) topo (Some i) draw (ek, ep) now life = Inr
    \<lparr> pd_message = initiation_of cr encrypt topo a b st0 ep es i now life,
      pd_ephemeral_private = ek, pd_created_at = now, pd_expires_at = now + seconds life \<rparr>"
  using assms member_of_identifies public_bytes_of_identity [OF assms(1,2)]
  by (simp add: create_noise_ik_initiation_def receiver_index_or_def validate_lifetime_def validate_receiver_index_def
      x25519_shared_secret_def of_option_def first_message_def Let_def split_beta initiation_of_def)

lemma accept_noise_ok:
  assumes cr: "crypto_ok cr" and ae: "aead encrypt decrypt" and a: "identity_wf cr a" and ia: "identifies topo a"
    and d: "distinct (topology_node_ids topo)"
    and st0: "for_pair cr topo (ip_node_id (public_of_identity a)) (ip_node_id (public_of_identity b)) = Inr st0"
    and dh: "x25519_exchange cr (ni_x25519_private b) ep = Some es"
      "x25519_exchange cr (ni_x25519_private b) (ni_x25519_public a) = Some ss" "x25519_exchange cr rk ep = Some ee"
    and idx: "length ep = 32" "0 \<le> i" "i < 2 ^ 32" "0 \<le> j" "j < 2 ^ 32"
    and times: "0 < life'" "t0 \<le> now" "now \<le> t0 + seconds life"
    and m: "m = initiation_of cr encrypt topo a b st0 ep es i t0 life"
  shows "accept_noise_ik_initiation cr decrypt b m topo (Some j) draw (rk, re) now life' = Inr
    \<lparr> an_response = response_of cr topo a b m re j now life',
      an_session = (let keys = session_keys cr encrypt a b st0 ep re es ss ee in
        session_of topo Responder b a j j i now (now + seconds life') (snd keys) (fst keys)) \<rparr>"
proof -
  have header: "verified_noise_initiation_header m topo (public_of_identity b) now = Inr ()"
    using idx times by_node_id_of_identifies [OF ia d]
    by (simp add: m initiation_of_def verified_noise_initiation_header_def validate_receiver_index_def require_not_expired_def)
  note dec = decrypt_encrypted [OF ae] and found = by_x25519_of_identifies [OF ia cr a]
  have fields: "nm_initiator_node_id m = ip_node_id (public_of_identity a)" "nm_initiator_receiver_index m = i"
    "nm_initiator_ephemeral_x25519 m = b64encode ep"
    "nm_encrypted_initiator_static_x25519 m =
       b64encode (fst (first_message cr encrypt st0 (ni_x25519_public b) ep es (ni_x25519_public a)))"
    by (simp_all add: m initiation_of_def)
  show ?thesis
    using idx times(1) st0 dh header fields
    by (simp add: accept_noise_ik_initiation_def receiver_index_or_def validate_lifetime_def validate_receiver_index_def
        x25519_shared_secret_def of_option_def first_message_def final_state_def Let_def split_beta b64decode_b64encode
        dec found response_of_def session_of_def session_keys_def)
qed

lemma complete_noise_ok:
  assumes cr: "crypto_ok cr" and b: "identity_wf cr b" and ib: "identifies topo b" and d: "distinct (topology_node_ids topo)"
    and st0: "for_pair cr topo (ip_node_id (public_of_identity a)) (ip_node_id (public_of_identity b)) = Inr st0"
    and dh: "x25519_exchange cr ek (ni_x25519_public b) = Some es"
      "x25519_exchange cr (ni_x25519_private a) (ni_x25519_public b) = Some ss" "x25519_exchange cr ek re = Some ee"
    and idx: "length re = 32" "0 \<le> j" "j < 2 ^ 32"
    and times: "t1 \<le> now" "now \<le> t1 + seconds life'"
    and p: "pd_message p = initiation_of cr encrypt topo a b st0 ep es i t0 life" "pd_ephemeral_private p = ek"
  shows "complete_noise_ik_initiator cr encrypt a p (response_of cr topo a b (pd_message p) re j t1 life') topo now = Inr
    (let keys = session_keys cr encrypt a b st0 ep re es ss ee in
     session_of topo Initiator a b j i j now (t1 + seconds life') (fst keys) (snd keys))"
proof -
  note found = by_node_id_of_identifies [OF ib d]
  have verified: "verified_noise_response cr (response_of cr topo a b (pd_message p) re j t1 life') p topo (public_of_identity a) now = Inr ()"
    using idx times found
    by (simp add: response_of_def verified_noise_response_def validate_receiver_index_def require_not_expired_def)
  have fields: "nm_initiator_receiver_index (pd_message p) = i" "nm_initiator_ephemeral_x25519 (pd_message p) = b64encode ep"
    "nm_encrypted_initiator_static_x25519 (pd_message p) =
       b64encode (fst (first_message cr encrypt st0 (ni_x25519_public b) ep es (ni_x25519_public a)))"
    by (simp_all add: p initiation_of_def)
  have resp: "nr_responder_node_id (response_of cr topo a b m re j t1 life') = ip_node_id (public_of_identity b)"
    "nr_responder_ephemeral_x25519 (response_of cr topo a b m re j t1 life') = b64encode re"
    "nr_responder_receiver_index (response_of cr topo a b m re j t1 life') = j"
    "nr_expires_at (response_of cr topo a b m re j t1 life') = t1 + seconds life'" for m
    by (simp_all add: response_of_def)
  show ?thesis
    using idx(1) st0 dh verified fields p(2) found public_bytes_of_identity [OF cr b]
    by (simp add: complete_noise_ik_initiator_def x25519_shared_secret_def of_option_def first_message_def final_state_def
        Let_def split_beta b64decode_b64encode resp session_of_def session_keys_def)
qed

lemma for_pair_total:
  assumes "\<forall>c\<in>set (tb_issuer_node_id topo). c < 128"
  shows "\<exists>st. for_pair cr topo (ip_node_id (public_of_identity a)) (ip_node_id (public_of_identity b)) = Inr st"
proof -
  have "ascii_encode (str_of_int i) = Inr (map byte_of (str_of_int i))" for i
    using decimal_digits_range by (fastforce simp: ascii_encode_def str_of_int_def)
  moreover have "ascii_encode (tb_issuer_node_id topo) = Inr (map byte_of (tb_issuer_node_id topo))"
    using assms by (auto simp: ascii_encode_def)
  ultimately show ?thesis by (simp add: for_pair_def Let_def public_of_identity_def ascii_encode_b64)
qed

lemma exchange_sym:
  "crypto_ok cr \<Longrightarrow> x25519_public_of cr k = Some p \<Longrightarrow> x25519_public_of cr k' = Some p' \<Longrightarrow>
     x25519_exchange cr k' p = x25519_exchange cr k p'"
  unfolding crypto_ok_def by metis

lemma session_key_lengths:
  "crypto_ok cr \<Longrightarrow> length (fst (session_keys cr encrypt a b st0 ep re es ss ee)) = 32 \<and>
     length (snd (session_keys cr encrypt a b st0 ep re es ss ee)) = 32"
  by (simp add: session_keys_def derive_transport_keys_def Let_def crypto_ok_def)

section \<open>Properties\<close>

text \<open>Two ends of one session: inverse keys, crossed receiver indexes, swapped node ids, one expiry.\<close>

definition sessions_match :: "session_plan \<Rightarrow> session_plan \<Rightarrow> bool" where
  "sessions_match s r \<longleftrightarrow>
     sp_local_node_id s = sp_peer_node_id r \<and> sp_peer_node_id s = sp_local_node_id r \<and>
     sp_topology_generation s = sp_topology_generation r \<and> sp_expires_at s = sp_expires_at r \<and>
     (\<exists>m m'. sp_security s = Some m \<and> sp_security r = Some m' \<and>
        tm_send_key m = tm_receive_key m' \<and> tm_receive_key m = tm_send_key m' \<and>
        tm_remote_receiver_index m = tm_local_receiver_index m' \<and>
        tm_local_receiver_index m = tm_remote_receiver_index m' \<and>
        length (tm_send_key m) = 32 \<and> length (tm_receive_key m) = 32)"

lemma handshake_run:
  assumes cr: "crypto_ok cr" and ae: "aead encrypt decrypt" and a: "identity_wf cr a" and b: "identity_wf cr b"
    and topo: "identifies topo a" "identifies topo b" "distinct (topology_node_ids topo)"
      "\<forall>c\<in>set (tb_issuer_node_id topo). c < 128"
    and eph: "x25519_public_of cr ek = Some ep" "x25519_public_of cr rk = Some re"
    and dh: "x25519_exchange cr ek (ni_x25519_public b) = Some es"
      "x25519_exchange cr (ni_x25519_private a) (ni_x25519_public b) = Some ss" "x25519_exchange cr ek re = Some ee"
    and idx: "0 \<le> i" "i < 2 ^ 32" "0 \<le> j" "j < 2 ^ 32"
    and times: "0 < life" "0 < life'" "t0 \<le> t1" "t1 \<le> t0 + seconds life" "t1 \<le> t2" "t2 \<le> t1 + seconds life'"
  shows "\<exists>p acc s. create_noise_ik_initiation cr encrypt a (public_of_identity b) topo (Some i) draw (ek, ep) t0 life = Inr p \<and>
    accept_noise_ik_initiation cr decrypt b (pd_message p) topo (Some j) draw' (rk, re) t1 life' = Inr acc \<and>
    complete_noise_ik_initiator cr encrypt a p (an_response acc) topo t2 = Inr s \<and> sessions_match s (an_session acc)"
proof -
  obtain st0 where st0: "for_pair cr topo (ip_node_id (public_of_identity a)) (ip_node_id (public_of_identity b)) = Inr st0"
    using for_pair_total [OF topo(4)] by blast
  note pa = identity_wf_facts(4) [OF cr a] and pb = identity_wf_facts(4) [OF cr b]
  have sym: "x25519_exchange cr (ni_x25519_private b) ep = Some es"
    "x25519_exchange cr (ni_x25519_private b) (ni_x25519_public a) = Some ss" "x25519_exchange cr rk ep = Some ee"
    using exchange_sym [OF cr eph(1) pb] exchange_sym [OF cr pa pb] exchange_sym [OF cr eph] dh by simp_all
  have len: "length ep = 32" "length re = 32" using cr eph by (auto simp: crypto_ok_def)
  define m where "m = initiation_of cr encrypt topo a b st0 ep es i t0 life"
  define p where "p = \<lparr> pd_message = m, pd_ephemeral_private = ek, pd_created_at = t0, pd_expires_at = t0 + seconds life \<rparr>"
  define keys where "keys = session_keys cr encrypt a b st0 ep re es ss ee"
  have p_fields: "pd_message p = initiation_of cr encrypt topo a b st0 ep es i t0 life" "pd_ephemeral_private p = ek"
    by (simp_all add: p_def m_def)
  note create = create_noise_ok [OF cr b topo(1,2) st0 dh(1,2) idx(1,2) times(1), of encrypt draw ep t0,
      folded m_def, folded p_def]
  note accept = accept_noise_ok [OF cr ae a topo(1,3) st0 sym len(1) idx times(2-4) p_fields(1), of draw' re,
      folded keys_def, unfolded Let_def]
  note complete = complete_noise_ok [OF cr b topo(2,3) st0 dh len(2) idx(3,4) times(5,6) p_fields,
      folded keys_def, unfolded Let_def]
  show ?thesis
    using create accept complete session_key_lengths [OF cr, of encrypt a b st0 ep re es ss ee, folded keys_def]
    by (auto simp: sessions_match_def session_of_def)
qed

definition sample_ephemeral :: "byte \<Rightarrow> bytes" where
  "sample_ephemeral b = replicate 32 b"

lemma sample_dh:
  "x25519_public_of sample_crypto (sample_ephemeral b) = Some (sample_ephemeral b)"
  "x25519_exchange sample_crypto (sample_ephemeral b) (sample_ephemeral c) = Some (replicate 32 (b + c))"
  "x25519_exchange sample_crypto (sample_ephemeral b) (ni_x25519_public (sample_identity c)) = Some (replicate 32 (b + (c + 1)))"
  by (simp_all add: sample_crypto_def sample_ephemeral_def sample_identity_def)

lemma sample_topology_ids:
  "topology_node_ids sample_topology = [b64encode (replicate 32 3), b64encode (replicate 32 5)]"
  "tb_revoked_node_ids sample_topology = []" "\<forall>c\<in>set (tb_issuer_node_id sample_topology). c < 128"
  by (simp_all add: topology_node_ids_def sample_topology_def public_of_identity_def sample_identity_def str_lit_def)

lemma sample_topology_distinct: "distinct (topology_node_ids sample_topology)"
  by (simp add: sample_topology_ids b64encode_inj)

lemma sample_identifies: "identifies sample_topology (sample_identity 3)" "identifies sample_topology (sample_identity 5)"
proof -
  have nodes: "pn_identity ` set (tb_nodes sample_topology)
      = {public_of_identity (sample_identity 3), public_of_identity (sample_identity 5)}"
    by (simp add: sample_topology_def)
  have pb: "public_bytes (public_of_identity (sample_identity b)) = Inr (replicate 32 b, replicate 32 b, replicate 32 (b + 1))" for b
    by (simp add: public_bytes_def public_of_identity_def sample_identity_def b64decode_b64encode)
  have x: "ni_x25519_public (sample_identity b) = replicate 32 (b + 1)" for b by (simp add: sample_identity_def)
  have "identifies sample_topology (sample_identity b)" if "b \<in> {3, 5}" for b
    unfolding identifies_def sample_topology_ids(2)
  proof (intro conjI ballI impI)
    show "\<exists>n\<in>set (tb_nodes sample_topology). pn_identity n = public_of_identity (sample_identity b)"
      using that nodes by (metis (mono_tags, lifting) image_iff insertE insertI1 insert_commute singletonD)
  next
    fix n
    assume "n \<in> set (tb_nodes sample_topology)"
    then consider "pn_identity n = public_of_identity (sample_identity 3)" | "pn_identity n = public_of_identity (sample_identity 5)"
      using nodes by blast
    then show "\<exists>i e xa. public_bytes (pn_identity n) = Inr (i, e, xa) \<and>
        (xa = ni_x25519_public (sample_identity b) \<longrightarrow> pn_identity n = public_of_identity (sample_identity b))"
      using that by cases (auto simp: pb x)
  qed simp
  then show "identifies sample_topology (sample_identity 3)" "identifies sample_topology (sample_identity 5)" by simp_all
qed

lemmas sample_handshake = sample_crypto_ok sample_aead sample_identities(1,2) sample_identifies sample_topology_distinct
  sample_topology_ids(3) sample_dh(1) [of 7] sample_dh(1) [of 8] sample_dh(3) [of 7 5] sample_exchange sample_dh(2) [of 7 8]

text \<open>
  C3. The handshake succeeds and agrees. Between two nodes that a topology identifies, with well-formed
  ephemeral keys and messages that arrive inside their validity windows, all three steps return, and
  the two resulting sessions are the two ends of one session.
\<close>
theorem noise_handshake_agrees:
  assumes "crypto_ok cr" and "aead encrypt decrypt" and "identity_wf cr a" and "identity_wf cr b"
    and "identifies topo a" and "identifies topo b" and "distinct (topology_node_ids topo)"
    and "\<forall>c\<in>set (tb_issuer_node_id topo). c < 128"
    and "x25519_public_of cr ek = Some ep" and "x25519_public_of cr rk = Some re"
    and "x25519_exchange cr ek (ni_x25519_public b) = Some es"
    and "x25519_exchange cr (ni_x25519_private a) (ni_x25519_public b) = Some ss" and "x25519_exchange cr ek re = Some ee"
    and "0 \<le> i" and "i < 2 ^ 32" and "0 \<le> j" and "j < 2 ^ 32"
    and "0 < life" and "0 < life'" and "t0 \<le> t1" and "t1 \<le> t0 + seconds life" and "t1 \<le> t2" and "t2 \<le> t1 + seconds life'"
  shows "\<exists>p acc s. create_noise_ik_initiation cr encrypt a (public_of_identity b) topo (Some i) draw (ek, ep) t0 life = Inr p \<and>
    accept_noise_ik_initiation cr decrypt b (pd_message p) topo (Some j) draw' (rk, re) t1 life' = Inr acc \<and>
    complete_noise_ik_initiator cr encrypt a p (an_response acc) topo t2 = Inr s \<and> sessions_match s (an_session acc)"
  using assms by (rule handshake_run)

theorem noise_handshake_agrees_witness:
  "\<exists>p acc s. create_noise_ik_initiation sample_crypto sample_encrypt (sample_identity 3) (public_of_identity (sample_identity 5))
      sample_topology (Some 21) 0 (sample_ephemeral 7, sample_ephemeral 7) 1000 30 = Inr p \<and>
    accept_noise_ik_initiation sample_crypto sample_decrypt (sample_identity 5) (pd_message p) sample_topology (Some 22) 0
      (sample_ephemeral 8, sample_ephemeral 8) 2000 120 = Inr acc \<and>
    complete_noise_ik_initiator sample_crypto sample_encrypt (sample_identity 3) p (an_response acc) sample_topology 3000 = Inr s \<and>
    sessions_match s (an_session acc)"
  by (rule noise_handshake_agrees [OF sample_handshake]) (simp_all add: seconds_def)

text \<open>
  C11. Acceptance authenticates. Whatever message is accepted, it is addressed to the responder under the
  current topology generation and inside its validity window; the session's peer is the unrevoked topology
  node the message names; and the message carries the X25519 key the topology records for that node,
  encrypted under a key that depends on the responder's private key and the message's ephemeral key.
\<close>
theorem noise_accept_authenticates:
  assumes "aead encrypt decrypt"
    and "accept_noise_ik_initiation cr decrypt b m topo index draw eph now life = Inr acc"
  shows "nm_responder_node_id m = ip_node_id (public_of_identity b) \<and> nm_topology_generation m = tb_generation topo \<and>
    nm_created_at m \<le> now \<and> now \<le> nm_expires_at m \<and>
    sp_peer_node_id (an_session acc) = nm_initiator_node_id m \<and>
    nm_initiator_node_id m \<notin> set (tb_revoked_node_ids topo) \<and>
    (\<exists>n\<in>set (tb_nodes topo). \<exists>i ed x e es st0. ip_node_id (pn_identity n) = nm_initiator_node_id m \<and>
       public_bytes (pn_identity n) = Inr (i, ed, x) \<and> b64decode (nm_initiator_ephemeral_x25519 m) = Inr e \<and>
       x25519_exchange cr (ni_x25519_private b) e = Some es \<and>
       for_pair cr topo (nm_initiator_node_id m) (ip_node_id (public_of_identity b)) = Inr st0 \<and>
       b64decode (nm_encrypted_initiator_static_x25519 m) = Inr (fst (first_message cr encrypt st0 (ni_x25519_public b) e es x)))"
proof -
  obtain rk re where eph: "eph = (rk, re)" by (rule prod.exhaust)
  obtain e st0 es ct x st initiator where *: "verified_noise_initiation_header m topo (public_of_identity b) now = Inr ()"
    "b64decode (nm_initiator_ephemeral_x25519 m) = Inr e"
    "for_pair cr topo (nm_initiator_node_id m) (ip_node_id (public_of_identity b)) = Inr st0"
    "x25519_shared_secret cr (ni_x25519_private b) e = Inr es"
    "b64decode (nm_encrypted_initiator_static_x25519 m) = Inr ct"
    "decrypt_and_hash cr decrypt (fst (mix_key cr es (mix_hash cr e (mix_hash cr (ni_x25519_public b) st0)))) ct
       (snd (mix_key cr es (mix_hash cr e (mix_hash cr (ni_x25519_public b) st0)))) = Inr (x, st)"
    "topology_identity_by_x25519 topo x = Inr initiator" "ip_node_id initiator = nm_initiator_node_id m"
    "sp_peer_node_id (an_session acc) = ip_node_id initiator"
    using assms(2) unfolding accept_noise_ik_initiation_def eph
    by (auto simp: rbind_eq_Inr Let_def split_beta split: if_split_asm)
  have "ct = fst (first_message cr encrypt st0 (ni_x25519_public b) e es x)"
    using *(6) assms(1)
    by (auto simp: decrypt_and_hash_def first_message_def encrypt_and_hash_def aead_def Let_def split: option.split_asm)
  moreover have "x25519_exchange cr (ni_x25519_private b) e = Some es"
    using *(4) by (simp add: x25519_shared_secret_def)
  moreover have "initiator \<in> pn_identity ` set (tb_nodes topo)" "ip_node_id initiator \<notin> set (tb_revoked_node_ids topo)"
    "\<exists>i ed. public_bytes initiator = Inr (i, ed, x)"
    using identity_by_x25519_Inr [of "tb_revoked_node_ids topo" "tb_nodes topo" x initiator] *(7)
    by (auto simp: topology_identity_by_x25519_def)
  ultimately show ?thesis
    using *(1,2,3,5,8,9)
    by (auto simp: verified_noise_initiation_header_def require_not_expired_def rbind_eq_Inr split: if_split_asm)
qed

lemma sample_run:
  obtains p acc s where
    "accept_noise_ik_initiation sample_crypto sample_decrypt (sample_identity 5) (pd_message p) sample_topology (Some 22) 0
       (sample_ephemeral 8, sample_ephemeral 8) 2000 120 = Inr acc"
    "complete_noise_ik_initiator sample_crypto sample_encrypt (sample_identity 3) p (an_response acc) sample_topology 3000 = Inr s"
proof -
  have "\<exists>p acc s. create_noise_ik_initiation sample_crypto sample_encrypt (sample_identity 3) (public_of_identity (sample_identity 5))
      sample_topology (Some 21) 0 (sample_ephemeral 7, sample_ephemeral 7) 1000 30 = Inr p \<and>
    accept_noise_ik_initiation sample_crypto sample_decrypt (sample_identity 5) (pd_message p) sample_topology (Some 22) 0
      (sample_ephemeral 8, sample_ephemeral 8) 2000 120 = Inr acc \<and>
    complete_noise_ik_initiator sample_crypto sample_encrypt (sample_identity 3) p (an_response acc) sample_topology 3000 = Inr s \<and>
    sessions_match s (an_session acc)"
    by (rule handshake_run [OF sample_handshake]) (simp_all add: seconds_def)
  then show ?thesis using that by blast
qed

theorem noise_accept_authenticates_witness:
  "\<exists>m acc. accept_noise_ik_initiation sample_crypto sample_decrypt (sample_identity 5) m sample_topology (Some 22) 0
      (sample_ephemeral 8, sample_ephemeral 8) 2000 120 = Inr acc \<and>
    sp_peer_node_id (an_session acc) = nm_initiator_node_id m \<and> nm_topology_generation m = tb_generation sample_topology"
proof (rule sample_run)
  fix p acc s
  assume "accept_noise_ik_initiation sample_crypto sample_decrypt (sample_identity 5) (pd_message p) sample_topology (Some 22) 0
      (sample_ephemeral 8, sample_ephemeral 8) 2000 120 = Inr acc"
  then show ?thesis using noise_accept_authenticates [OF sample_aead] by blast
qed

text \<open>
  C40. The response's receiver index and expiry are not authenticated: if a response completes the
  handshake, the same response with any other u32 index and any later-than-now expiry completes it with
  the same keys.
\<close>
theorem noise_response_metadata_unbound:
  assumes "complete_noise_ik_initiator cr encrypt a p r topo now = Inr s" and "0 \<le> j" and "j < 2 ^ 32" and "now \<le> expires"
  shows "\<exists>s' m m'. complete_noise_ik_initiator cr encrypt a p (r\<lparr> nr_responder_receiver_index := j, nr_expires_at := expires \<rparr>)
      topo now = Inr s' \<and> sp_expires_at s' = expires \<and> sp_security s = Some m \<and> sp_security s' = Some m' \<and>
    tm_send_key m' = tm_send_key m \<and> tm_receive_key m' = tm_receive_key m \<and> tm_remote_receiver_index m' = j"
proof -
  have "verified_noise_response cr r p topo (public_of_identity a) now = Inr ()"
    using assms(1) by (auto simp: complete_noise_ik_initiator_def rbind_eq_Inr Let_def)
  then have v: "verified_noise_response cr (r\<lparr> nr_responder_receiver_index := j, nr_expires_at := expires \<rparr>) p topo
      (public_of_identity a) now = Inr ()"
    using assms(2-4)
    by (auto simp: verified_noise_response_def require_not_expired_def validate_receiver_index_def rbind_eq_Inr
        split: if_split_asm)
  obtain rp ie re st0 n ed rs es ss ee where parts: "topology_identity_by_node_id topo (nr_responder_node_id r) = Inr rp"
    "b64decode (nm_initiator_ephemeral_x25519 (pd_message p)) = Inr ie" "b64decode (nr_responder_ephemeral_x25519 r) = Inr re"
    "length re = 32" "for_pair cr topo (ip_node_id (public_of_identity a)) (ip_node_id rp) = Inr st0"
    "public_bytes rp = Inr (n, ed, rs)" "x25519_shared_secret cr (pd_ephemeral_private p) rs = Inr es"
    "b64decode (nm_encrypted_initiator_static_x25519 (pd_message p))
       = Inr (fst (first_message cr encrypt st0 rs ie es (ni_x25519_public a)))"
    "x25519_shared_secret cr (ni_x25519_private a) rs = Inr ss" "x25519_shared_secret cr (pd_ephemeral_private p) re = Inr ee"
    using assms(1)
    by (auto simp: complete_noise_ik_initiator_def first_message_def rbind_eq_Inr Let_def split_beta split: if_split_asm)
  note defs = complete_noise_ik_initiator_def first_message_def Let_def split_beta
  have "complete_noise_ik_initiator cr encrypt a p r topo now = Inr s" by (rule assms(1))
  moreover have "verified_noise_response cr r p topo (public_of_identity a) now = Inr ()" by fact
  ultimately show ?thesis using v parts by (auto simp: defs)
qed

theorem noise_response_metadata_unbound_witness:
  "\<exists>p r s m. complete_noise_ik_initiator sample_crypto sample_encrypt (sample_identity 3) p r sample_topology 3000 = Inr s \<and>
    sp_expires_at s = 10 ^ 18 \<and> sp_security s = Some m \<and> tm_remote_receiver_index m = 77"
proof (rule sample_run)
  fix p acc s
  assume "complete_noise_ik_initiator sample_crypto sample_encrypt (sample_identity 3) p (an_response acc) sample_topology 3000 = Inr s"
  moreover have "0 \<le> (77 :: int)" "(77 :: int) < 2 ^ 32" "3000 \<le> (10 ^ 18 :: int)" by simp_all
  ultimately show ?thesis using noise_response_metadata_unbound by blast
qed

end
