(* ===== verification/Base64_Strict.thy ===== *)
theory Base64_Strict
  imports Base64
begin

text \<open>
  \<^verbatim>\<open>base64.b64decode(text, validate=True)\<close>, the strict mode in which configuration keys are read:
  the state machine of \<^verbatim>\<open>binascii.a2b_base64\<close> with \<^verbatim>\<open>strict_mode\<close> set, which refuses characters
  outside the alphabet, leading padding, data inside the padding and data after it.
\<close>

fun a2b_base64_strict :: "ustr \<Rightarrow> nat \<Rightarrow> nat \<Rightarrow> nat \<Rightarrow> bool \<Rightarrow> bytes \<Rightarrow> bytes res" where
  "a2b_base64_strict [] quad_pos leftchar pads padding_started out =
     (if quad_pos = 0 then Inr out else Inl b64_error)"
| "a2b_base64_strict (ch # cs) quad_pos leftchar pads padding_started out =
     (if ch = 61 then
        (if quad_pos \<ge> 2 \<and> quad_pos + (pads + 1) \<ge> 4
         then (if cs = [] then Inr out else Inl (ValueError ''Excess data after padding''))
         else a2b_base64_strict cs quad_pos leftchar (if quad_pos \<ge> 2 then pads + 1 else pads) True out)
      else case b64_value ch of
        None \<Rightarrow> Inl (ValueError ''Only base64 data is allowed'')
      | Some v \<Rightarrow>
          if padding_started then Inl (ValueError ''Discontinuous padding not allowed'')
          else if quad_pos = 0 then a2b_base64_strict cs 1 v 0 False out
          else if quad_pos = 1
          then a2b_base64_strict cs 2 (v mod 16) 0 False (out @ [byte_of (leftchar * 4 + v div 16)])
          else if quad_pos = 2
          then a2b_base64_strict cs 3 (v mod 4) 0 False (out @ [byte_of (leftchar * 16 + v div 4)])
          else a2b_base64_strict cs 0 0 0 False (out @ [byte_of (leftchar * 64 + v)]))"

definition b64decode_validate :: "ustr \<Rightarrow> bytes res" where
  "b64decode_validate s =
     (if \<exists>c\<in>set s. c \<ge> 128
      then Inl (ValueError ''string argument should contain only ASCII characters'')
      else if s \<noteq> [] \<and> hd s = 61 then Inl (ValueError ''Leading padding not allowed'')
      else a2b_base64_strict s 0 0 0 False [])"

lemma a2b_strict_b64encode: "a2b_base64_strict (b64encode bs) 0 0 0 False out = Inr (out @ bs)"
  by (induction bs arbitrary: out rule: b64encode.induct)
    (simp_all add: b64_char_facts byte_parts byte_join)

lemma hd_b64encode: "bs \<noteq> [] \<Longrightarrow> hd (b64encode bs) \<noteq> 61"
  by (cases bs rule: b64encode.cases) (simp_all add: b64_char_facts byte_parts)

lemma b64encode_Nil_iff [simp]: "b64encode bs = [] \<longleftrightarrow> bs = []"
  by (cases bs rule: b64encode.cases) simp_all

lemma b64decode_validate_b64encode: "b64decode_validate (b64encode bs) = Inr bs"
proof -
  have "\<not> (\<exists>c\<in>set (b64encode bs). c \<ge> 128)" using b64encode_ascii by (auto simp: not_le)
  then show ?thesis
    using hd_b64encode [of bs] by (auto simp: b64decode_validate_def a2b_strict_b64encode)
qed

lemma a2b_strict_lenient:
  "a2b_base64_strict s q l p st out = Inr bs \<Longrightarrow> a2b_base64 s q l p out = Inr bs"
  by (induction s q l p st out rule: a2b_base64_strict.induct)
    (auto split: if_splits option.splits)

lemma b64decode_validate_lenient: "b64decode_validate s = Inr bs \<Longrightarrow> b64decode s = Inr bs"
  by (auto simp: b64decode_validate_def b64decode_def a2b_strict_lenient split: if_splits)

end
