(* ===== verification/Config_Models.thy ===== *)
theory Config_Models
  imports Base64_Strict Float64
begin

text \<open>
  The user-facing configuration of \<^verbatim>\<open>config/models.py\<close>: one record per Pydantic model, one datatype
  per \<^verbatim>\<open>Literal\<close> type, \<open>X_fields_ok\<close> for the \<^verbatim>\<open>Field(ge=..., le=...)\<close> constraints Pydantic enforces
  when the model is built, and one function per \<^verbatim>\<open>model_validator\<close>. \<open>config_ok\<close> collects them: the
  configurations a loaded file can produce.

  Strings are lists of code points, integers are unbounded, times are microseconds since the epoch,
  floats are the doubles of \<^verbatim>\<open>Float64\<close>. Error texts keep the constant part of the source's message.
  \<open>sc_path_policy_set\<close> stands for \<^verbatim>\<open>"scheduler_path_policy" in service.model_fields_set\<close>.
\<close>

section \<open>Literal types\<close>

datatype node_kind = Client | Server
datatype security_mode = Sec_none | Sec_static | Sec_authenticated
datatype security_session_role = Role_initiator | Role_responder
datatype carrier_kind = Udp | Quic_datagram | Http3_datagram
datatype path_state = Active | Busy | Drain | Disabled
datatype traffic_bias = Bias_auto | Bias_tcp | Bias_udp
datatype congestion_policy = Congestion_off | Conservative | Congestion_adaptive | Volatile
datatype service_path_policy = Inherit | Service_single_best_path | Service_weighted_round_robin
datatype scheduler_policy =
    Round_robin | Weighted_round_robin | Srtt | Lowest_latency | Loss_aware | Capacity_aware
  | Least_queue | Earliest_completion_first | Blocking_estimation | Ordered_multipath
  | Ordered_multipath_capacity_aware | Single_best_path | Arrival_guarded_capacity
  | Flowlet_adaptive | Latency_guarded_capacity | Balanced | Adaptive | Coordinated_adaptive
datatype service_priority = Prio_bulk | Prio_normal | Prio_high | Prio_critical
datatype traffic_class = Class_unknown | Tcp_ordered | Udp_bulk | Latency_sensitive | Class_control
datatype return_mode = Fixed | Learned_single_source | Peer_scoped_source
datatype dns_upstream_kind = Dns_direct | Dns_tunnel | Dns_doh
datatype wireguard_mode = Wg_single | Wg_dual_profile

definition USER_SERVICE_ID_START :: int where
  [const_simps]: "USER_SERVICE_ID_START = 255 + 1"

section \<open>Field constraints\<close>

definition opt_ge :: "int \<Rightarrow> int option \<Rightarrow> bool" where
  "opt_ge lo v = (case v of None \<Rightarrow> True | Some x \<Rightarrow> lo \<le> x)"

definition opt_range :: "int \<Rightarrow> int \<Rightarrow> int option \<Rightarrow> bool" where
  "opt_range lo hi v = (case v of None \<Rightarrow> True | Some x \<Rightarrow> lo \<le> x \<and> x \<le> hi)"

definition py_float_le :: "float64 \<Rightarrow> float64 \<Rightarrow> bool" where
  "py_float_le x y =
     (let (m, e) = x; (n, f) = y; k = min e f in m * 2 ^ nat (e - k) \<le> n * 2 ^ nat (f - k))"

definition truthy_str :: "ustr option \<Rightarrow> bool" where
  "truthy_str s = (case s of None \<Rightarrow> False | Some x \<Rightarrow> x \<noteq> [])"

section \<open>Paths and services\<close>

record path_scheduler_config =
  ps_enabled :: bool
  ps_state :: path_state
  ps_weight :: int
  ps_mtu :: int
  ps_tx_capacity_bps :: "int option"
  ps_rx_capacity_bps :: "int option"
  ps_latency_us :: "int option"
  ps_loss_ppm :: int
  ps_reorder_hold_us :: int
  ps_max_in_flight_packets :: int
  ps_max_in_flight_bytes :: int
  ps_pacing_budget_bps :: int

definition path_scheduler_fields_ok :: "path_scheduler_config \<Rightarrow> bool" where
  "path_scheduler_fields_ok s \<longleftrightarrow>
     1 \<le> ps_weight s \<and> ps_weight s \<le> 65535 \<and>
     64 \<le> ps_mtu s \<and> ps_mtu s \<le> 65535 \<and>
     opt_ge 1 (ps_tx_capacity_bps s) \<and> opt_ge 1 (ps_rx_capacity_bps s) \<and> opt_ge 0 (ps_latency_us s) \<and>
     0 \<le> ps_loss_ppm s \<and> ps_loss_ppm s \<le> 1000000 \<and>
     0 \<le> ps_reorder_hold_us s \<and>
     0 \<le> ps_max_in_flight_packets s \<and> ps_max_in_flight_packets s \<le> 65535 \<and>
     0 \<le> ps_max_in_flight_bytes s \<and> 0 \<le> ps_pacing_budget_bps s"

record relay_hop_config =
  rh_relay_receiver_index :: int
  rh_send_key :: ustr

definition key_decodes :: "ustr \<Rightarrow> unit res" where
  "key_decodes s =
     (case b64decode_validate s of
        Inl _ \<Rightarrow> Inl (ValueError ''must be base64'')
      | Inr decoded \<Rightarrow>
          if length decoded \<noteq> 32 then Inl (ValueError ''must decode to 32 bytes'') else Inr ())"

definition validate_relay_key :: "relay_hop_config \<Rightarrow> relay_hop_config res" where
  "validate_relay_key r = rbind (key_decodes (rh_send_key r)) (\<lambda>_. Inr r)"

definition relay_hop_fields_ok :: "relay_hop_config \<Rightarrow> bool" where
  "relay_hop_fields_ok r \<longleftrightarrow> 0 \<le> rh_relay_receiver_index r \<and> rh_relay_receiver_index r \<le> 2 ^ 32 - 1"

record scheduler_config =
  sch_mode :: scheduler_policy
  sch_traffic_bias :: traffic_bias
  sch_congestion_policy :: congestion_policy

record path_config =
  pc_name :: ustr
  pc_interface :: ustr
  pc_source_ip :: "ustr option"
  pc_gateway :: "ustr option"
  pc_carrier :: carrier_kind
  pc_transport_bind :: "ustr option"
  pc_transport_remote :: "ustr option"
  pc_carrier_max_datagram_size :: "int option"
  pc_scheduler :: path_scheduler_config
  pc_relay :: "relay_hop_config option"

definition path_ok :: "path_config \<Rightarrow> bool" where
  "path_ok p \<longleftrightarrow>
     opt_range 256 65535 (pc_carrier_max_datagram_size p) \<and>
     path_scheduler_fields_ok (pc_scheduler p) \<and>
     (case pc_relay p of None \<Rightarrow> True
      | Some r \<Rightarrow> relay_hop_fields_ok r \<and> validate_relay_key r = Inr r)"

record service_config =
  sc_name :: ustr
  sc_target :: ustr
  sc_service_id :: "int option"
  sc_listen :: "ustr option"
  sc_priority :: service_priority
  sc_traffic_class :: traffic_class
  sc_scheduler_fanout :: int
  sc_scheduler_fanout_below_bytes :: int
  sc_scheduler_flowlet_idle_us :: int
  sc_scheduler_flowlet_max_hold_us :: int
  sc_scheduler_poll_batch_packets :: int
  sc_scheduler_path_run_datagrams :: int
  sc_scheduler_path_policy :: service_path_policy
  sc_path_policy_set :: bool
  sc_scheduler_allowed_paths :: "ustr list"
  sc_scheduler_path_weights :: "(ustr, int) dict"
  sc_return_mode :: return_mode

definition service_fields_ok :: "service_config \<Rightarrow> bool" where
  "service_fields_ok s \<longleftrightarrow>
     opt_range USER_SERVICE_ID_START 65535 (sc_service_id s) \<and>
     0 \<le> sc_scheduler_fanout s \<and> sc_scheduler_fanout s \<le> 65535 \<and>
     0 \<le> sc_scheduler_fanout_below_bytes s \<and>
     0 \<le> sc_scheduler_flowlet_idle_us s \<and> 0 \<le> sc_scheduler_flowlet_max_hold_us s \<and>
     0 \<le> sc_scheduler_poll_batch_packets s \<and> 0 \<le> sc_scheduler_path_run_datagrams s \<and>
     dict_wf (sc_scheduler_path_weights s)"

section \<open>Security\<close>

record security_session_config =
  ss_name :: "ustr option"
  ss_local_receiver_index :: int
  ss_remote_receiver_index :: int
  ss_send_key :: ustr
  ss_receive_key :: ustr
  ss_services :: "ustr list"

definition validate_session_keys :: "security_session_config \<Rightarrow> security_session_config res" where
  "validate_session_keys s =
     rbind (key_decodes (ss_send_key s)) (\<lambda>_. rbind (key_decodes (ss_receive_key s)) (\<lambda>_. Inr s))"

definition session_fields_ok :: "security_session_config \<Rightarrow> bool" where
  "session_fields_ok s \<longleftrightarrow>
     0 \<le> ss_local_receiver_index s \<and> ss_local_receiver_index s \<le> 2 ^ 32 - 1 \<and>
     0 \<le> ss_remote_receiver_index s \<and> ss_remote_receiver_index s \<le> 2 ^ 32 - 1"

record security_config =
  sec_mode :: security_mode
  sec_receiver_index :: int
  sec_local_receiver_index :: "int option"
  sec_remote_receiver_index :: "int option"
  sec_send_key :: "ustr option"
  sec_receive_key :: "ustr option"
  sec_local_node_id :: "ustr option"
  sec_peer_node_id :: "ustr option"
  sec_topology_generation :: "int option"
  sec_session_role :: "security_session_role option"
  sec_session_created_at :: "int option"
  sec_session_expires_at :: "int option"
  sec_rekey_after_packets :: "int option"
  sec_rekey_after_bytes :: "int option"
  sec_sessions :: "security_session_config list"

definition security_fields_ok :: "security_config \<Rightarrow> bool" where
  "security_fields_ok s \<longleftrightarrow>
     0 \<le> sec_receiver_index s \<and> sec_receiver_index s \<le> 2 ^ 32 - 1 \<and>
     opt_range 0 (2 ^ 32 - 1) (sec_local_receiver_index s) \<and>
     opt_range 0 (2 ^ 32 - 1) (sec_remote_receiver_index s) \<and>
     opt_ge 0 (sec_topology_generation s) \<and>
     opt_ge 0 (sec_rekey_after_packets s) \<and> opt_ge 0 (sec_rekey_after_bytes s)"

definition validate_security_material :: "security_config \<Rightarrow> security_config res" where
  "validate_security_material s =
     (if sec_mode s = Sec_none then Inr s
      else if sec_sessions s \<noteq> [] then
        (if \<not> distinct (map ss_local_receiver_index (sec_sessions s))
         then Inl (ValueError ''security.sessions local_receiver_index values must be unique'')
         else Inr s)
      else case (sec_send_key s, sec_receive_key s) of
        (Some send_key, Some receive_key) \<Rightarrow>
          rbind (key_decodes send_key) (\<lambda>_. rbind (key_decodes receive_key) (\<lambda>_. Inr s))
      | _ \<Rightarrow> Inl (ValueError ''security.mode requires send_key and receive_key''))"

section \<open>Helpers\<close>

record wireguard_helper_config =
  wg_enabled :: bool
  wg_mode :: wireguard_mode
  wg_service :: "ustr option"
  wg_stable_service :: "ustr option"
  wg_fast_service :: "ustr option"

definition validate_service_references :: "wireguard_helper_config \<Rightarrow> wireguard_helper_config res" where
  "validate_service_references w =
     (if \<not> wg_enabled w then Inr w
      else if wg_mode w = Wg_single \<and> \<not> truthy_str (wg_service w)
      then Inl (ValueError ''wireguard helper service is required in single mode'')
      else if wg_mode w = Wg_dual_profile \<and> (\<not> truthy_str (wg_stable_service w) \<or> \<not> truthy_str (wg_fast_service w))
      then Inl (ValueError ''wireguard helper dual_profile requires stable_service and fast_service'')
      else if truthy_str (wg_stable_service w) \<and> truthy_str (wg_fast_service w) \<and>
              wg_stable_service w = wg_fast_service w
      then Inl (ValueError ''wireguard helper stable_service and fast_service must be different'')
      else Inr w)"

record dns_upstream_config =
  du_name :: ustr
  du_address :: ustr
  du_port :: int
  du_kind :: dns_upstream_kind
  du_timeout_seconds :: float64

record dns_helper_config =
  dh_enabled :: bool
  dh_listen :: ustr
  dh_strategy :: ustr
  dh_upstreams :: "dns_upstream_config list"

record socks5_helper_config =
  s5_enabled :: bool
  s5_service :: ustr
  s5_listen :: ustr
  s5_allow_hosts :: "ustr list"
  s5_allow_ports :: "int list"
  s5_connection_timeout_seconds :: float64

definition validate_allow_lists :: "socks5_helper_config \<Rightarrow> socks5_helper_config res" where
  "validate_allow_lists s =
     (if s5_enabled s \<and> (s5_allow_hosts s = [] \<or> s5_allow_ports s = [])
      then Inl (ValueError ''socks5 helper requires allow_hosts and allow_ports when enabled'')
      else Inr s)"

record tcp_forward_helper_config =
  tf_enabled :: bool
  tf_service :: ustr
  tf_listen :: ustr
  tf_target :: ustr
  tf_connect_timeout_seconds :: float64
  tf_idle_timeout_seconds :: float64

record helpers_config =
  hc_wireguard :: "wireguard_helper_config option"
  hc_dns :: "dns_helper_config option"
  hc_socks5 :: "socks5_helper_config option"
  hc_tcp_forward :: "tcp_forward_helper_config option"

definition upstream_fields_ok :: "dns_upstream_config \<Rightarrow> bool" where
  "upstream_fields_ok u \<longleftrightarrow> 1 \<le> du_port u \<and> du_port u \<le> 65535 \<and> py_float_le (fl 1 10) (du_timeout_seconds u)"

definition helpers_ok :: "helpers_config \<Rightarrow> bool" where
  "helpers_ok h \<longleftrightarrow>
     (case hc_wireguard h of None \<Rightarrow> True | Some w \<Rightarrow> validate_service_references w = Inr w) \<and>
     (case hc_dns h of None \<Rightarrow> True | Some d \<Rightarrow> list_all upstream_fields_ok (dh_upstreams d)) \<and>
     (case hc_socks5 h of None \<Rightarrow> True
      | Some s \<Rightarrow> validate_allow_lists s = Inr s \<and> py_float_le (fl 1 10) (s5_connection_timeout_seconds s)) \<and>
     (case hc_tcp_forward h of None \<Rightarrow> True
      | Some t \<Rightarrow> py_float_le (fl 1 10) (tf_connect_timeout_seconds t) \<and>
                  py_float_le (fl 1 1) (tf_idle_timeout_seconds t))"

section \<open>The whole configuration\<close>

record gatherlink_config =
  gc_schema_version :: int
  gc_node :: ustr
  gc_role :: node_kind
  gc_peer :: "ustr option"
  gc_security :: security_config
  gc_paths :: "path_config list"
  gc_services :: "service_config list"
  gc_scheduler :: scheduler_config
  gc_helpers :: helpers_config

definition wireguard_services :: "wireguard_helper_config \<Rightarrow> ustr list" where
  "wireguard_services w =
     concat (map (\<lambda>s. case s of None \<Rightarrow> [] | Some x \<Rightarrow> [x]) [wg_service w, wg_stable_service w, wg_fast_service w])"

definition validate_helper_references :: "ustr list \<Rightarrow> helpers_config \<Rightarrow> unit res" where
  "validate_helper_references service_names h =
     (if (case hc_wireguard h of None \<Rightarrow> False
          | Some w \<Rightarrow> \<exists>s\<in>set (wireguard_services w). s \<notin> set service_names)
      then Inl (ValueError ''wireguard helper services must reference existing services'')
      else if (case hc_socks5 h of None \<Rightarrow> False | Some s \<Rightarrow> s5_service s \<notin> set service_names)
      then Inl (ValueError ''socks5 helper service must reference an existing service'')
      else if (case hc_tcp_forward h of None \<Rightarrow> False | Some t \<Rightarrow> tf_service t \<notin> set service_names)
      then Inl (ValueError ''tcp_forward helper service must reference an existing service'')
      else Inr ())"

definition some_values :: "'a option list \<Rightarrow> 'a list" where
  "some_values xs = concat (map (\<lambda>x. case x of None \<Rightarrow> [] | Some v \<Rightarrow> [v]) xs)"

definition validate_config_relationships :: "gatherlink_config \<Rightarrow> gatherlink_config res" where
  "validate_config_relationships c =
     (let service_names = map sc_name (gc_services c) in
      if gc_schema_version c \<noteq> 1 then Inl (ValueError ''schema_version must be 1'')
      else if gc_role c = Client \<and> gc_services c \<noteq> [] \<and> \<not> truthy_str (gc_peer c)
      then Inl (ValueError ''client configs with services must define peer'')
      else if \<not> distinct service_names then Inl (ValueError ''service names must be unique'')
      else if int (length (gc_services c)) > 65535 - USER_SERVICE_ID_START + 1
      then Inl (ValueError ''too many services for the u16 user service id range'')
      else if \<not> distinct (some_values (map sc_service_id (gc_services c)))
      then Inl (ValueError ''service ids must be unique'')
      else if \<not> distinct (some_values (map sc_listen (gc_services c)))
      then Inl (ValueError ''service listen addresses must be unique'')
      else if \<not> distinct (map pc_name (gc_paths c)) then Inl (ValueError ''path names must be unique'')
      else rbind (validate_helper_references service_names (gc_helpers c)) (\<lambda>_.
        if \<exists>session\<in>set (sec_sessions (gc_security c)). \<exists>s\<in>set (ss_services session). s \<notin> set service_names
        then Inl (ValueError ''security session services must reference existing services'')
        else Inr c))"

definition config_ok :: "gatherlink_config \<Rightarrow> bool" where
  "config_ok c \<longleftrightarrow>
     list_all path_ok (gc_paths c) \<and> list_all service_fields_ok (gc_services c) \<and>
     security_fields_ok (gc_security c) \<and>
     list_all (\<lambda>s. session_fields_ok s \<and> validate_session_keys s = Inr s) (sec_sessions (gc_security c)) \<and>
     validate_security_material (gc_security c) = Inr (gc_security c) \<and>
     helpers_ok (gc_helpers c) \<and> validate_config_relationships c = Inr c"

section \<open>Consequences of validity\<close>

lemma some_values_simps [simp]:
  "some_values [] = []" "some_values (None # xs) = some_values xs"
  "some_values (Some x # xs) = x # some_values xs"
  by (simp_all add: some_values_def)

lemma set_some_values: "set (some_values xs) = {x. Some x \<in> set xs}"
  by (induction xs) (auto simp: some_values_def split: option.splits)

lemma key_decodes_iff: "key_decodes s = Inr () \<longleftrightarrow> (\<exists>k. b64decode_validate s = Inr k \<and> length k = 32)"
  by (auto simp: key_decodes_def split: sum.splits)

lemma validate_config_relationships_iff:
  "validate_config_relationships c = Inr c \<longleftrightarrow>
     gc_schema_version c = 1 \<and>
     (gc_role c = Client \<and> gc_services c \<noteq> [] \<longrightarrow> truthy_str (gc_peer c)) \<and>
     distinct (map sc_name (gc_services c)) \<and>
     int (length (gc_services c)) \<le> 65535 - USER_SERVICE_ID_START + 1 \<and>
     distinct (some_values (map sc_service_id (gc_services c))) \<and>
     distinct (some_values (map sc_listen (gc_services c))) \<and>
     distinct (map pc_name (gc_paths c)) \<and>
     validate_helper_references (map sc_name (gc_services c)) (gc_helpers c) = Inr () \<and>
     (\<forall>session\<in>set (sec_sessions (gc_security c)).
        set (ss_services session) \<subseteq> set (map sc_name (gc_services c)))"
  by (simp add: validate_config_relationships_def Let_def rbind_eq_Inr subset_iff not_less) blast

lemma config_okD:
  assumes "config_ok c"
  shows "p \<in> set (gc_paths c) \<Longrightarrow> path_ok p"
    and "s \<in> set (gc_services c) \<Longrightarrow> service_fields_ok s"
    and "distinct (map sc_name (gc_services c))"
    and "int (length (gc_services c)) \<le> 65280"
    and "distinct (some_values (map sc_service_id (gc_services c)))"
    and "distinct (map pc_name (gc_paths c))"
    and "validate_helper_references (map sc_name (gc_services c)) (gc_helpers c) = Inr ()"
    and "session \<in> set (sec_sessions (gc_security c)) \<Longrightarrow>
           set (ss_services session) \<subseteq> set (map sc_name (gc_services c))"
    and "session \<in> set (sec_sessions (gc_security c)) \<Longrightarrow> validate_session_keys session = Inr session"
    and "validate_security_material (gc_security c) = Inr (gc_security c)"
  using assms unfolding config_ok_def validate_config_relationships_iff
  by (auto simp: list_all_iff const_simps)

end
