(* ===== verification/Sched_Metrics.thy ===== *)
theory Sched_Metrics
  imports Config_Models "HOL-Library.List_Lexorder"
begin

text \<open>
  Scheduler telemetry of \<^verbatim>\<open>scheduling/metrics.py\<close>: the per-path record the policies read, the
  conversion of Rust's path counters into pressure facts, and the conversion of the loosely typed
  control metadata into validated metrics.

  \<open>meta\<close> is a JSON-like Python value. \<open>py_int\<close> is \<^verbatim>\<open>int(value)\<close>; on text it accepts surrounding white
  space, one sign and ASCII digits with single underscores (digits of other scripts, which Python
  also reads, are treated as malformed). The rendering \<^verbatim>\<open>str(value)\<close> of a value that is not text is
  the argument \<open>py_str\<close>: no numeric field depends on it.
\<close>

section \<open>Loosely typed values\<close>

datatype meta =
    MNone
  | MBool bool
  | MInt int
  | MFloat float64
  | MStr ustr
  | MList "meta list"
  | MDict "(ustr \<times> meta) list"

definition is_space :: "nat \<Rightarrow> bool" where
  "is_space c \<longleftrightarrow>
     (9 \<le> c \<and> c \<le> 13) \<or> (28 \<le> c \<and> c \<le> 32) \<or> c = 133 \<or> c = 160 \<or> c = 5760 \<or> (8192 \<le> c \<and> c \<le> 8202) \<or>
     c = 8232 \<or> c = 8233 \<or> c = 8239 \<or> c = 8287 \<or> c = 12288"

definition py_strip :: "ustr \<Rightarrow> ustr" where
  "py_strip s = rev (dropWhile is_space (rev (dropWhile is_space s)))"

definition is_digit :: "nat \<Rightarrow> bool" where
  "is_digit c \<longleftrightarrow> 48 \<le> c \<and> c \<le> 57"

fun parse_digits :: "ustr \<Rightarrow> int \<Rightarrow> int option" where
  "parse_digits [] acc = Some acc"
| "parse_digits (c # cs) acc =
     (if is_digit c then parse_digits cs (acc * 10 + int (c - 48))
      else if c = 95 \<and> cs \<noteq> [] \<and> is_digit (hd cs) then parse_digits cs acc
      else None)"

definition parse_unsigned :: "ustr \<Rightarrow> int option" where
  "parse_unsigned s = (if s \<noteq> [] \<and> is_digit (hd s) then parse_digits s 0 else None)"

definition py_int_of_str :: "ustr \<Rightarrow> int option" where
  "py_int_of_str s =
     (case py_strip s of
        [] \<Rightarrow> None
      | c # cs \<Rightarrow>
          if c = 45 then map_option uminus (parse_unsigned cs)
          else if c = 43 then parse_unsigned cs
          else parse_unsigned (c # cs))"

fun py_int :: "meta \<Rightarrow> int res" where
  "py_int (MBool b) = Inr (if b then 1 else 0)"
| "py_int (MInt i) = Inr i"
| "py_int (MFloat x) = Inr (py_float_int x)"
| "py_int (MStr s) = (case py_int_of_str s of None \<Rightarrow> Inl (ValueError ''invalid literal for int()'') | Some i \<Rightarrow> Inr i)"
| "py_int _ = Inl TypeError"

definition as_dict :: "meta option \<Rightarrow> (ustr, meta) dict" where
  "as_dict v = (case v of Some (MDict d) \<Rightarrow> d | _ \<Rightarrow> [])"

definition optional_int :: "meta option \<Rightarrow> int option" where
  "optional_int v =
     (case v of
        None \<Rightarrow> None
      | Some MNone \<Rightarrow> None
      | Some x \<Rightarrow>
          (case py_int x of
             Inl _ \<Rightarrow> None
           | Inr converted \<Rightarrow> if converted < 0 then None else Some converted))"

definition optional_str :: "(meta \<Rightarrow> ustr) \<Rightarrow> meta option \<Rightarrow> ustr option" where
  "optional_str py_str v =
     (case v of
        None \<Rightarrow> None
      | Some MNone \<Rightarrow> None
      | Some x \<Rightarrow>
          (let converted = py_strip (case x of MStr s \<Rightarrow> s | _ \<Rightarrow> py_str x) in
           if converted = [] then None else Some converted))"

section \<open>Per-path metrics\<close>

record path_metrics =
  pm_path_name :: ustr
  pm_path_id :: int
  pm_tx_capacity_bps :: "int option"
  pm_rx_capacity_bps :: "int option"
  pm_tx_latency_current_us :: "int option"
  pm_tx_latency_mean_us :: "int option"
  pm_rx_latency_current_us :: "int option"
  pm_rx_latency_mean_us :: "int option"
  pm_latency_source :: "ustr option"
  pm_latency_confidence :: "ustr option"
  pm_latency_clock_error_us :: "int option"
  pm_latency_rtt_us :: "int option"
  pm_loss_ppm :: int
  pm_tx_jitter_us :: "int option"
  pm_rx_jitter_us :: "int option"
  pm_tx_p95_us :: "int option"
  pm_rx_p95_us :: "int option"
  pm_queue_depth_packets :: int
  pm_queue_depth_bytes :: int
  pm_queue_oldest_age_us :: int
  pm_send_failures :: int
  pm_receive_gaps :: int
  pm_reorder_depth_packets :: int
  pm_local_drops :: int
  pm_scheduler_in_flight_packets :: int
  pm_scheduler_in_flight_bytes :: int
  pm_scheduler_predicted_delivery_us :: int
  pm_reorder_buffer_packets :: int
  pm_reorder_buffer_oldest_age_us :: int
  pm_socket_receive_buffer_bytes :: int
  pm_socket_send_buffer_bytes :: int
  pm_socket_drain_quantum :: int
  pm_control_tx_frames :: int
  pm_control_rx_frames :: int
  pm_stale_control_age_us :: int
  pm_last_tx_at_us :: int
  pm_last_rx_at_us :: int
  pm_last_tx_gap_us :: int
  pm_last_rx_gap_us :: int
  pm_observed_packets :: int

type_synonym snapshot = "(ustr, path_metrics) dict"

definition metrics_counters :: "path_metrics \<Rightarrow> int list" where
  "metrics_counters m =
     [pm_loss_ppm m, pm_queue_depth_packets m, pm_queue_depth_bytes m, pm_queue_oldest_age_us m,
      pm_send_failures m, pm_receive_gaps m, pm_reorder_depth_packets m, pm_local_drops m,
      pm_scheduler_in_flight_packets m, pm_scheduler_in_flight_bytes m, pm_scheduler_predicted_delivery_us m,
      pm_reorder_buffer_packets m, pm_reorder_buffer_oldest_age_us m, pm_socket_receive_buffer_bytes m,
      pm_socket_send_buffer_bytes m, pm_socket_drain_quantum m, pm_control_tx_frames m, pm_control_rx_frames m,
      pm_stale_control_age_us m, pm_last_tx_at_us m, pm_last_rx_at_us m, pm_last_tx_gap_us m,
      pm_last_rx_gap_us m, pm_observed_packets m]"

definition metrics_fields_ok :: "path_metrics \<Rightarrow> bool" where
  "metrics_fields_ok m \<longleftrightarrow>
     list_all (opt_ge 0)
       [pm_latency_clock_error_us m, pm_latency_rtt_us m, pm_tx_jitter_us m, pm_rx_jitter_us m,
        pm_tx_p95_us m, pm_rx_p95_us m] \<and>
     pm_loss_ppm m \<le> 1000000 \<and>
     list_all (\<lambda>x. 0 \<le> x) (metrics_counters m)"

fun first_some :: "'a option list \<Rightarrow> 'a option" where
  "first_some [] = None"
| "first_some (Some x # _) = Some x"
| "first_some (None # vs) = first_some vs"

definition scheduler_latency_us :: "path_metrics \<Rightarrow> int option" where
  "scheduler_latency_us m =
     first_some [pm_tx_latency_mean_us m, pm_tx_latency_current_us m, pm_rx_latency_mean_us m,
                 pm_rx_latency_current_us m]"

definition has_trusted_real_data_latency :: "path_metrics \<Rightarrow> bool" where
  "has_trusted_real_data_latency m \<longleftrightarrow>
     pm_latency_source m = Some (str_lit ''data-traffic-one-way'') \<and>
     pm_latency_confidence m = Some (str_lit ''good'')"

definition or_int :: "int option \<Rightarrow> int \<Rightarrow> int" where
  "or_int v d = (case v of None \<Rightarrow> d | Some x \<Rightarrow> if x = 0 then d else x)"

definition estimated_earliest_delivery_us :: "path_metrics \<Rightarrow> int \<Rightarrow> int option" where
  "estimated_earliest_delivery_us m payload_bytes =
     (let capacity = or_int (pm_tx_capacity_bps m) 0;
          base =
            (if pm_scheduler_predicted_delivery_us m > 0 then Some (pm_scheduler_predicted_delivery_us m)
             else case scheduler_latency_us m of
               None \<Rightarrow> None
             | Some latency \<Rightarrow>
                 Some (latency + pm_queue_oldest_age_us m
                   + (if capacity > 0
                      then (pm_queue_depth_bytes m + pm_scheduler_in_flight_bytes m) * 8 * 1000000 div capacity
                      else 0)
                   + (pm_queue_depth_packets m + pm_scheduler_in_flight_packets m)))
      in map_option
           (\<lambda>b. if payload_bytes > 0 \<and> capacity > 0 then b + payload_bytes * 8 * 1000000 div capacity else b)
           base)"

section \<open>Pressure facts from path counters\<close>

definition stat :: "(ustr, int) dict \<Rightarrow> string \<Rightarrow> int" where
  "stat stats key = (case dict_get stats (str_lit key) of None \<Rightarrow> 0 | Some v \<Rightarrow> v)"

definition stat_or :: "(ustr, int) dict \<Rightarrow> string \<Rightarrow> int \<Rightarrow> int" where
  "stat_or stats key d = (case dict_get stats (str_lit key) of None \<Rightarrow> d | Some v \<Rightarrow> v)"

definition path_pressure_record :: "(ustr, int) dict \<Rightarrow> ustr \<Rightarrow> (ustr, meta) dict" where
  "path_pressure_record stats now =
     (let at_least_0 = (\<lambda>key. MInt (max 0 (stat stats key)));
          packets = max 0 (stat stats ''packets'');
          missed = max 0 (stat stats ''missed_packets'') + max 0 (stat stats ''qdisc_dropped_packets'');
          denominator = packets + missed;
          loss = (if denominator \<le> 0 then 0 else min 1000000 (missed * 1000000 div denominator))
      in map (\<lambda>(key, v). (str_lit key, v))
           [(''loss_ppm'', MInt loss),
            (''queue_depth_packets'', at_least_0 ''queue_depth_packets''),
            (''queue_depth_bytes'', at_least_0 ''queue_depth_bytes''),
            (''queue_oldest_age_us'', at_least_0 ''queue_oldest_age_us''),
            (''send_failures'', at_least_0 ''send_failed_packets''),
            (''receive_gaps'', at_least_0 ''packets_needing_reorder''),
            (''reorder_depth_packets'',
               MInt (max 0 (stat_or stats ''reorder_depth_packets'' (stat stats ''reordered_packets'')))),
            (''local_drops'',
               MInt (max 0 (stat stats ''qdisc_dropped_packets'' + stat stats ''security_drop_packets''))),
            (''scheduler_in_flight_packets'', at_least_0 ''scheduler_in_flight_packets''),
            (''scheduler_in_flight_bytes'', at_least_0 ''scheduler_in_flight_bytes''),
            (''scheduler_predicted_delivery_us'', at_least_0 ''scheduler_predicted_delivery_us''),
            (''reorder_buffer_packets'', at_least_0 ''reorder_buffer_packets''),
            (''reorder_buffer_oldest_age_us'', at_least_0 ''reorder_buffer_oldest_age_us''),
            (''socket_receive_buffer_bytes'', at_least_0 ''socket_receive_buffer_bytes''),
            (''socket_send_buffer_bytes'', at_least_0 ''socket_send_buffer_bytes''),
            (''socket_drain_quantum'', at_least_0 ''socket_drain_quantum''),
            (''last_tx_at_us'', at_least_0 ''last_tx_at_us''),
            (''last_rx_at_us'', at_least_0 ''last_rx_at_us''),
            (''last_tx_gap_us'', at_least_0 ''last_tx_gap_us''),
            (''last_rx_gap_us'', at_least_0 ''last_rx_gap_us''),
            (''observed_packets'', MInt packets),
            (''source'', MStr (str_lit ''local-path-stats'')),
            (''updated_at'', MStr now)])"

definition path_pressure_from_path_stats ::
  "(ustr, (ustr, int) dict) dict \<Rightarrow> ustr \<Rightarrow> (ustr, (ustr, meta) dict) dict" where
  "path_pressure_from_path_stats path_stats now =
     map (\<lambda>(path_name, stats). (path_name, path_pressure_record stats now)) path_stats"

section \<open>Metrics from control metadata\<close>

definition count_of :: "(ustr, meta) dict \<Rightarrow> string \<Rightarrow> int" where
  "count_of r key = or_int (optional_int (dict_get r (str_lit key))) 0"

definition int_of :: "(ustr, meta) dict \<Rightarrow> string \<Rightarrow> int option" where
  "int_of r key = optional_int (dict_get r (str_lit key))"

definition metrics_record ::
  "(meta \<Rightarrow> ustr) \<Rightarrow> ustr \<Rightarrow> int \<Rightarrow> (ustr, meta) dict \<Rightarrow> (ustr, meta) dict \<Rightarrow> (ustr, meta) dict
     \<Rightarrow> (ustr, meta) dict \<Rightarrow> (ustr, meta) dict \<Rightarrow> path_metrics" where
  "metrics_record py_str path_name path_id capacity latency pressure control_tx control_rx =
     \<lparr> pm_path_name = path_name, pm_path_id = path_id,
       pm_tx_capacity_bps = int_of capacity ''tx_bps'', pm_rx_capacity_bps = int_of capacity ''rx_bps'',
       pm_tx_latency_current_us = int_of latency ''tx_current_us'',
       pm_tx_latency_mean_us = int_of latency ''tx_mean_us'',
       pm_rx_latency_current_us = int_of latency ''rx_current_us'',
       pm_rx_latency_mean_us = int_of latency ''rx_mean_us'',
       pm_latency_source = optional_str py_str (dict_get latency (str_lit ''source'')),
       pm_latency_confidence = optional_str py_str (dict_get latency (str_lit ''confidence'')),
       pm_latency_clock_error_us = int_of latency ''clock_error_us'',
       pm_latency_rtt_us = int_of latency ''rtt_us'',
       pm_loss_ppm = min (count_of pressure ''loss_ppm'') 1000000,
       pm_tx_jitter_us = int_of latency ''tx_jitter_us'', pm_rx_jitter_us = int_of latency ''rx_jitter_us'',
       pm_tx_p95_us = int_of latency ''tx_p95_us'', pm_rx_p95_us = int_of latency ''rx_p95_us'',
       pm_queue_depth_packets = count_of pressure ''queue_depth_packets'',
       pm_queue_depth_bytes = count_of pressure ''queue_depth_bytes'',
       pm_queue_oldest_age_us = count_of pressure ''queue_oldest_age_us'',
       pm_send_failures = count_of pressure ''send_failures'',
       pm_receive_gaps = count_of pressure ''receive_gaps'',
       pm_reorder_depth_packets = count_of pressure ''reorder_depth_packets'',
       pm_local_drops = count_of pressure ''local_drops'',
       pm_scheduler_in_flight_packets = count_of pressure ''scheduler_in_flight_packets'',
       pm_scheduler_in_flight_bytes = count_of pressure ''scheduler_in_flight_bytes'',
       pm_scheduler_predicted_delivery_us = count_of pressure ''scheduler_predicted_delivery_us'',
       pm_reorder_buffer_packets = count_of pressure ''reorder_buffer_packets'',
       pm_reorder_buffer_oldest_age_us = count_of pressure ''reorder_buffer_oldest_age_us'',
       pm_socket_receive_buffer_bytes = count_of pressure ''socket_receive_buffer_bytes'',
       pm_socket_send_buffer_bytes = count_of pressure ''socket_send_buffer_bytes'',
       pm_socket_drain_quantum = count_of pressure ''socket_drain_quantum'',
       pm_control_tx_frames = count_of control_tx ''frames'', pm_control_rx_frames = count_of control_rx ''frames'',
       pm_stale_control_age_us = count_of pressure ''stale_control_age_us'',
       pm_last_tx_at_us = count_of pressure ''last_tx_at_us'', pm_last_rx_at_us = count_of pressure ''last_rx_at_us'',
       pm_last_tx_gap_us = count_of pressure ''last_tx_gap_us'', pm_last_rx_gap_us = count_of pressure ''last_rx_gap_us'',
       pm_observed_packets = count_of pressure ''observed_packets'' \<rparr>"

definition validate_metrics :: "path_metrics \<Rightarrow> path_metrics res" where
  "validate_metrics m = (if metrics_fields_ok m then Inr m else Inl (ValidationError ''PathSchedulerMetrics''))"

definition scheduler_metrics_from_control_metadata ::
  "(meta \<Rightarrow> ustr) \<Rightarrow> (ustr, meta) dict \<Rightarrow> (ustr, int) dict \<Rightarrow> snapshot res" where
  "scheduler_metrics_from_control_metadata py_str control_metadata default_path_ids =
     (let capacity = as_dict (dict_get control_metadata (str_lit ''path_capacity''));
          latency = as_dict (dict_get control_metadata (str_lit ''path_latency''));
          pressure = as_dict (dict_get control_metadata (str_lit ''path_pressure''));
          path_control = as_dict (dict_get control_metadata (str_lit ''path_control''));
          path_names = sort (remdups (dict_keys default_path_ids @ dict_keys capacity @ dict_keys latency
                                      @ dict_keys pressure))
      in foreach
           (\<lambda>path_name metrics.
              let control = as_dict (dict_get path_control path_name);
                  path_id = (case dict_get default_path_ids path_name of
                               None \<Rightarrow> int (length metrics) | Some i \<Rightarrow> i)
              in rbind (validate_metrics
                          (metrics_record py_str path_name path_id (as_dict (dict_get capacity path_name))
                            (as_dict (dict_get latency path_name)) (as_dict (dict_get pressure path_name))
                            (as_dict (dict_get control (str_lit ''tx''))) (as_dict (dict_get control (str_lit ''rx'')))))
                   (\<lambda>m. Inr (dict_set path_name m metrics)))
           path_names [])"

section \<open>Lemmas\<close>

lemma optional_int_nonneg: "optional_int v = Some x \<Longrightarrow> 0 \<le> x"
  by (auto simp: optional_int_def split: option.splits meta.splits sum.splits if_splits)

lemma count_of_nonneg [simp]: "0 \<le> count_of r key"
  using optional_int_nonneg by (auto simp: count_of_def or_int_def split: option.splits)

lemma int_of_nonneg [simp]: "opt_ge 0 (int_of r key)"
  using optional_int_nonneg by (auto simp: opt_ge_def int_of_def split: option.splits)

lemma metrics_record_ok: "metrics_fields_ok (metrics_record py_str n i c l p ct cr)"
  by (simp add: metrics_fields_ok_def metrics_counters_def metrics_record_def)

lemma foreach_dict_set:
  assumes "\<And>n ms. f n ms = Inr (dict_set n (g n ms) ms)"
    and "distinct names" and "set names \<inter> set (dict_keys ms) = {}"
  shows "\<exists>out. foreach f names ms = Inr (ms @ out) \<and> dict_keys out = names \<and> (\<forall>(n, m)\<in>set out. \<exists>ms. m = g n ms)"
  using assms(2,3)
proof (induction names arbitrary: ms)
  case (Cons n names)
  define ms1 where "ms1 = ms @ [(n, g n ms)]"
  have "f n ms = Inr ms1" using Cons.prems assms(1) by (simp add: dict_set_fresh ms1_def)
  moreover obtain out where "foreach f names ms1 = Inr (ms1 @ out)" "dict_keys out = names"
    "\<forall>(n, m)\<in>set out. \<exists>ms. m = g n ms"
    using Cons.IH [of ms1] Cons.prems by (auto simp: ms1_def)
  ultimately show ?case by (intro exI [of _ "(n, g n ms) # out"]) (auto simp: ms1_def)
qed simp

section \<open>Property\<close>


end
