(* ===== verification/Sched_Scoring.thy ===== *)
theory Sched_Scoring
  imports Sched_Metrics
begin

text \<open>
  Path scoring (\<^verbatim>\<open>scheduling/scoring.py\<close>) and telemetry smoothing (\<^verbatim>\<open>scheduling/smoothing.py\<close>).

  \<open>capacity_weight\<close> divides in floating point and rounds, as the source does; \<open>capacity_weight_exact\<close>
  shows that the result is the exactly rounded integer quotient. Weights always fit Rust's u16
  contract, and a path never gains weight by becoming slower, lossier or more congested.
\<close>

section \<open>Scoring constants\<close>

definition MIN_PATH_WEIGHT :: int where
  [const_simps]: "MIN_PATH_WEIGHT = 1"

definition MAX_PATH_WEIGHT :: int where
  [const_simps]: "MAX_PATH_WEIGHT = 65535"

definition DEFAULT_CAPACITY_BPS :: int where
  [const_simps]: "DEFAULT_CAPACITY_BPS = 1000000"

definition DEFAULT_LATENCY_US :: int where
  [const_simps]: "DEFAULT_LATENCY_US = 50000"

definition LOSS_PPM_SCALE :: int where
  [const_simps]: "LOSS_PPM_SCALE = 1000000"

definition QUEUE_PACKET_PENALTY :: int where
  [const_simps]: "QUEUE_PACKET_PENALTY = 16"

definition QUEUE_BYTE_PENALTY_STEP :: int where
  [const_simps]: "QUEUE_BYTE_PENALTY_STEP = 64 * 1024"

definition JITTER_PENALTY_STEP_US :: int where
  [const_simps]: "JITTER_PENALTY_STEP_US = 10000"

definition STALE_CONTROL_DOWN_US :: int where
  [const_simps]: "STALE_CONTROL_DOWN_US = 120000000"

definition STALE_CONTROL_DEGRADED_US :: int where
  [const_simps]: "STALE_CONTROL_DEGRADED_US = 30000000"

definition HIGH_LOSS_PPM :: int where
  [const_simps]: "HIGH_LOSS_PPM = 50000"

definition HIGH_QUEUE_PACKETS :: int where
  [const_simps]: "HIGH_QUEUE_PACKETS = 256"

definition HIGH_QUEUE_AGE_US :: int where
  [const_simps]: "HIGH_QUEUE_AGE_US = 5000000"

definition HIGH_REORDER_DEPTH_PACKETS :: int where
  [const_simps]: "HIGH_REORDER_DEPTH_PACKETS = 128"

definition HIGH_IN_FLIGHT_PACKETS :: int where
  [const_simps]: "HIGH_IN_FLIGHT_PACKETS = 512"

definition HIGH_REORDER_BUFFER_PACKETS :: int where
  [const_simps]: "HIGH_REORDER_BUFFER_PACKETS = 128"

section \<open>Scoring\<close>

datatype path_health = Alive | Degraded | Down

record path_score =
  sco_path_name :: ustr
  sco_health :: path_health
  sco_score :: int
  sco_weight :: int
  sco_capacity_confidence_ppm :: int
  sco_reasons :: "string list"

definition clamp_weight :: "int \<Rightarrow> int" where
  "clamp_weight value = min MAX_PATH_WEIGHT (max MIN_PATH_WEIGHT value)"

definition capacity_weight :: "int option \<Rightarrow> int \<Rightarrow> int" where
  "capacity_weight capacity_bps baseline_bps =
     (case capacity_bps of
        None \<Rightarrow> MIN_PATH_WEIGHT
      | Some c \<Rightarrow> clamp_weight (py_float_round (py_truediv c (max 1 baseline_bps))))"

definition latency_penalty :: "int option \<Rightarrow> int \<Rightarrow> int" where
  "latency_penalty latency_us baseline_us =
     (case latency_us of
        None \<Rightarrow> 0
      | Some l \<Rightarrow> max 0 (l - baseline_us) div max 1 baseline_us)"

definition loss_penalty :: "int \<Rightarrow> int" where
  "loss_penalty loss_ppm = max 0 (min loss_ppm LOSS_PPM_SCALE) div 10000"

definition queue_penalty :: "int \<Rightarrow> int \<Rightarrow> int" where
  "queue_penalty queue_depth_packets queue_depth_bytes =
     max 0 queue_depth_packets * QUEUE_PACKET_PENALTY + max 0 queue_depth_bytes div QUEUE_BYTE_PENALTY_STEP"

definition jitter_penalty :: "int option \<Rightarrow> int" where
  "jitter_penalty jitter_us = (case jitter_us of None \<Rightarrow> 0 | Some j \<Rightarrow> max 0 j div JITTER_PENALTY_STEP_US)"

definition adaptive_weight :: "int option \<Rightarrow> int option \<Rightarrow> int \<Rightarrow> int \<Rightarrow> int \<Rightarrow> int option \<Rightarrow> int" where
  "adaptive_weight tx_capacity_bps latency_us loss_ppm queue_depth_packets queue_depth_bytes jitter_us =
     clamp_weight
       (capacity_weight tx_capacity_bps DEFAULT_CAPACITY_BPS * 16
        - latency_penalty latency_us DEFAULT_LATENCY_US - jitter_penalty jitter_us - loss_penalty loss_ppm
        - queue_penalty queue_depth_packets queue_depth_bytes)"

definition capacity_confidence_ppm :: "path_metrics \<Rightarrow> int" where
  "capacity_confidence_ppm m =
     (let confidence = 1000000
            - (if pm_tx_capacity_bps m = None then 250000 else 0)
            - (if pm_stale_control_age_us m \<ge> STALE_CONTROL_DEGRADED_US then 350000 else 0)
            - min 250000 (pm_loss_ppm m * 2)
            - min 150000 (pm_queue_depth_packets m * 250)
            - min 150000 (pm_local_drops m)
            - min 100000 (pm_send_failures m * 10000)
      in max 0 (min 1000000 confidence))"

definition score_penalties :: "path_metrics \<Rightarrow> (string \<times> bool \<times> int) list" where
  "score_penalties m =
     (let latency_cost = (case scheduler_latency_us m of
                            None \<Rightarrow> 0
                          | Some l \<Rightarrow> min 80 (latency_penalty (Some l) DEFAULT_LATENCY_US * 10));
          loss_cost = min 100 (loss_penalty (pm_loss_ppm m) * 4);
          queue_cost = min 120 (queue_penalty (pm_queue_depth_packets m) (pm_queue_depth_bytes m))
      in [(''latency_penalty'', latency_cost \<noteq> 0, latency_cost),
          (''loss_penalty'', loss_cost \<noteq> 0, loss_cost),
          (''queue_pressure'', queue_cost \<noteq> 0, queue_cost),
          (''send_failures'', pm_send_failures m \<noteq> 0, min 120 (pm_send_failures m * 20)),
          (''receive_gaps'', pm_receive_gaps m \<noteq> 0, min 80 (pm_receive_gaps m * 10)),
          (''local_drops'', pm_local_drops m \<noteq> 0, min 120 (pm_local_drops m * 20)),
          (''reorder_pressure'', pm_reorder_depth_packets m \<ge> HIGH_REORDER_DEPTH_PACKETS, 80),
          (''in_flight_pressure'', pm_scheduler_in_flight_packets m \<ge> HIGH_IN_FLIGHT_PACKETS, 40),
          (''receiver_blocking'', pm_reorder_buffer_packets m \<ge> HIGH_REORDER_BUFFER_PACKETS, 80)])"

definition path_health_of :: "path_metrics \<Rightarrow> path_health" where
  "path_health_of m =
     (if pm_stale_control_age_us m \<ge> STALE_CONTROL_DOWN_US then Down
      else if pm_stale_control_age_us m \<ge> STALE_CONTROL_DEGRADED_US \<or> pm_loss_ppm m \<ge> HIGH_LOSS_PPM \<or>
              pm_queue_depth_packets m \<ge> HIGH_QUEUE_PACKETS \<or> pm_queue_oldest_age_us m \<ge> HIGH_QUEUE_AGE_US \<or>
              pm_local_drops m > 0 \<or> pm_send_failures m > 0 \<or>
              pm_scheduler_in_flight_packets m \<ge> HIGH_IN_FLIGHT_PACKETS \<or>
              pm_reorder_buffer_packets m \<ge> HIGH_REORDER_BUFFER_PACKETS
      then Degraded else Alive)"

fun dict_fromkeys :: "'a list \<Rightarrow> 'a list" where
  "dict_fromkeys [] = []"
| "dict_fromkeys (x # xs) = x # filter (\<lambda>y. y \<noteq> x) (dict_fromkeys xs)"

definition score_path :: "path_metrics \<Rightarrow> path_score" where
  "score_path m =
     (let penalties = filter (\<lambda>(_, applies, _). applies) (score_penalties m);
          score = fold (\<lambda>(_, _, cost) s. s - cost) penalties
                    (capacity_weight (pm_tx_capacity_bps m) DEFAULT_CAPACITY_BPS * 100);
          health = path_health_of m;
          reasons = map fst penalties @ (if health = Down then [''control_stale''] else []);
          weight = adaptive_weight (pm_tx_capacity_bps m) (scheduler_latency_us m) (pm_loss_ppm m)
                     (pm_queue_depth_packets m) (pm_queue_depth_bytes m) None
      in \<lparr> sco_path_name = pm_path_name m,
           sco_health = health,
           sco_score = max 0 (if health = Down then min score 0 else score),
           sco_weight = (case health of Down \<Rightarrow> 1 | Degraded \<Rightarrow> max 1 (weight div 2) | Alive \<Rightarrow> weight),
           sco_capacity_confidence_ppm = capacity_confidence_ppm m,
           sco_reasons = dict_fromkeys (if reasons = [] then [''healthy''] else reasons) \<rparr>)"

definition score_snapshot :: "snapshot \<Rightarrow> (ustr, path_score) dict" where
  "score_snapshot paths = map (\<lambda>name. (name, score_path (the (dict_get paths name)))) (sort (dict_keys paths))"

section \<open>Smoothing\<close>

definition SMOOTHING_ALPHA_NUMERATOR :: int where
  [const_simps]: "SMOOTHING_ALPHA_NUMERATOR = 1"

definition SMOOTHING_ALPHA_DENOMINATOR :: int where
  [const_simps]: "SMOOTHING_ALPHA_DENOMINATOR = 4"

definition smooth_int :: "int \<Rightarrow> int \<Rightarrow> int" where
  "smooth_int previous current =
     (previous * (SMOOTHING_ALPHA_DENOMINATOR - SMOOTHING_ALPHA_NUMERATOR) + current * SMOOTHING_ALPHA_NUMERATOR)
       div SMOOTHING_ALPHA_DENOMINATOR"

definition smooth_optional :: "int option \<Rightarrow> int option \<Rightarrow> int option" where
  "smooth_optional previous current =
     (case current of
        None \<Rightarrow> previous
      | Some c \<Rightarrow> (case previous of None \<Rightarrow> Some c | Some p \<Rightarrow> Some (smooth_int p c)))"

definition smooth_metrics :: "path_metrics \<Rightarrow> path_metrics \<Rightarrow> path_metrics" where
  "smooth_metrics previous m =
     m\<lparr> pm_tx_capacity_bps := smooth_optional (pm_tx_capacity_bps previous) (pm_tx_capacity_bps m),
        pm_rx_capacity_bps := smooth_optional (pm_rx_capacity_bps previous) (pm_rx_capacity_bps m),
        pm_tx_latency_current_us := smooth_optional (pm_tx_latency_current_us previous) (pm_tx_latency_current_us m),
        pm_tx_latency_mean_us := smooth_optional (pm_tx_latency_mean_us previous) (pm_tx_latency_mean_us m),
        pm_rx_latency_current_us := smooth_optional (pm_rx_latency_current_us previous) (pm_rx_latency_current_us m),
        pm_rx_latency_mean_us := smooth_optional (pm_rx_latency_mean_us previous) (pm_rx_latency_mean_us m),
        pm_loss_ppm := smooth_int (pm_loss_ppm previous) (pm_loss_ppm m),
        pm_tx_jitter_us := smooth_optional (pm_tx_jitter_us previous) (pm_tx_jitter_us m),
        pm_rx_jitter_us := smooth_optional (pm_rx_jitter_us previous) (pm_rx_jitter_us m) \<rparr>"

record smoother =
  sm_previous :: "(ustr, path_metrics) dict"
  sm_samples :: "(ustr, int) dict"

definition confidence :: "smoother \<Rightarrow> ustr \<Rightarrow> int" where
  "confidence s path_name = (case dict_get (sm_samples s) path_name of None \<Rightarrow> 0 | Some n \<Rightarrow> n)"

definition smooth_step :: "ustr \<times> path_metrics \<Rightarrow> smoother \<times> snapshot \<Rightarrow> smoother \<times> snapshot" where
  "smooth_step = (\<lambda>(path_name, metrics) (s, smoothed).
     let smoothed_metrics = (case dict_get (sm_previous s) path_name of
                               None \<Rightarrow> metrics
                             | Some previous \<Rightarrow> smooth_metrics previous metrics)
     in (\<lparr> sm_previous = dict_set path_name smoothed_metrics (sm_previous s),
           sm_samples = dict_set path_name (confidence s path_name + 1) (sm_samples s) \<rparr>,
         dict_set path_name smoothed_metrics smoothed))"

definition drop_stale :: "ustr list \<Rightarrow> smoother \<Rightarrow> smoother" where
  "drop_stale current s =
     (let stale_paths = filter (\<lambda>n. n \<notin> set current) (dict_keys (sm_previous s))
      in fold (\<lambda>n s. s\<lparr> sm_previous := dict_del n (sm_previous s), sm_samples := dict_del n (sm_samples s) \<rparr>)
           stale_paths s)"

definition smooth :: "smoother \<Rightarrow> snapshot \<Rightarrow> smoother \<times> snapshot" where
  "smooth s paths =
     (let (s', smoothed) = fold smooth_step paths (s, []) in (drop_stale (dict_keys paths) s', smoothed))"

section \<open>Weights\<close>

lemma clamp_weight_bounds [simp]: "1 \<le> clamp_weight w" "clamp_weight w \<le> 65535"
  by (simp_all add: clamp_weight_def const_simps)

lemma clamp_weight_mono: "v \<le> w \<Longrightarrow> clamp_weight v \<le> clamp_weight w"
  by (auto simp: clamp_weight_def)

lemma clamp_weight_low: "w \<le> 1 \<Longrightarrow> clamp_weight w = 1"
  by (simp add: clamp_weight_def const_simps)

lemma clamp_weight_high: "65535 \<le> w \<Longrightarrow> clamp_weight w = 65535"
  by (simp add: clamp_weight_def const_simps)

lemma capacity_weight_bounds [simp]: "1 \<le> capacity_weight c b" "capacity_weight c b \<le> 65535"
  by (simp_all add: capacity_weight_def MIN_PATH_WEIGHT_def split: option.splits)

lemma adaptive_weight_bounds [simp]: "1 \<le> adaptive_weight c l p q qb j" "adaptive_weight c l p q qb j \<le> 65535"
  by (simp_all add: adaptive_weight_def)

lemma capacity_weight_Some:
  assumes "1 \<le> b" and "b \<le> 2 ^ 35"
  shows "capacity_weight (Some c) b = clamp_weight (py_round_div c b)"
proof -
  consider "c \<le> 0" | "0 < c" "c < 2 ^ 52" | "2 ^ 52 \<le> c" by linarith
  then show ?thesis
  proof cases
    case 1
    then have "py_float_round (fl c b) \<le> 1" "py_round_div c b \<le> 1"
      using round_fl_nonpos [of c b] py_round_div_nonpos [of c b] assms by simp_all
    then show ?thesis
      using assms by (simp add: capacity_weight_def py_truediv_def clamp_weight_low)
  next
    case 2
    then show ?thesis
      using round_fl [of c b] assms by (simp add: capacity_weight_def py_truediv_def)
  next
    case 3
    then have big: "2 * 65535 * b \<le> c" using assms by simp
    then have "65535 \<le> py_float_round (fl c b)"
      using round_fl_large [of c b 65535] assms 3 by simp
    moreover have "py_round_div (2 * 65535 * b) b \<le> py_round_div c b"
      using big assms by (intro py_round_div_mono) auto
    then have "65535 \<le> py_round_div c b"
      using py_round_div_mult [of b "2 * 65535"] assms by simp
    ultimately show ?thesis
      using assms by (simp add: capacity_weight_def py_truediv_def clamp_weight_high)
  qed
qed

lemma capacity_weight_mono:
  assumes "c \<le> c'"
  shows "capacity_weight (Some c) DEFAULT_CAPACITY_BPS \<le> capacity_weight (Some c') DEFAULT_CAPACITY_BPS"
proof -
  have "py_round_div c DEFAULT_CAPACITY_BPS \<le> py_round_div c' DEFAULT_CAPACITY_BPS"
    using assms by (intro py_round_div_mono) (simp_all add: const_simps)
  then show ?thesis
    using capacity_weight_Some [of DEFAULT_CAPACITY_BPS] by (simp add: clamp_weight_mono DEFAULT_CAPACITY_BPS_def)
qed

lemma penalties_mono:
  "l \<le> l' \<Longrightarrow> latency_penalty (Some l) DEFAULT_LATENCY_US \<le> latency_penalty (Some l') DEFAULT_LATENCY_US"
  "j \<le> j' \<Longrightarrow> jitter_penalty (Some j) \<le> jitter_penalty (Some j')"
  "p \<le> p' \<Longrightarrow> loss_penalty p \<le> loss_penalty p'"
  "q \<le> q' \<Longrightarrow> qb \<le> qb' \<Longrightarrow> queue_penalty q qb \<le> queue_penalty q' qb'"
  by (auto simp: latency_penalty_def jitter_penalty_def loss_penalty_def queue_penalty_def const_simps
      intro!: zdiv_mono1 add_mono)

lemma fold_minus_le:
  assumes "\<And>x. x \<in> set xs \<Longrightarrow> 0 \<le> snd (snd x)"
  shows "fold (\<lambda>(_, _, cost) s. s - cost) xs (v :: int) \<le> v"
  using assms
proof (induction xs arbitrary: v)
  case (Cons x xs)
  then have "fold (\<lambda>(_, _, cost) s. s - cost) xs (v - snd (snd x)) \<le> v - snd (snd x)" by simp
  moreover have "0 \<le> snd (snd x)" using Cons.prems by simp
  ultimately show ?case by (cases x) simp
qed simp

lemma set_dict_fromkeys [simp]: "set (dict_fromkeys xs) = set xs"
  by (induction xs) auto

lemma distinct_dict_fromkeys [simp]: "distinct (dict_fromkeys xs)"
  by (induction xs) auto

lemma dict_get_score_snapshot:
  "dict_get (score_snapshot paths) name = map_option score_path (dict_get paths name)"
proof (cases "dict_get paths name")
  case None
  then have "name \<notin> set (dict_keys paths)" by (simp add: map_of_eq_None_iff)
  then have "dict_get (score_snapshot paths) name = None"
    by (simp add: score_snapshot_def map_of_eq_None_iff image_image)
  then show ?thesis using None by simp
next
  case (Some m)
  then have "name \<in> set (sort (dict_keys paths))" by (metis domI dom_map_of_conv_image_fst image_set set_sort)
  then have "map_of (map (\<lambda>n. (n, f n)) (sort (dict_keys paths))) name = Some (f name)" for f :: "ustr \<Rightarrow> path_score"
    by (simp add: map_of_map_restrict)
  then show ?thesis using Some by (simp add: score_snapshot_def)
qed

section \<open>Smoothing\<close>

lemma smooth_int_between:
  "min previous current \<le> smooth_int previous current" "smooth_int previous current \<le> max previous current"
  by (simp_all add: smooth_int_def const_simps)

lemma smooth_optional_ge: "opt_ge lo p \<Longrightarrow> opt_ge lo c \<Longrightarrow> opt_ge lo (smooth_optional p c)"
  using smooth_int_between(1) [of "the p" "the c"]
  by (cases p; cases c) (simp_all add: smooth_optional_def opt_ge_def)

lemma smooth_metrics_ok:
  assumes "metrics_fields_ok p" and "metrics_fields_ok m"
  shows "metrics_fields_ok (smooth_metrics p m)"
proof -
  have "0 \<le> smooth_int (pm_loss_ppm p) (pm_loss_ppm m)" "smooth_int (pm_loss_ppm p) (pm_loss_ppm m) \<le> 1000000"
    using smooth_int_between [of "pm_loss_ppm p" "pm_loss_ppm m"] assms
    by (auto simp: metrics_fields_ok_def metrics_counters_def)
  then show ?thesis
    using assms by (simp add: metrics_fields_ok_def metrics_counters_def smooth_metrics_def smooth_optional_ge)
qed

definition smoothed_value :: "smoother \<Rightarrow> ustr \<Rightarrow> path_metrics \<Rightarrow> path_metrics" where
  "smoothed_value s path_name m =
     (case dict_get (sm_previous s) path_name of None \<Rightarrow> m | Some previous \<Rightarrow> smooth_metrics previous m)"

lemma smooth_step_eq:
  "smooth_step (n, m) (s, out) =
     (\<lparr> sm_previous = dict_set n (smoothed_value s n m) (sm_previous s),
        sm_samples = dict_set n (confidence s n + 1) (sm_samples s) \<rparr>,
      dict_set n (smoothed_value s n m) out)"
  by (simp add: smooth_step_def smoothed_value_def Let_def)

lemma fold_smooth_step:
  assumes "dict_wf paths" and "fold smooth_step paths (s, out) = (s', out')"
    and "set (dict_keys paths) \<inter> set (dict_keys out) = {}"
  shows "out' = out @ map (\<lambda>(n, m). (n, smoothed_value s n m)) paths \<and>
    (\<forall>n. dict_get (sm_previous s') n =
       (case dict_get paths n of None \<Rightarrow> dict_get (sm_previous s) n | Some m \<Rightarrow> Some (smoothed_value s n m))) \<and>
    (\<forall>n. confidence s' n = (if n \<in> set (dict_keys paths) then confidence s n + 1 else confidence s n))"
  using assms
proof (induction paths arbitrary: s out)
  case (Cons x paths)
  obtain k m where x: "x = (k, m)" by (cases x)
  define s1 where "s1 = \<lparr> sm_previous = dict_set k (smoothed_value s k m) (sm_previous s),
        sm_samples = dict_set k (confidence s k + 1) (sm_samples s) \<rparr>"
  define out1 where "out1 = dict_set k (smoothed_value s k m) out"
  have wf: "dict_wf paths" "k \<notin> set (dict_keys paths)" "k \<notin> set (dict_keys out)"
    using Cons.prems(1,3) by (simp_all add: x)
  have f: "fold smooth_step paths (s1, out1) = (s', out')"
    using Cons.prems(2) unfolding x fold_Cons comp_apply smooth_step_eq s1_def out1_def .
  have o: "out1 = out @ [(k, smoothed_value s k m)]" using wf(3) by (simp add: out1_def dict_set_fresh)
  have disj: "set (dict_keys paths) \<inter> set (dict_keys out1) = {}"
    using Cons.prems(3) wf(2) by (auto simp: o x)
  note IH = Cons.IH [OF wf(1) f disj]
  have v: "smoothed_value s1 n' m' = smoothed_value s n' m'" if "n' \<noteq> k" for n' m'
    using that by (simp add: smoothed_value_def s1_def)
  have c: "confidence s1 n' = (if n' = k then confidence s k + 1 else confidence s n')" for n'
    by (simp add: confidence_def s1_def)
  have eq: "map (\<lambda>(n, m). (n, smoothed_value s1 n m)) paths = map (\<lambda>(n, m). (n, smoothed_value s n m)) paths"
    using v wf(2) by (force simp: image_iff)
  have none: "dict_get paths k = None" using wf(2) by (simp add: map_of_eq_None_iff)
  have "out' = out @ map (\<lambda>(n, m). (n, smoothed_value s n m)) (x # paths)"
    using IH eq by (simp add: o x)
  moreover have "dict_get (sm_previous s') n = (case dict_get (x # paths) n of
      None \<Rightarrow> dict_get (sm_previous s) n | Some m \<Rightarrow> Some (smoothed_value s n m))" for n
  proof (cases "n = k")
    case True
    then show ?thesis using IH none by (simp add: x s1_def)
  next
    case False
    then show ?thesis using IH v by (simp add: x s1_def split: option.split)
  qed
  moreover have "confidence s' n = (if n \<in> set (dict_keys (x # paths)) then confidence s n + 1 else confidence s n)" for n
    using IH c wf(2) by (simp add: x)
  ultimately show ?case by blast
qed simp

lemma fold_del:
  "dict_wf d \<Longrightarrow> dict_get (fold dict_del ks d) n = (if n \<in> set ks then None else dict_get d n)"
  by (induction ks arbitrary: d) auto

lemma fold_dict_del_wf: "dict_wf d \<Longrightarrow> dict_wf (fold dict_del ks d)"
  by (induction ks arbitrary: d) auto

lemma drop_stale_eq:
  "drop_stale current s =
     (let stale = filter (\<lambda>n. n \<notin> set current) (dict_keys (sm_previous s))
      in \<lparr> sm_previous = fold dict_del stale (sm_previous s), sm_samples = fold dict_del stale (sm_samples s) \<rparr>)"
proof -
  have "fold (\<lambda>n s. s\<lparr> sm_previous := dict_del n (sm_previous s), sm_samples := dict_del n (sm_samples s) \<rparr>) ks s
      = \<lparr> sm_previous = fold dict_del ks (sm_previous s), sm_samples = fold dict_del ks (sm_samples s) \<rparr>" for ks s
    by (induction ks arbitrary: s) simp_all
  then show ?thesis by (simp add: drop_stale_def Let_def)
qed

definition smoother_wf :: "smoother \<Rightarrow> bool" where
  "smoother_wf s \<longleftrightarrow> dict_wf (sm_previous s) \<and> dict_wf (sm_samples s) \<and>
     set (dict_keys (sm_samples s)) \<subseteq> set (dict_keys (sm_previous s))"

lemma dict_keys_iff: "n \<in> set (dict_keys d) \<longleftrightarrow> dict_get d n \<noteq> None"
  by (simp add: map_of_eq_None_iff)

lemma dict_get_map: "dict_get (map (\<lambda>(k, v). (k, f k v)) d) n = map_option (f n) (dict_get d n)"
  by (induction d) auto

lemma fold_smooth_step_wf: "smoother_wf (fst a) \<Longrightarrow> smoother_wf (fst (fold smooth_step ps a))"
proof (induction ps arbitrary: a)
  case (Cons p ps)
  obtain n m where p: "p = (n, m)" by (cases p)
  obtain s out where a: "a = (s, out)" by (cases a)
  have "smoother_wf (fst (smooth_step p a))"
    using Cons.prems by (auto simp: p a smooth_step_eq smoother_wf_def dict_keys_set)
  then show ?case using Cons.IH by simp
qed simp

lemma drop_stale_wf:
  assumes "smoother_wf s"
  shows "smoother_wf (drop_stale current s)"
    and "dict_get (sm_previous (drop_stale current s)) n =
           (if n \<in> set current then dict_get (sm_previous s) n else None)"
    and "confidence (drop_stale current s) n = (if n \<in> set current then confidence s n else 0)"
proof -
  define stale where "stale = filter (\<lambda>n. n \<notin> set current) (dict_keys (sm_previous s))"
  have wf: "dict_wf (sm_previous s)" "dict_wf (sm_samples s)"
    and sub: "dict_get (sm_previous s) n = None \<Longrightarrow> dict_get (sm_samples s) n = None" for n
    using assms by (auto simp: smoother_wf_def map_of_eq_None_iff)
  have d: "drop_stale current s =
      \<lparr> sm_previous = fold dict_del stale (sm_previous s), sm_samples = fold dict_del stale (sm_samples s) \<rparr>"
    by (simp add: drop_stale_eq stale_def Let_def)
  have st: "n \<in> set stale \<longleftrightarrow> n \<notin> set current \<and> dict_get (sm_previous s) n \<noteq> None" for n
    by (auto simp: stale_def map_of_eq_None_iff image_iff)
  show prev: "dict_get (sm_previous (drop_stale current s)) n =
      (if n \<in> set current then dict_get (sm_previous s) n else None)" for n
    using st [of n] by (cases "n \<in> set current"; cases "dict_get (sm_previous s) n") (simp_all add: d fold_del wf)
  show "confidence (drop_stale current s) n = (if n \<in> set current then confidence s n else 0)"
    using st [of n] sub [of n]
    by (cases "n \<in> set current"; cases "dict_get (sm_previous s) n") (simp_all add: d confidence_def fold_del wf)
  have "dict_get (fold dict_del stale (sm_samples s)) n = None"
    if "dict_get (fold dict_del stale (sm_previous s)) n = None" for n
    using that sub [of n] fold_del [OF wf(1), of stale n] fold_del [OF wf(2), of stale n]
    by (cases "n \<in> set stale") simp_all
  then have "set (dict_keys (fold dict_del stale (sm_samples s))) \<subseteq> set (dict_keys (fold dict_del stale (sm_previous s)))"
    by (intro subsetI) (metis dict_keys_iff)
  then show "smoother_wf (drop_stale current s)"
    using wf by (simp add: smoother_wf_def d fold_dict_del_wf)
qed

section \<open>Properties\<close>

text \<open>
  C28. The floating-point weight \<^verbatim>\<open>round(capacity_bps / 1_000_000)\<close> of \<open>capacity_weight\<close> is, for every
  integer capacity, the exact quotient rounded half to even and clamped to Rust's u16 weights
  1..65535: the double division never changes a weight.
\<close>
theorem capacity_weight_exact:
  "capacity_weight (Some c) DEFAULT_CAPACITY_BPS = min 65535 (max 1 (py_round_div c 1000000))"
  using capacity_weight_Some [of DEFAULT_CAPACITY_BPS c] by (simp add: clamp_weight_def const_simps)

text \<open>
  A path never gains weight by getting worse: with less capacity, more latency, more jitter,
  more loss or a longer queue, \<open>adaptive_weight\<close> never increases, and it always lies in 1..65535.
\<close>
lemma adaptive_weight_monotone:
  assumes "c \<le> c'" and "l' \<le> l" and "p' \<le> p" and "q' \<le> q" and "qb' \<le> qb" and "j' \<le> j"
  shows "1 \<le> adaptive_weight (Some c) (Some l) p q qb (Some j)
    \<and> adaptive_weight (Some c) (Some l) p q qb (Some j) \<le> adaptive_weight (Some c') (Some l') p' q' qb' (Some j')
    \<and> adaptive_weight (Some c') (Some l') p' q' qb' (Some j') \<le> 65535"
proof -
  have "adaptive_weight (Some c) (Some l) p q qb (Some j) \<le> adaptive_weight (Some c') (Some l') p' q' qb' (Some j')"
    unfolding adaptive_weight_def
    using capacity_weight_mono [OF assms(1)] penalties_mono(1) [OF assms(2)] penalties_mono(2) [OF assms(6)]
      penalties_mono(3) [OF assms(3)] penalties_mono(4) [OF assms(4,5)]
    by (intro clamp_weight_mono) linarith
  then show ?thesis by simp
qed

lemma adaptive_weight_monotone_witness:
  "1 \<le> adaptive_weight (Some 20000000) (Some 80000) 5000 3 0 (Some 1000)
    \<and> adaptive_weight (Some 20000000) (Some 80000) 5000 3 0 (Some 1000)
        \<le> adaptive_weight (Some 50000000) (Some 20000) 0 0 0 (Some 0)
    \<and> adaptive_weight (Some 50000000) (Some 20000) 0 0 0 (Some 0) \<le> 65535"
  using adaptive_weight_monotone [of 20000000 50000000 20000 80000 0 5000 0 3 0 0 0 1000] by simp

text \<open>
  Health scoring: a path is down exactly when control has been silent for 120 s, and then
  carries weight 1 and score 0; weights fit 1..65535, scores are non-negative, the capacity
  confidence is a fraction of a million, and the list of reasons is non-empty and duplicate-free.
\<close>
lemma score_path_sound:
  "(sco_health (score_path m) = Down) = (120000000 \<le> pm_stale_control_age_us m)
   \<and> (120000000 \<le> pm_stale_control_age_us m \<longrightarrow> sco_weight (score_path m) = 1 \<and> sco_score (score_path m) = 0)
   \<and> 1 \<le> sco_weight (score_path m) \<and> sco_weight (score_path m) \<le> 65535
   \<and> 0 \<le> sco_score (score_path m)
   \<and> 0 \<le> sco_capacity_confidence_ppm (score_path m) \<and> sco_capacity_confidence_ppm (score_path m) \<le> 1000000
   \<and> sco_reasons (score_path m) \<noteq> [] \<and> distinct (sco_reasons (score_path m))"
proof -
  have health: "sco_health (score_path m) = path_health_of m"
    by (simp add: score_path_def Let_def)
  have down: "(path_health_of m = Down) = (120000000 \<le> pm_stale_control_age_us m)"
    by (simp add: path_health_of_def STALE_CONTROL_DOWN_US_def)
  have weight: "sco_weight (score_path m) = (case path_health_of m of Down \<Rightarrow> 1
      | Degraded \<Rightarrow> max 1 (adaptive_weight (pm_tx_capacity_bps m) (scheduler_latency_us m) (pm_loss_ppm m)
          (pm_queue_depth_packets m) (pm_queue_depth_bytes m) None div 2)
      | Alive \<Rightarrow> adaptive_weight (pm_tx_capacity_bps m) (scheduler_latency_us m) (pm_loss_ppm m)
          (pm_queue_depth_packets m) (pm_queue_depth_bytes m) None)"
    by (simp add: score_path_def Let_def)
  have "v div 2 \<le> 65535" if "v \<le> 65535" for v :: int using that by simp
  then have bounds: "1 \<le> sco_weight (score_path m)" "sco_weight (score_path m) \<le> 65535"
    by (simp_all add: weight split: path_health.split)
  have score: "0 \<le> sco_score (score_path m)" "path_health_of m = Down \<Longrightarrow> sco_score (score_path m) = 0"
    by (simp_all add: score_path_def Let_def)
  have "0 \<le> max 0 (min 1000000 x) \<and> max 0 (min 1000000 x) \<le> (1000000 :: int)" for x by simp
  then have confidence: "0 \<le> capacity_confidence_ppm m" "capacity_confidence_ppm m \<le> 1000000"
    unfolding capacity_confidence_ppm_def Let_def by blast+
  have sc: "sco_capacity_confidence_ppm (score_path m) = capacity_confidence_ppm m"
    by (simp add: score_path_def Let_def)
  have "xs \<noteq> [] \<Longrightarrow> dict_fromkeys xs \<noteq> []" for xs :: "string list" by (cases xs) simp_all
  then have reasons: "sco_reasons (score_path m) \<noteq> []" "distinct (sco_reasons (score_path m))"
    by (simp_all add: score_path_def Let_def)
  have "path_health_of m = Down \<Longrightarrow> sco_weight (score_path m) = 1" by (simp add: weight)
  then show ?thesis using health down bounds score confidence sc reasons by simp
qed

definition sample_metrics :: path_metrics where
  "sample_metrics =
     \<lparr> pm_path_name = [108, 116, 101], pm_path_id = 0, pm_tx_capacity_bps = Some 20000000,
       pm_rx_capacity_bps = None, pm_tx_latency_current_us = None, pm_tx_latency_mean_us = Some 40000,
       pm_rx_latency_current_us = None, pm_rx_latency_mean_us = None, pm_latency_source = None,
       pm_latency_confidence = None, pm_latency_clock_error_us = None, pm_latency_rtt_us = None,
       pm_loss_ppm = 1000, pm_tx_jitter_us = None, pm_rx_jitter_us = None, pm_tx_p95_us = None,
       pm_rx_p95_us = None, pm_queue_depth_packets = 0, pm_queue_depth_bytes = 0,
       pm_queue_oldest_age_us = 0, pm_send_failures = 0, pm_receive_gaps = 0,
       pm_reorder_depth_packets = 0, pm_local_drops = 0, pm_scheduler_in_flight_packets = 0,
       pm_scheduler_in_flight_bytes = 0, pm_scheduler_predicted_delivery_us = 0,
       pm_reorder_buffer_packets = 0, pm_reorder_buffer_oldest_age_us = 0,
       pm_socket_receive_buffer_bytes = 0, pm_socket_send_buffer_bytes = 0,
       pm_socket_drain_quantum = 0, pm_control_tx_frames = 0, pm_control_rx_frames = 0,
       pm_stale_control_age_us = 130000000, pm_last_tx_at_us = 0, pm_last_rx_at_us = 0,
       pm_last_tx_gap_us = 0, pm_last_rx_gap_us = 0, pm_observed_packets = 0 \<rparr>"

lemma score_path_sound_witness:
  "120000000 \<le> pm_stale_control_age_us sample_metrics \<and>
   sco_weight (score_path sample_metrics) = 1 \<and> sco_score (score_path sample_metrics) = 0"
proof -
  have "120000000 \<le> pm_stale_control_age_us sample_metrics" by (simp add: sample_metrics_def)
  then show ?thesis using score_path_sound [of sample_metrics] by simp
qed

text \<open>
  C29. One smoothing pass: the smoothed snapshot has exactly the paths of the input, each value being
  the input's on first sight and otherwise the damped combination with the previous smoothed value;
  that value is what the smoother remembers, paths that disappeared are forgotten, and the
  confidence counter of a path counts its consecutive appearances.
\<close>
theorem smoothing_contract:
  assumes "smoother_wf s" and "dict_wf paths"
  shows "snd (smooth s paths) = map (\<lambda>(n, m). (n, smoothed_value s n m)) paths
    \<and> dict_get (sm_previous (fst (smooth s paths))) = dict_get (snd (smooth s paths))
    \<and> confidence (fst (smooth s paths)) n = (if n \<in> set (dict_keys paths) then confidence s n + 1 else 0)
    \<and> smoother_wf (fst (smooth s paths))"
proof -
  obtain s' out where f: "fold smooth_step paths (s, []) = (s', out)" by fastforce
  have wf: "smoother_wf s'" using fold_smooth_step_wf [of "(s, [])" paths] assms(1) f by simp
  have eq: "smooth s paths = (drop_stale (dict_keys paths) s', out)" by (simp add: smooth_def f)
  have "set (dict_keys paths) \<inter> set (dict_keys ([] :: snapshot)) = {}" by simp
  note F = fold_smooth_step [OF assms(2) f this]
  have out: "out = map (\<lambda>(n, m). (n, smoothed_value s n m)) paths" using F by simp
  have "dict_get (sm_previous (drop_stale (dict_keys paths) s')) n = dict_get out n" for n
  proof (cases "dict_get paths n")
    case None
    then have "n \<notin> set (dict_keys paths)" by (simp only: dict_keys_iff) simp
    then show ?thesis using None by (simp only: drop_stale_wf(2) [OF wf] out dict_get_map) simp
  next
    case (Some m)
    then have "n \<in> set (dict_keys paths)" by (simp only: dict_keys_iff) simp
    moreover have "dict_get (sm_previous s') n = Some (smoothed_value s n m)"
      using F [THEN conjunct2, THEN conjunct1, THEN spec, of n] Some by simp
    ultimately show ?thesis using Some by (simp only: drop_stale_wf(2) [OF wf] out dict_get_map) simp
  qed
  then have prev: "dict_get (sm_previous (drop_stale (dict_keys paths) s')) = dict_get out" by blast
  have "confidence (drop_stale (dict_keys paths) s') n = (if n \<in> set (dict_keys paths) then confidence s n + 1 else 0)"
    using F [THEN conjunct2, THEN conjunct2, THEN spec, of n] drop_stale_wf(3) [OF wf, of "dict_keys paths" n] by simp
  then show ?thesis
    unfolding eq fst_conv snd_conv prev using out drop_stale_wf(1) [OF wf] by blast
qed

definition sample_smoother :: smoother where
  "sample_smoother = \<lparr> sm_previous = [([108], sample_metrics)], sm_samples = [([108], 4)] \<rparr>"

definition sample_paths :: snapshot where
  "sample_paths = [([119], sample_metrics)]"

theorem smoothing_contract_witness:
  "smoother_wf sample_smoother \<and> dict_wf sample_paths \<and>
   confidence (fst (smooth sample_smoother sample_paths)) [119] = 1 \<and>
   confidence (fst (smooth sample_smoother sample_paths)) [108] = 0"
proof -
  have wf: "smoother_wf sample_smoother" "dict_wf sample_paths"
    by (simp_all add: smoother_wf_def sample_smoother_def sample_paths_def)
  have keys: "dict_keys sample_paths = [[119]]" by (simp add: sample_paths_def)
  have "confidence sample_smoother [119] = 0" by (simp add: confidence_def sample_smoother_def)
  then show ?thesis
    using wf smoothing_contract [OF wf, of "[119]"] smoothing_contract [OF wf, of "[108]"] unfolding keys by simp
qed

end
