(* ===== verification/Sched_Policies.thy ===== *)
theory Sched_Policies
  imports Sched_Scoring
begin

text \<open>
  Scheduler policies of \<^verbatim>\<open>scheduling/policies.py\<close> and the per-path runtime contract of
  \<^verbatim>\<open>config/runtime.py\<close>. The class hierarchy is the datatype \<open>policy_class\<close>; each overridable method is
  one function that dispatches on the class, and \<open>compile_path\<close> calls them the way the base class
  does. \<open>validate_runtime_path\<close> is Pydantic's check of the constructed record.
\<close>

section \<open>The runtime contract\<close>

datatype scheduler_mode =
    M_round_robin | M_weighted_round_robin | M_lowest_latency | M_loss_aware | M_capacity_aware
  | M_least_queue | M_earliest_completion_first | M_blocking_estimation | M_ordered_multipath
  | M_balanced | M_adaptive

record runtime_path =
  rp_path_id :: int
  rp_enabled :: bool
  rp_state :: path_state
  rp_weight :: int
  rp_mtu :: int
  rp_tx_capacity_bps :: "int option"
  rp_rx_capacity_bps :: "int option"
  rp_latency_us :: "int option"
  rp_loss_ppm :: int
  rp_reorder_hold_us :: int
  rp_max_in_flight_packets :: int
  rp_max_in_flight_bytes :: int
  rp_pacing_budget_bps :: int
  rp_queue_depth_packets :: int
  rp_queue_depth_bytes :: int
  rp_queue_oldest_age_us :: int

definition runtime_path_fields_ok :: "runtime_path \<Rightarrow> bool" where
  "runtime_path_fields_ok p \<longleftrightarrow>
     0 \<le> rp_loss_ppm p \<and> rp_loss_ppm p \<le> 1000000 \<and> 0 \<le> rp_reorder_hold_us p \<and>
     0 \<le> rp_max_in_flight_packets p \<and> rp_max_in_flight_packets p \<le> 65535 \<and>
     0 \<le> rp_max_in_flight_bytes p \<and> 0 \<le> rp_pacing_budget_bps p \<and>
     0 \<le> rp_queue_depth_packets p \<and> 0 \<le> rp_queue_depth_bytes p \<and> 0 \<le> rp_queue_oldest_age_us p"

definition validate_runtime_path :: "runtime_path \<Rightarrow> runtime_path res" where
  "validate_runtime_path p =
     (if runtime_path_fields_ok p then Inr p else Inl (ValidationError ''RuntimePathSchedulerConfig''))"

section \<open>Constants\<close>

definition ORDERED_REORDER_HOLD_MIN_US :: int where
  [const_simps]: "ORDERED_REORDER_HOLD_MIN_US = 2000"

definition ORDERED_REORDER_HOLD_MAX_US :: int where
  [const_simps]: "ORDERED_REORDER_HOLD_MAX_US = 150000"

definition ORDERED_REORDER_HOLD_MARGIN_NUMERATOR :: int where
  [const_simps]: "ORDERED_REORDER_HOLD_MARGIN_NUMERATOR = 5"

definition ORDERED_REORDER_HOLD_MARGIN_DENOMINATOR :: int where
  [const_simps]: "ORDERED_REORDER_HOLD_MARGIN_DENOMINATOR = 4"

definition ORDERED_REORDER_HOLD_JITTER_MULTIPLIER :: int where
  [const_simps]: "ORDERED_REORDER_HOLD_JITTER_MULTIPLIER = 2"

definition ORDERED_IN_FLIGHT_BDP_MULTIPLIER :: int where
  [const_simps]: "ORDERED_IN_FLIGHT_BDP_MULTIPLIER = 2"

definition ORDERED_MIN_IN_FLIGHT_PACKETS :: int where
  [const_simps]: "ORDERED_MIN_IN_FLIGHT_PACKETS = 4"

definition ORDERED_MAX_IN_FLIGHT_PACKETS :: int where
  [const_simps]: "ORDERED_MAX_IN_FLIGHT_PACKETS = 8192"

definition ORDERED_MIN_IN_FLIGHT_BYTES :: int where
  [const_simps]: "ORDERED_MIN_IN_FLIGHT_BYTES = 16 * 1024"

definition ORDERED_MAX_IN_FLIGHT_BYTES :: int where
  [const_simps]: "ORDERED_MAX_IN_FLIGHT_BYTES = 16 * 1024 * 1024"

definition ORDERED_CAPACITY_AWARE_REORDER_HOLD_MIN_US :: int where
  [const_simps]: "ORDERED_CAPACITY_AWARE_REORDER_HOLD_MIN_US = 25000"

definition ORDERED_CAPACITY_AWARE_LARGE_MTU_BYTES :: int where
  [const_simps]: "ORDERED_CAPACITY_AWARE_LARGE_MTU_BYTES = 4096"

definition ORDERED_MAX_PRESSURE_CREDIT_DIVISOR :: int where
  [const_simps]: "ORDERED_MAX_PRESSURE_CREDIT_DIVISOR = 16"

definition REAL_DATA_LATENCY_ORDERED_CREDIT_MULTIPLIER :: int where
  [const_simps]: "REAL_DATA_LATENCY_ORDERED_CREDIT_MULTIPLIER = 2"

definition SCHEDULER_LATENCY_MAX_US :: int where
  [const_simps]: "SCHEDULER_LATENCY_MAX_US = 10000000"

section \<open>Shared helpers\<close>

definition metric :: "path_metrics option \<Rightarrow> (path_metrics \<Rightarrow> int option) \<Rightarrow> int option" where
  "metric metrics field = (case metrics of None \<Rightarrow> None | Some m \<Rightarrow> field m)"

definition metric_or_0 :: "path_metrics option \<Rightarrow> (path_metrics \<Rightarrow> int) \<Rightarrow> int" where
  "metric_or_0 metrics field = (case metrics of None \<Rightarrow> 0 | Some m \<Rightarrow> field m)"

definition bounded_scheduler_latency_us :: "int option \<Rightarrow> int option" where
  "bounded_scheduler_latency_us v =
     (case v of None \<Rightarrow> None
      | Some l \<Rightarrow> if l < 0 \<or> l > SCHEDULER_LATENCY_MAX_US then None else Some l)"

definition ordered_reorder_hold_us :: "int option \<Rightarrow> int \<Rightarrow> int option \<Rightarrow> int" where
  "ordered_reorder_hold_us latency_us configured_reorder_hold_us jitter_us =
     (if configured_reorder_hold_us \<noteq> 0 then configured_reorder_hold_us
      else
        let latency_budget_us =
              (case latency_us of
                 None \<Rightarrow> ORDERED_REORDER_HOLD_MIN_US
               | Some l \<Rightarrow> l * ORDERED_REORDER_HOLD_MARGIN_NUMERATOR div ORDERED_REORDER_HOLD_MARGIN_DENOMINATOR)
              + (case jitter_us of None \<Rightarrow> 0 | Some j \<Rightarrow> j * ORDERED_REORDER_HOLD_JITTER_MULTIPLIER)
        in max ORDERED_REORDER_HOLD_MIN_US (min ORDERED_REORDER_HOLD_MAX_US latency_budget_us))"

definition path_jitter_us :: "path_metrics option \<Rightarrow> int option" where
  "path_jitter_us metrics =
     (case metrics of
        None \<Rightarrow> None
      | Some m \<Rightarrow>
          (case some_values [pm_tx_jitter_us m, pm_rx_jitter_us m] of
             [] \<Rightarrow> None
           | v # vs \<Rightarrow> Some (fold max vs v)))"

definition ordered_pressure_score :: "path_metrics \<Rightarrow> int" where
  "ordered_pressure_score m =
     min 6 (pm_local_drops m div 4096)
     + min 4 (pm_send_failures m div 16)
     + min 4 (pm_receive_gaps m div 1024)
     + min 4 (pm_reorder_depth_packets m div 1024)
     + min 4 (pm_reorder_buffer_packets m div 1024)
     + min 4 (pm_reorder_buffer_oldest_age_us m div 25000)
     + min 4 (pm_queue_depth_packets m div 128)
     + min 4 (pm_scheduler_in_flight_packets m div 512)
     + min 4 (pm_scheduler_in_flight_bytes m div (512 * 1024))
     + min 4 (pm_scheduler_predicted_delivery_us m div 25000)
     + min 4 (pm_loss_ppm m div 10000)
     + (if pm_observed_packets m > 0
        then min 6 (pm_receive_gaps m * 1000000 div pm_observed_packets m div 10000)
             + min 6 (pm_local_drops m * 1000000 div pm_observed_packets m div 5000)
        else 0)
     + (case path_jitter_us (Some m) of None \<Rightarrow> 0 | Some j \<Rightarrow> min 4 (j div 10000))"

definition ordered_pressure_credit_divisor :: "path_metrics option \<Rightarrow> int" where
  "ordered_pressure_credit_divisor metrics =
     (case metrics of
        None \<Rightarrow> 1
      | Some m \<Rightarrow> max 1 (min ORDERED_MAX_PRESSURE_CREDIT_DIVISOR (1 + ordered_pressure_score m)))"

definition ordered_credit_capacity_bps :: "int option \<Rightarrow> int option \<Rightarrow> int option" where
  "ordered_credit_capacity_bps tx_capacity_bps rx_capacity_bps =
     (case filter (\<lambda>v. v > 0) (some_values [tx_capacity_bps, rx_capacity_bps]) of
        [] \<Rightarrow> None
      | v # vs \<Rightarrow> Some (fold min vs v))"

definition ordered_latency_may_use_generic :: "path_metrics option \<Rightarrow> bool" where
  "ordered_latency_may_use_generic metrics =
     (case metrics of
        None \<Rightarrow> True
      | Some m \<Rightarrow>
          has_trusted_real_data_latency m \<or>
          pm_latency_source m \<noteq> Some (str_lit ''clock-synced-one-way'') \<or>
          pm_observed_packets m > 0)"

definition ordered_latency_us :: "path_metrics option \<Rightarrow> int option" where
  "ordered_latency_us metrics =
     (case metrics of
        None \<Rightarrow> None
      | Some m \<Rightarrow>
          if \<not> ordered_latency_may_use_generic (Some m) then None
          else case some_values [pm_tx_latency_mean_us m, pm_tx_latency_current_us m, pm_tx_p95_us m,
                                 pm_rx_latency_mean_us m, pm_rx_latency_current_us m, pm_rx_p95_us m] of
                 [] \<Rightarrow> None
               | v # vs \<Rightarrow> Some (fold max vs v))"

definition trusted_real_data_latency :: "path_metrics option \<Rightarrow> bool" where
  "trusted_real_data_latency metrics = (case metrics of None \<Rightarrow> False | Some m \<Rightarrow> has_trusted_real_data_latency m)"

section \<open>Policies\<close>

record path_context =
  cx_path :: path_config
  cx_index :: int
  cx_metrics :: "path_metrics option"

definition context_state :: "path_context \<Rightarrow> path_state" where
  "context_state cx =
     (if \<not> ps_enabled (pc_scheduler (cx_path cx)) then Disabled else ps_state (pc_scheduler (cx_path cx)))"

datatype policy_class =
    RoundRobinPolicy | WeightedRoundRobinPolicy | SrttPolicy | LossAwarePolicy | CapacityAwarePolicy
  | LeastQueuePolicy | EarliestCompletionFirstPolicy | BlockingEstimationPolicy | OrderedMultipathPolicy
  | OrderedMultipathCapacityAwarePolicy | SingleBestPathPolicy | ArrivalGuardedCapacityPolicy
  | FlowletAdaptivePolicy | LatencyGuardedCapacityPolicy | BalancedPolicy | AdaptivePolicy

fun policy_for_mode :: "scheduler_policy \<Rightarrow> policy_class res" where
  "policy_for_mode Round_robin = Inr RoundRobinPolicy"
| "policy_for_mode Weighted_round_robin = Inr WeightedRoundRobinPolicy"
| "policy_for_mode Srtt = Inr SrttPolicy"
| "policy_for_mode Lowest_latency = Inr SrttPolicy"
| "policy_for_mode Loss_aware = Inr LossAwarePolicy"
| "policy_for_mode Capacity_aware = Inr CapacityAwarePolicy"
| "policy_for_mode Least_queue = Inr LeastQueuePolicy"
| "policy_for_mode Earliest_completion_first = Inr EarliestCompletionFirstPolicy"
| "policy_for_mode Blocking_estimation = Inr BlockingEstimationPolicy"
| "policy_for_mode Ordered_multipath = Inr OrderedMultipathPolicy"
| "policy_for_mode Ordered_multipath_capacity_aware = Inr OrderedMultipathCapacityAwarePolicy"
| "policy_for_mode Single_best_path = Inr SingleBestPathPolicy"
| "policy_for_mode Arrival_guarded_capacity = Inr ArrivalGuardedCapacityPolicy"
| "policy_for_mode Flowlet_adaptive = Inr FlowletAdaptivePolicy"
| "policy_for_mode Latency_guarded_capacity = Inr LatencyGuardedCapacityPolicy"
| "policy_for_mode Balanced = Inr BalancedPolicy"
| "policy_for_mode Adaptive = Inr AdaptivePolicy"
| "policy_for_mode Coordinated_adaptive = Inl KeyError"

fun rust_mode :: "policy_class \<Rightarrow> scheduler_mode" where
  "rust_mode RoundRobinPolicy = M_round_robin"
| "rust_mode WeightedRoundRobinPolicy = M_weighted_round_robin"
| "rust_mode SrttPolicy = M_lowest_latency"
| "rust_mode LossAwarePolicy = M_loss_aware"
| "rust_mode CapacityAwarePolicy = M_weighted_round_robin"
| "rust_mode LeastQueuePolicy = M_least_queue"
| "rust_mode EarliestCompletionFirstPolicy = M_earliest_completion_first"
| "rust_mode BlockingEstimationPolicy = M_blocking_estimation"
| "rust_mode OrderedMultipathPolicy = M_ordered_multipath"
| "rust_mode OrderedMultipathCapacityAwarePolicy = M_ordered_multipath"
| "rust_mode SingleBestPathPolicy = M_weighted_round_robin"
| "rust_mode ArrivalGuardedCapacityPolicy = M_weighted_round_robin"
| "rust_mode FlowletAdaptivePolicy = M_adaptive"
| "rust_mode LatencyGuardedCapacityPolicy = M_weighted_round_robin"
| "rust_mode BalancedPolicy = M_balanced"
| "rust_mode AdaptivePolicy = M_adaptive"

definition rust_mode_for_policy :: "scheduler_policy \<Rightarrow> scheduler_mode res" where
  "rust_mode_for_policy mode = rbind (policy_for_mode mode) (\<lambda>p. Inr (rust_mode p))"

abbreviation hints :: "path_context \<Rightarrow> path_scheduler_config" where
  "hints cx \<equiv> pc_scheduler (cx_path cx)"

definition is_ordered :: "policy_class \<Rightarrow> bool" where
  "is_ordered cls \<longleftrightarrow> cls = OrderedMultipathPolicy \<or> cls = OrderedMultipathCapacityAwarePolicy"

definition policy_tx_capacity_bps :: "path_context \<Rightarrow> int option" where
  "policy_tx_capacity_bps cx =
     first_some [metric (cx_metrics cx) pm_tx_capacity_bps, ps_tx_capacity_bps (hints cx)]"

definition policy_rx_capacity_bps :: "path_context \<Rightarrow> int option" where
  "policy_rx_capacity_bps cx =
     first_some [metric (cx_metrics cx) pm_rx_capacity_bps, ps_rx_capacity_bps (hints cx)]"

definition base_latency_us :: "path_context \<Rightarrow> int option" where
  "base_latency_us cx =
     bounded_scheduler_latency_us (first_some [metric (cx_metrics cx) scheduler_latency_us, ps_latency_us (hints cx)])"

definition ordered_path_latency_us :: "path_context \<Rightarrow> int" where
  "ordered_path_latency_us cx =
     (let measured = bounded_scheduler_latency_us (ordered_latency_us (cx_metrics cx));
          configured = (if measured = None then bounded_scheduler_latency_us (ps_latency_us (hints cx)) else measured);
          latency = (if configured = None \<and> ordered_latency_may_use_generic (cx_metrics cx)
                     then base_latency_us cx else configured)
      in or_int latency (ordered_reorder_hold_us latency (ps_reorder_hold_us (hints cx)) (path_jitter_us (cx_metrics cx))))"

definition policy_latency_us :: "policy_class \<Rightarrow> path_context \<Rightarrow> int option" where
  "policy_latency_us cls cx = (if is_ordered cls then Some (ordered_path_latency_us cx) else base_latency_us cx)"

definition policy_loss_ppm :: "path_context \<Rightarrow> int" where
  "policy_loss_ppm cx =
     or_int (first_some [metric (cx_metrics cx) (\<lambda>m. Some (pm_loss_ppm m)), Some (ps_loss_ppm (hints cx))]) 0"

definition policy_weight :: "policy_class \<Rightarrow> path_context \<Rightarrow> int" where
  "policy_weight cls cx =
     (case cls of
        CapacityAwarePolicy \<Rightarrow> capacity_weight (policy_tx_capacity_bps cx) DEFAULT_CAPACITY_BPS
      | SingleBestPathPolicy \<Rightarrow> capacity_weight (policy_tx_capacity_bps cx) DEFAULT_CAPACITY_BPS
      | ArrivalGuardedCapacityPolicy \<Rightarrow> capacity_weight (policy_tx_capacity_bps cx) DEFAULT_CAPACITY_BPS
      | LatencyGuardedCapacityPolicy \<Rightarrow> capacity_weight (policy_tx_capacity_bps cx) DEFAULT_CAPACITY_BPS
      | OrderedMultipathCapacityAwarePolicy \<Rightarrow>
          max 1 (capacity_weight (policy_tx_capacity_bps cx) DEFAULT_CAPACITY_BPS
                 div ordered_pressure_credit_divisor (cx_metrics cx))
      | FlowletAdaptivePolicy \<Rightarrow>
          adaptive_weight (policy_tx_capacity_bps cx) (base_latency_us cx) (policy_loss_ppm cx)
            (metric_or_0 (cx_metrics cx) pm_queue_depth_packets) (metric_or_0 (cx_metrics cx) pm_queue_depth_bytes)
            (path_jitter_us (cx_metrics cx))
      | BalancedPolicy \<Rightarrow>
          adaptive_weight (policy_tx_capacity_bps cx) (base_latency_us cx) (policy_loss_ppm cx)
            (metric_or_0 (cx_metrics cx) pm_queue_depth_packets) (metric_or_0 (cx_metrics cx) pm_queue_depth_bytes)
            (path_jitter_us (cx_metrics cx))
      | AdaptivePolicy \<Rightarrow>
          adaptive_weight (policy_tx_capacity_bps cx) (base_latency_us cx) (policy_loss_ppm cx)
            (metric_or_0 (cx_metrics cx) pm_queue_depth_packets) (metric_or_0 (cx_metrics cx) pm_queue_depth_bytes)
            (path_jitter_us (cx_metrics cx))
      | _ \<Rightarrow> ps_weight (hints cx))"

definition ordered_hold_us :: "path_context \<Rightarrow> int" where
  "ordered_hold_us cx =
     (let measured = bounded_scheduler_latency_us (ordered_latency_us (cx_metrics cx))
      in ordered_reorder_hold_us (if measured = None \<or> measured = Some 0 then base_latency_us cx else measured)
           (ps_reorder_hold_us (hints cx)) (path_jitter_us (cx_metrics cx)))"

definition ordered_capacity_aware_hold_us :: "path_context \<Rightarrow> int" where
  "ordered_capacity_aware_hold_us cx =
     (let configured_hold_us = ps_reorder_hold_us (hints cx) in
      if configured_hold_us \<noteq> 0 then configured_hold_us
      else
        let base_hold_us = ordered_reorder_hold_us (Some (ordered_path_latency_us cx)) configured_hold_us
                             (path_jitter_us (cx_metrics cx))
        in if ps_mtu (hints cx) \<ge> ORDERED_CAPACITY_AWARE_LARGE_MTU_BYTES
           then max ORDERED_CAPACITY_AWARE_REORDER_HOLD_MIN_US base_hold_us
           else base_hold_us)"

definition policy_reorder_hold_us :: "policy_class \<Rightarrow> path_context \<Rightarrow> int" where
  "policy_reorder_hold_us cls cx =
     (case cls of
        OrderedMultipathPolicy \<Rightarrow> ordered_hold_us cx
      | OrderedMultipathCapacityAwarePolicy \<Rightarrow> ordered_capacity_aware_hold_us cx
      | _ \<Rightarrow> ps_reorder_hold_us (hints cx))"

definition ordered_max_in_flight_bytes :: "policy_class \<Rightarrow> path_context \<Rightarrow> int" where
  "ordered_max_in_flight_bytes cls cx =
     (if ps_max_in_flight_bytes (hints cx) \<noteq> 0 then ps_max_in_flight_bytes (hints cx)
      else
        let latency_us = or_int (policy_latency_us cls cx) (policy_reorder_hold_us cls cx)
        in case ordered_credit_capacity_bps (policy_tx_capacity_bps cx) (policy_rx_capacity_bps cx) of
             None \<Rightarrow> ORDERED_MIN_IN_FLIGHT_BYTES
           | Some capacity_bps \<Rightarrow>
               let bdp_bytes = capacity_bps * latency_us div 8000000;
                   credit = bdp_bytes * ORDERED_IN_FLIGHT_BDP_MULTIPLIER;
                   credit = credit div ordered_pressure_credit_divisor (cx_metrics cx);
                   credit = (if trusted_real_data_latency (cx_metrics cx)
                             then credit * REAL_DATA_LATENCY_ORDERED_CREDIT_MULTIPLIER else credit)
               in max ORDERED_MIN_IN_FLIGHT_BYTES (min ORDERED_MAX_IN_FLIGHT_BYTES credit))"

definition policy_max_in_flight_bytes :: "policy_class \<Rightarrow> path_context \<Rightarrow> int" where
  "policy_max_in_flight_bytes cls cx =
     (if is_ordered cls then ordered_max_in_flight_bytes cls cx else ps_max_in_flight_bytes (hints cx))"

definition ordered_max_in_flight_packets :: "policy_class \<Rightarrow> path_context \<Rightarrow> int" where
  "ordered_max_in_flight_packets cls cx =
     (if ps_max_in_flight_packets (hints cx) \<noteq> 0 then ps_max_in_flight_packets (hints cx)
      else
        let bytes_credit = ordered_max_in_flight_bytes cls cx;
            mtu = max 1 (ps_mtu (hints cx));
            packets = max ORDERED_MIN_IN_FLIGHT_PACKETS (bytes_credit div mtu)
        in min ORDERED_MAX_IN_FLIGHT_PACKETS packets)"

definition policy_max_in_flight_packets :: "policy_class \<Rightarrow> path_context \<Rightarrow> int" where
  "policy_max_in_flight_packets cls cx =
     (if is_ordered cls then ordered_max_in_flight_packets cls cx else ps_max_in_flight_packets (hints cx))"

definition policy_pacing_budget_bps :: "path_context \<Rightarrow> int" where
  "policy_pacing_budget_bps cx = ps_pacing_budget_bps (hints cx)"

definition compile_path :: "policy_class \<Rightarrow> path_context \<Rightarrow> runtime_path res" where
  "compile_path cls cx =
     validate_runtime_path
       \<lparr> rp_path_id = cx_index cx,
         rp_enabled = (ps_enabled (hints cx) \<and> context_state cx \<noteq> Disabled),
         rp_state = context_state cx,
         rp_weight = policy_weight cls cx,
         rp_mtu = ps_mtu (hints cx),
         rp_tx_capacity_bps = policy_tx_capacity_bps cx,
         rp_rx_capacity_bps = policy_rx_capacity_bps cx,
         rp_latency_us = policy_latency_us cls cx,
         rp_loss_ppm = policy_loss_ppm cx,
         rp_reorder_hold_us = policy_reorder_hold_us cls cx,
         rp_max_in_flight_packets = policy_max_in_flight_packets cls cx,
         rp_max_in_flight_bytes = policy_max_in_flight_bytes cls cx,
         rp_pacing_budget_bps = policy_pacing_budget_bps cx,
         rp_queue_depth_packets = metric_or_0 (cx_metrics cx) pm_queue_depth_packets,
         rp_queue_depth_bytes = metric_or_0 (cx_metrics cx) pm_queue_depth_bytes,
         rp_queue_oldest_age_us = metric_or_0 (cx_metrics cx) pm_queue_oldest_age_us \<rparr>"

definition compile_path_policy ::
  "path_config \<Rightarrow> int \<Rightarrow> scheduler_policy \<Rightarrow> snapshot option \<Rightarrow> runtime_path res" where
  "compile_path_policy path index mode telemetry =
     (let metrics = (case telemetry of None \<Rightarrow> None | Some paths \<Rightarrow> dict_get paths (pc_name path))
      in rbind (policy_for_mode mode)
           (\<lambda>cls. compile_path cls \<lparr> cx_path = path, cx_index = index, cx_metrics = metrics \<rparr>))"

section \<open>Bounds\<close>

lemma first_some_opt_ge: "list_all (opt_ge lo) vs \<Longrightarrow> opt_ge lo (first_some vs)"
  by (induction vs rule: first_some.induct) (auto simp: opt_ge_def)

lemma bounded_latency_range:
  "bounded_scheduler_latency_us v = Some l \<Longrightarrow> 0 \<le> l \<and> l \<le> 10000000"
  by (auto simp: bounded_scheduler_latency_us_def const_simps split: option.splits if_splits)

lemma ordered_divisor_range:
  "1 \<le> ordered_pressure_credit_divisor metrics" "ordered_pressure_credit_divisor metrics \<le> 16"
  by (simp_all add: ordered_pressure_credit_divisor_def const_simps split: option.split)

lemma ordered_reorder_hold_range:
  "2000 \<le> ordered_reorder_hold_us l 0 j" "ordered_reorder_hold_us l 0 j \<le> 150000"
  by (simp_all add: ordered_reorder_hold_us_def Let_def ORDERED_REORDER_HOLD_MIN_US_def ORDERED_REORDER_HOLD_MAX_US_def)

lemma ordered_reorder_hold_nonneg: "0 \<le> h \<Longrightarrow> 0 \<le> ordered_reorder_hold_us l h j"
  using ordered_reorder_hold_range(1) [of l j] by (cases "h = 0") (simp_all add: ordered_reorder_hold_us_def)

lemma ordered_path_latency_range:
  assumes "ps_reorder_hold_us (hints cx) = 0"
  shows "1 \<le> ordered_path_latency_us cx" "ordered_path_latency_us cx \<le> 10000000"
proof -
  define latency where "latency =
    (let measured = bounded_scheduler_latency_us (ordered_latency_us (cx_metrics cx));
         configured = (if measured = None then bounded_scheduler_latency_us (ps_latency_us (hints cx)) else measured)
     in if configured = None \<and> ordered_latency_may_use_generic (cx_metrics cx) then base_latency_us cx else configured)"
  have e: "ordered_path_latency_us cx
      = or_int latency (ordered_reorder_hold_us latency 0 (path_jitter_us (cx_metrics cx)))"
    by (simp add: ordered_path_latency_us_def latency_def assms Let_def)
  have "0 \<le> l \<and> l \<le> 10000000" if "latency = Some l" for l
    using that bounded_latency_range
    by (auto simp: latency_def Let_def base_latency_us_def split: if_splits)
  then show "1 \<le> ordered_path_latency_us cx" "ordered_path_latency_us cx \<le> 10000000"
    using ordered_reorder_hold_range [of latency "path_jitter_us (cx_metrics cx)"]
    by (force simp: e or_int_def split: option.split)+
qed

lemma ordered_holds_range:
  assumes "ps_reorder_hold_us (hints cx) = 0"
  shows "2000 \<le> ordered_hold_us cx" "ordered_hold_us cx \<le> 150000"
    "2000 \<le> ordered_capacity_aware_hold_us cx" "ordered_capacity_aware_hold_us cx \<le> 150000"
  using ordered_reorder_hold_range
  by (simp_all add: ordered_hold_us_def ordered_capacity_aware_hold_us_def assms Let_def
      ORDERED_CAPACITY_AWARE_REORDER_HOLD_MIN_US_def max.coboundedI2)

lemma ordered_bytes_range:
  assumes "ps_max_in_flight_bytes (hints cx) = 0"
  shows "16384 \<le> ordered_max_in_flight_bytes cls cx" "ordered_max_in_flight_bytes cls cx \<le> 16777216"
  unfolding ordered_max_in_flight_bytes_def Let_def
  by (simp_all add: assms ORDERED_MIN_IN_FLIGHT_BYTES_def ORDERED_MAX_IN_FLIGHT_BYTES_def split: option.split)

lemma ordered_packets_range:
  assumes "ps_max_in_flight_packets (hints cx) = 0"
  shows "4 \<le> ordered_max_in_flight_packets cls cx" "ordered_max_in_flight_packets cls cx \<le> 8192"
  unfolding ordered_max_in_flight_packets_def Let_def
  by (simp_all add: assms ORDERED_MIN_IN_FLIGHT_PACKETS_def ORDERED_MAX_IN_FLIGHT_PACKETS_def)

lemma policy_weight_range:
  assumes "path_scheduler_fields_ok (hints cx)"
  shows "1 \<le> policy_weight cls cx" "policy_weight cls cx \<le> 65535"
proof -
  have "w div d \<le> 65535" if "1 \<le> d" "1 \<le> w" "w \<le> 65535" for w d :: int
    using that div_by_1 [of w] zdiv_mono2 [of w 1 d] by simp
  then have "capacity_weight c b div ordered_pressure_credit_divisor m \<le> 65535" for c b m
    using ordered_divisor_range(1) by simp
  then show "1 \<le> policy_weight cls cx" "policy_weight cls cx \<le> 65535"
    using assms by (simp_all add: policy_weight_def path_scheduler_fields_ok_def split: policy_class.split)
qed

section \<open>Compiling one path\<close>

definition context_ok :: "path_context \<Rightarrow> bool" where
  "context_ok cx \<longleftrightarrow> path_scheduler_fields_ok (hints cx) \<and>
     (case cx_metrics cx of None \<Rightarrow> True | Some m \<Rightarrow> metrics_fields_ok m)"

lemma metrics_ok_counters:
  assumes "context_ok cx"
  shows "0 \<le> metric_or_0 (cx_metrics cx) pm_queue_depth_packets"
    "0 \<le> metric_or_0 (cx_metrics cx) pm_queue_depth_bytes"
    "0 \<le> metric_or_0 (cx_metrics cx) pm_queue_oldest_age_us"
    "0 \<le> policy_loss_ppm cx" "policy_loss_ppm cx \<le> 1000000"
proof -
  have m: "0 \<le> pm_queue_depth_packets m" "0 \<le> pm_queue_depth_bytes m" "0 \<le> pm_queue_oldest_age_us m"
    "0 \<le> pm_loss_ppm m" "pm_loss_ppm m \<le> 1000000" if "metrics_fields_ok m" for m
    using that by (simp_all add: metrics_fields_ok_def metrics_counters_def)
  have h: "0 \<le> ps_loss_ppm (hints cx)" "ps_loss_ppm (hints cx) \<le> 1000000"
    using assms by (simp_all add: context_ok_def path_scheduler_fields_ok_def)
  show "0 \<le> metric_or_0 (cx_metrics cx) pm_queue_depth_packets"
    "0 \<le> metric_or_0 (cx_metrics cx) pm_queue_depth_bytes"
    "0 \<le> metric_or_0 (cx_metrics cx) pm_queue_oldest_age_us"
    "0 \<le> policy_loss_ppm cx" "policy_loss_ppm cx \<le> 1000000"
    using assms m h
    by (cases "cx_metrics cx"; simp add: context_ok_def metric_or_0_def policy_loss_ppm_def metric_def or_int_def)+
qed

lemma policy_limits_nonneg:
  assumes "context_ok cx"
  shows "0 \<le> policy_reorder_hold_us cls cx"
    "0 \<le> policy_max_in_flight_packets cls cx" "policy_max_in_flight_packets cls cx \<le> 65535"
    "0 \<le> policy_max_in_flight_bytes cls cx" "0 \<le> policy_pacing_budget_bps cx"
proof -
  have ok: "0 \<le> ps_reorder_hold_us (hints cx)" "0 \<le> ps_max_in_flight_packets (hints cx)"
    "ps_max_in_flight_packets (hints cx) \<le> 65535" "0 \<le> ps_max_in_flight_bytes (hints cx)"
    "0 \<le> ps_pacing_budget_bps (hints cx)"
    using assms by (simp_all add: context_ok_def path_scheduler_fields_ok_def)
  have "0 \<le> ordered_hold_us cx" "0 \<le> ordered_capacity_aware_hold_us cx"
    using ok(1) by (simp_all add: ordered_hold_us_def ordered_capacity_aware_hold_us_def Let_def
        ordered_reorder_hold_nonneg max.coboundedI2)
  then show "0 \<le> policy_reorder_hold_us cls cx"
    using ok by (simp add: policy_reorder_hold_us_def split: policy_class.split)
  have "ps_max_in_flight_packets (hints cx) \<noteq> 0 \<Longrightarrow>
      ordered_max_in_flight_packets cls cx = ps_max_in_flight_packets (hints cx)"
    unfolding ordered_max_in_flight_packets_def by (rule if_P)
  then have "0 \<le> ordered_max_in_flight_packets cls cx" "ordered_max_in_flight_packets cls cx \<le> 65535"
    using ok ordered_packets_range [of cx cls] by (cases "ps_max_in_flight_packets (hints cx) = 0"; simp)+
  then show "0 \<le> policy_max_in_flight_packets cls cx" "policy_max_in_flight_packets cls cx \<le> 65535"
    using ok by (simp_all add: policy_max_in_flight_packets_def)
  have "ps_max_in_flight_bytes (hints cx) \<noteq> 0 \<Longrightarrow>
      ordered_max_in_flight_bytes cls cx = ps_max_in_flight_bytes (hints cx)"
    unfolding ordered_max_in_flight_bytes_def by (rule if_P)
  then have "0 \<le> ordered_max_in_flight_bytes cls cx"
    using ok ordered_bytes_range [of cx cls] by (cases "ps_max_in_flight_bytes (hints cx) = 0"; simp)
  then show "0 \<le> policy_max_in_flight_bytes cls cx"
    using ok by (simp add: policy_max_in_flight_bytes_def)
  show "0 \<le> policy_pacing_budget_bps cx" using ok by (simp add: policy_pacing_budget_bps_def)
qed

lemma compile_path_total:
  assumes "context_ok cx"
  obtains r where "compile_path cls cx = Inr r" "runtime_path_fields_ok r"
    "rp_path_id r = cx_index cx" "1 \<le> rp_weight r" "rp_weight r \<le> 65535"
    "rp_state r = context_state cx" "rp_enabled r = (context_state cx \<noteq> Disabled)"
    "rp_mtu r = ps_mtu (hints cx)"
proof -
  have "path_scheduler_fields_ok (hints cx)" using assms by (simp add: context_ok_def)
  note w = policy_weight_range [OF this, of cls]
  have e: "(ps_enabled (hints cx) \<and> context_state cx \<noteq> Disabled) = (context_state cx \<noteq> Disabled)"
    by (simp add: context_state_def)
  show ?thesis
    using that w e metrics_ok_counters [OF assms] policy_limits_nonneg(1-4) [OF assms, of cls] policy_limits_nonneg(5) [OF assms]
    by (simp add: compile_path_def validate_runtime_path_def runtime_path_fields_ok_def)
qed

section \<open>Property\<close>

text \<open>
  Ordered multipath compiles bounded primitives: when the operator sets no explicit hold or
  credit, the reorder hold lies in 2..150 ms, the byte credit in 16 KiB..16 MiB, the packet credit
  in 4..8192, the latency handed to Rust is positive and at most 10 s, and receiver pressure divides
  the credit by at most 16, whatever the telemetry says.
\<close>
lemma ordered_primitives_bounded:
  assumes "is_ordered cls" and "compile_path cls cx = Inr r"
    and "ps_reorder_hold_us (hints cx) = 0" and "ps_max_in_flight_packets (hints cx) = 0"
    and "ps_max_in_flight_bytes (hints cx) = 0"
  shows "2000 \<le> rp_reorder_hold_us r \<and> rp_reorder_hold_us r \<le> 150000
    \<and> 16384 \<le> rp_max_in_flight_bytes r \<and> rp_max_in_flight_bytes r \<le> 16777216
    \<and> 4 \<le> rp_max_in_flight_packets r \<and> rp_max_in_flight_packets r \<le> 8192
    \<and> (\<exists>l. rp_latency_us r = Some l \<and> 1 \<le> l \<and> l \<le> 10000000)
    \<and> 1 \<le> ordered_pressure_credit_divisor (cx_metrics cx) \<and> ordered_pressure_credit_divisor (cx_metrics cx) \<le> 16"
proof -
  have r: "rp_reorder_hold_us r = policy_reorder_hold_us cls cx"
    "rp_max_in_flight_bytes r = ordered_max_in_flight_bytes cls cx"
    "rp_max_in_flight_packets r = ordered_max_in_flight_packets cls cx"
    "rp_latency_us r = Some (ordered_path_latency_us cx)"
    using assms(1,2) by (auto simp: compile_path_def validate_runtime_path_def policy_max_in_flight_bytes_def
        policy_max_in_flight_packets_def policy_latency_us_def split: if_splits)
  have "2000 \<le> policy_reorder_hold_us cls cx" "policy_reorder_hold_us cls cx \<le> 150000"
    using assms(1) ordered_holds_range [OF assms(3)] by (auto simp: is_ordered_def policy_reorder_hold_us_def)
  then show ?thesis
    using r ordered_bytes_range [OF assms(5), of cls] ordered_packets_range [OF assms(4), of cls]
      ordered_path_latency_range [OF assms(3)] ordered_divisor_range [of "cx_metrics cx"] by simp
qed

definition sample_hints :: path_scheduler_config where
  "sample_hints =
     \<lparr> ps_enabled = True, ps_state = Active, ps_weight = 1, ps_mtu = 1200, ps_tx_capacity_bps = Some 50000000,
       ps_rx_capacity_bps = None, ps_latency_us = Some 30000, ps_loss_ppm = 0, ps_reorder_hold_us = 0,
       ps_max_in_flight_packets = 0, ps_max_in_flight_bytes = 0, ps_pacing_budget_bps = 0 \<rparr>"

definition sample_path :: "ustr \<Rightarrow> path_scheduler_config \<Rightarrow> path_config" where
  "sample_path name sched =
     \<lparr> pc_name = name, pc_interface = name, pc_source_ip = None, pc_gateway = None, pc_carrier = Udp,
       pc_transport_bind = None, pc_transport_remote = None, pc_carrier_max_datagram_size = None,
       pc_scheduler = sched, pc_relay = None \<rparr>"

definition sample_context :: path_context where
  "sample_context = \<lparr> cx_path = sample_path [108] sample_hints, cx_index = 0, cx_metrics = None \<rparr>"

lemma ordered_primitives_bounded_witness:
  "\<exists>r. compile_path OrderedMultipathPolicy sample_context = Inr r \<and> is_ordered OrderedMultipathPolicy \<and>
       2000 \<le> rp_reorder_hold_us r \<and> rp_max_in_flight_packets r \<le> 8192"
proof -
  have ok: "context_ok sample_context"
    by (simp add: context_ok_def sample_context_def sample_path_def sample_hints_def path_scheduler_fields_ok_def
        opt_ge_def)
  obtain r where r: "compile_path OrderedMultipathPolicy sample_context = Inr r"
    using compile_path_total [OF ok] by blast
  moreover have "is_ordered OrderedMultipathPolicy" by (simp add: is_ordered_def)
  ultimately show ?thesis
    using ordered_primitives_bounded [of OrderedMultipathPolicy sample_context r]
    by (simp add: sample_context_def sample_path_def sample_hints_def)
qed

end
