(* ===== verification/Sched_Congestion.thy ===== *)
theory Sched_Congestion
  imports Sched_Metrics
begin

text \<open>
  Congestion fairness of \<^verbatim>\<open>scheduling/congestion.py\<close>: the pressure level of a path, the pacing budget
  compiled from it, and the controller that stabilises decisions across windows. \<open>stabilize\<close> returns
  the updated controller with the stable decision; \<open>stabilize_all\<close> feeds one path a sequence of
  windows.
\<close>

section \<open>Definitions\<close>

definition CONGESTION_MODERATE_LOSS_PPM :: int where
  [const_simps]: "CONGESTION_MODERATE_LOSS_PPM = 20000"

definition CONGESTION_HIGH_LOSS_PPM :: int where
  [const_simps]: "CONGESTION_HIGH_LOSS_PPM = 80000"

definition CONGESTION_MODERATE_QUEUE_AGE_US :: int where
  [const_simps]: "CONGESTION_MODERATE_QUEUE_AGE_US = 25000"

definition CONGESTION_HIGH_QUEUE_AGE_US :: int where
  [const_simps]: "CONGESTION_HIGH_QUEUE_AGE_US = 100000"

definition CONGESTION_MODERATE_QUEUE_PACKETS :: int where
  [const_simps]: "CONGESTION_MODERATE_QUEUE_PACKETS = 256"

definition CONGESTION_HIGH_QUEUE_PACKETS :: int where
  [const_simps]: "CONGESTION_HIGH_QUEUE_PACKETS = 1024"

definition CONGESTION_MODERATE_SEND_FAILURES :: int where
  [const_simps]: "CONGESTION_MODERATE_SEND_FAILURES = 8"

definition CONGESTION_HIGH_SEND_FAILURES :: int where
  [const_simps]: "CONGESTION_HIGH_SEND_FAILURES = 64"

fun congestion_factors :: "congestion_policy \<Rightarrow> int list" where
  "congestion_factors Congestion_off = [100, 100, 100]"
| "congestion_factors Conservative = [90, 75, 55]"
| "congestion_factors Congestion_adaptive = [100, 85, 65]"
| "congestion_factors Volatile = [85, 70, 50]"

record congestion_decision =
  cd_pressure_level :: int
  cd_pacing_budget_bps :: int
  cd_reason :: string

record congestion_state =
  cs_pressure_level :: int
  cs_pacing_budget_bps :: int
  cs_reason :: string
  cs_pressure_windows :: int
  cs_recovery_windows :: int

definition new_congestion_state :: congestion_state where
  "new_congestion_state =
     \<lparr> cs_pressure_level = 0, cs_pacing_budget_bps = 0, cs_reason = ''clean'', cs_pressure_windows = 0,
       cs_recovery_windows = 0 \<rparr>"

record congestion_controller =
  cc_pressure_windows_required :: int
  cc_recovery_windows_required :: int
  cc_paths :: "(ustr, congestion_state) dict"

definition remember :: "congestion_state \<Rightarrow> congestion_decision \<Rightarrow> congestion_state" where
  "remember state decision =
     state\<lparr> cs_pressure_level := cd_pressure_level decision,
            cs_pacing_budget_bps := cd_pacing_budget_bps decision,
            cs_reason := cd_reason decision \<rparr>"

definition held :: "congestion_state \<Rightarrow> string \<Rightarrow> congestion_decision" where
  "held state reason =
     \<lparr> cd_pressure_level = cs_pressure_level state, cd_pacing_budget_bps = cs_pacing_budget_bps state,
       cd_reason = reason \<rparr>"

definition stabilize_state ::
  "int \<Rightarrow> int \<Rightarrow> congestion_state \<Rightarrow> congestion_decision \<Rightarrow> congestion_state \<times> congestion_decision" where
  "stabilize_state pressure_windows_required recovery_windows_required state decision =
     (if cd_pressure_level decision > cs_pressure_level state then
        let state = state\<lparr> cs_recovery_windows := 0, cs_pressure_windows := cs_pressure_windows state + 1 \<rparr>
        in if cs_pressure_windows state \<ge> max 1 pressure_windows_required
           then (remember state decision, decision)
           else (state, held state ''awaiting_pressure_confirmation'')
      else if cd_pressure_level decision = cs_pressure_level state then
        let state = state\<lparr> cs_pressure_windows := max (cs_pressure_windows state) pressure_windows_required \<rparr>;
            state = state\<lparr> cs_recovery_windows :=
                            (if cd_pressure_level decision > 0 then 0 else cs_recovery_windows state + 1) \<rparr>
        in (remember state decision, decision)
      else
        let state = state\<lparr> cs_pressure_windows := 0, cs_recovery_windows := cs_recovery_windows state + 1 \<rparr>
        in if cs_recovery_windows state < max 1 recovery_windows_required
           then (state, held state ''held_for_recovery_hysteresis'')
           else (remember state decision, decision))"

definition stabilize ::
  "congestion_controller \<Rightarrow> ustr \<Rightarrow> congestion_decision \<Rightarrow> congestion_controller \<times> congestion_decision" where
  "stabilize c path_name decision =
     (let state = (case dict_get (cc_paths c) path_name of None \<Rightarrow> new_congestion_state | Some st \<Rightarrow> st);
          (state', stable) = stabilize_state (cc_pressure_windows_required c) (cc_recovery_windows_required c) state decision
      in (c\<lparr> cc_paths := dict_set path_name state' (cc_paths c) \<rparr>, stable))"

definition congestion_pressure_level :: "path_metrics \<Rightarrow> int" where
  "congestion_pressure_level m =
     (if pm_loss_ppm m \<ge> CONGESTION_HIGH_LOSS_PPM \<or> pm_queue_oldest_age_us m \<ge> CONGESTION_HIGH_QUEUE_AGE_US \<or>
         pm_queue_depth_packets m \<ge> CONGESTION_HIGH_QUEUE_PACKETS \<or>
         pm_send_failures m \<ge> CONGESTION_HIGH_SEND_FAILURES \<or> pm_local_drops m > 0
      then 2
      else if pm_loss_ppm m \<ge> CONGESTION_MODERATE_LOSS_PPM \<or>
         pm_queue_oldest_age_us m \<ge> CONGESTION_MODERATE_QUEUE_AGE_US \<or>
         pm_queue_depth_packets m \<ge> CONGESTION_MODERATE_QUEUE_PACKETS \<or>
         pm_send_failures m \<ge> CONGESTION_MODERATE_SEND_FAILURES
      then 1 else 0)"

definition compile_congestion_fairness ::
  "path_metrics \<Rightarrow> congestion_policy \<Rightarrow> int option \<Rightarrow> congestion_decision" where
  "compile_congestion_fairness m policy capacity_bps =
     (case capacity_bps of
        None \<Rightarrow> \<lparr> cd_pressure_level = 0, cd_pacing_budget_bps = 0, cd_reason = ''disabled'' \<rparr>
      | Some capacity \<Rightarrow>
          if policy = Congestion_off \<or> capacity \<le> 0
          then \<lparr> cd_pressure_level = 0, cd_pacing_budget_bps = 0, cd_reason = ''disabled'' \<rparr>
          else
            let pressure_level = congestion_pressure_level m in
            if pressure_level \<le> 0
            then \<lparr> cd_pressure_level = 0, cd_pacing_budget_bps = 0, cd_reason = ''clean'' \<rparr>
            else
              let factor_percent = congestion_factors policy ! nat pressure_level in
              \<lparr> cd_pressure_level = pressure_level,
                cd_pacing_budget_bps = max 1 (capacity * factor_percent div 100),
                cd_reason = (if pressure_level = 2 then ''high_pressure'' else ''moderate_pressure'') \<rparr>)"

section \<open>Lemmas\<close>

fun stabilize_all ::
  "congestion_controller \<Rightarrow> ustr \<Rightarrow> congestion_decision list \<Rightarrow> congestion_controller \<times> congestion_decision list" where
  "stabilize_all c n [] = (c, [])"
| "stabilize_all c n (d # ds) =
     (let (c', o1) = stabilize c n d; (c'', os) = stabilize_all c' n ds in (c'', o1 # os))"

definition default_controller :: congestion_controller where
  "default_controller = \<lparr> cc_pressure_windows_required = 1, cc_recovery_windows_required = 3, cc_paths = [] \<rparr>"

definition state_of :: "congestion_controller \<Rightarrow> ustr \<Rightarrow> congestion_state" where
  "state_of c n = (case dict_get (cc_paths c) n of None \<Rightarrow> new_congestion_state | Some st \<Rightarrow> st)"

lemma stabilize_eq:
  "stabilize c n d =
     (c\<lparr> cc_paths := dict_set n (fst (stabilize_state (cc_pressure_windows_required c)
           (cc_recovery_windows_required c) (state_of c n) d)) (cc_paths c) \<rparr>,
      snd (stabilize_state (cc_pressure_windows_required c) (cc_recovery_windows_required c) (state_of c n) d))"
  by (simp add: stabilize_def state_of_def Let_def case_prod_beta)

lemma state_of_set [simp]:
  "state_of (c\<lparr> cc_paths := dict_set n st (cc_paths c) \<rparr>) n' = (if n' = n then st else state_of c n')"
  by (simp add: state_of_def)

lemma stabilize_params [simp]:
  "cc_pressure_windows_required (fst (stabilize c n d)) = cc_pressure_windows_required c"
  "cc_recovery_windows_required (fst (stabilize c n d)) = cc_recovery_windows_required c"
  "n' \<noteq> n \<Longrightarrow> state_of (fst (stabilize c n d)) n' = state_of c n'"
  by (simp_all add: stabilize_eq)

lemma congestion_level_range: "congestion_pressure_level m \<in> {0, 1, 2}"
  by (simp add: congestion_pressure_level_def)

lemma congestion_factor_range:
  "l \<in> {0, 1, 2} \<Longrightarrow> 50 \<le> congestion_factors policy ! nat l \<and> congestion_factors policy ! nat l \<le> 100"
  by (cases policy) (auto simp: numeral_2_eq_2)

lemma hold_step:
  assumes "cd_pressure_level d < cs_pressure_level (state_of c n)"
    and "cs_recovery_windows (state_of c n) + 1 < max 1 (cc_recovery_windows_required c)"
  shows "stabilize c n d =
    (c\<lparr> cc_paths := dict_set n ((state_of c n)\<lparr> cs_pressure_windows := 0,
          cs_recovery_windows := cs_recovery_windows (state_of c n) + 1 \<rparr>) (cc_paths c) \<rparr>,
     held (state_of c n) ''held_for_recovery_hysteresis'')"
  using assms by (simp add: stabilize_eq stabilize_state_def Let_def held_def)

lemma hold_all:
  assumes "\<forall>d\<in>set ds. cd_pressure_level d < cs_pressure_level (state_of c n)"
    and "cs_recovery_windows (state_of c n) + int (length ds) < max 1 (cc_recovery_windows_required c)"
    and "stabilize_all c n ds = (c', os)"
  shows "os = replicate (length ds) (held (state_of c n) ''held_for_recovery_hysteresis'')"
  using assms
proof (induction ds arbitrary: c os)
  case (Cons d ds)
  obtain c1 o1 where s: "stabilize c n d = (c1, o1)" by fastforce
  obtain os1 where r: "stabilize_all c1 n ds = (c', os1)" "os = o1 # os1"
    using Cons.prems(3) s by (auto simp: Let_def split: prod.splits)
  have h: "cs_recovery_windows (state_of c n) + 1 < max 1 (cc_recovery_windows_required c)"
    using Cons.prems(2) by simp
  then have c1: "c1 = c\<lparr> cc_paths := dict_set n ((state_of c n)\<lparr> cs_pressure_windows := 0,
      cs_recovery_windows := cs_recovery_windows (state_of c n) + 1 \<rparr>) (cc_paths c) \<rparr>"
    and o1: "o1 = held (state_of c n) ''held_for_recovery_hysteresis''"
    using hold_step [of d c n] s Cons.prems(1) by simp_all
  have "os1 = replicate (length ds) (held (state_of c1 n) ''held_for_recovery_hysteresis'')"
    using Cons.prems(1,2) by (intro Cons.IH [OF _ _ r(1)]) (simp_all add: c1)
  moreover have "held (state_of c1 n) r = held (state_of c n) r" for r by (simp add: c1 held_def)
  ultimately show ?case by (simp add: r(2) o1)
qed simp

section \<open>Properties\<close>

text \<open>
  C31. The compiled pacing budget: with a known positive capacity and an active policy, a clean path
  is not paced (budget 0), and a pressured one is paced at a positive rate that never exceeds its
  capacity nor falls below half of it (up to rounding); without capacity or policy nothing is paced.
\<close>
theorem congestion_budget_bounds:
  assumes "0 < capacity" and "policy \<noteq> Congestion_off"
  shows "(congestion_pressure_level m = 0 \<longrightarrow>
            cd_pacing_budget_bps (compile_congestion_fairness m policy (Some capacity)) = 0)
       \<and> (congestion_pressure_level m \<noteq> 0 \<longrightarrow>
            0 < cd_pacing_budget_bps (compile_congestion_fairness m policy (Some capacity))
            \<and> capacity div 2 \<le> cd_pacing_budget_bps (compile_congestion_fairness m policy (Some capacity))
            \<and> cd_pacing_budget_bps (compile_congestion_fairness m policy (Some capacity)) \<le> capacity)
       \<and> cd_pressure_level (compile_congestion_fairness m policy (Some capacity)) = congestion_pressure_level m
       \<and> cd_pacing_budget_bps (compile_congestion_fairness m policy None) = 0"
proof -
  define level where "level = congestion_pressure_level m"
  define factor where "factor = congestion_factors policy ! nat level"
  have l: "level \<in> {0, 1, 2}" unfolding level_def by (rule congestion_level_range)
  have "50 \<le> factor" "factor \<le> 100" using congestion_factor_range [OF l] by (simp_all add: factor_def)
  then have "capacity * 50 \<le> capacity * factor" "capacity * factor \<le> capacity * 100" using assms(1) by simp_all
  then have "capacity * 50 div 100 \<le> capacity * factor div 100" "capacity * factor div 100 \<le> capacity * 100 div 100"
    by (intro zdiv_mono1; simp)+
  then have b: "capacity div 2 \<le> max 1 (capacity * factor div 100)" "max 1 (capacity * factor div 100) \<le> capacity"
    using assms(1) by (simp_all add: max_def)
  have e: "compile_congestion_fairness m policy (Some capacity) =
    (if level \<le> 0 then \<lparr> cd_pressure_level = 0, cd_pacing_budget_bps = 0, cd_reason = ''clean'' \<rparr>
     else \<lparr> cd_pressure_level = level, cd_pacing_budget_bps = max 1 (capacity * factor div 100),
            cd_reason = (if level = 2 then ''high_pressure'' else ''moderate_pressure'') \<rparr>)"
    using assms by (simp add: compile_congestion_fairness_def Let_def level_def factor_def)
  have "cd_pacing_budget_bps (compile_congestion_fairness m policy None) = 0"
    by (simp add: compile_congestion_fairness_def)
  then show ?thesis
    using l b unfolding e level_def [symmetric] by auto
qed

definition lossy_metrics :: path_metrics where
  "lossy_metrics = metrics_record (\<lambda>_. []) [] 0 [] [] [] [] []\<lparr> pm_loss_ppm := 30000 \<rparr>"

theorem congestion_budget_bounds_witness:
  "(0 :: int) < 10000000 \<and> Conservative \<noteq> Congestion_off \<and>
   cd_pressure_level (compile_congestion_fairness lossy_metrics Conservative (Some 10000000))
     = congestion_pressure_level lossy_metrics"
  using congestion_budget_bounds [of 10000000 Conservative lossy_metrics] by simp


definition decision_at :: "int \<Rightarrow> int \<Rightarrow> congestion_decision" where
  "decision_at level pacing = \<lparr> cd_pressure_level = level, cd_pacing_budget_bps = pacing, cd_reason = ''test'' \<rparr>"

definition limited_controller :: congestion_controller where
  "limited_controller = fst (stabilize default_controller [108] (decision_at 2 500))"



end
