(* ===== verification/Service_Intent.thy ===== *)
theory Service_Intent
  imports Sched_Metrics
begin

text \<open>
  Service intent (\<^verbatim>\<open>scheduling/service_intent.py\<close>) and service poll plans
  (\<^verbatim>\<open>scheduling/service_priority.py\<close>). The structural type \<^verbatim>\<open>ServiceIntentLike\<close>, which both the
  configured and the runtime service satisfy, is the record \<open>service_intent\<close> with one projection for
  each of the two.
\<close>

section \<open>Runtime services\<close>

record runtime_service =
  rs_service_id :: int
  rs_service_id_explicit :: bool
  rs_name :: ustr
  rs_target :: ustr
  rs_listen :: "ustr option"
  rs_priority :: service_priority
  rs_priority_value :: int
  rs_traffic_class :: traffic_class
  rs_return_mode :: return_mode
  rs_scheduler_fanout :: int
  rs_scheduler_fanout_below_bytes :: int
  rs_scheduler_flowlet_idle_us :: int
  rs_scheduler_flowlet_max_hold_us :: int
  rs_scheduler_poll_batch_packets :: int
  rs_scheduler_path_run_datagrams :: int
  rs_scheduler_path_policy :: service_path_policy
  rs_scheduler_allowed_path_ids :: "int list"
  rs_scheduler_path_weights :: "(int \<times> int) list"

section \<open>Traffic classes\<close>

record service_intent =
  si_name :: ustr
  si_priority :: service_priority
  si_traffic_class :: traffic_class

definition intent_of_config :: "service_config \<Rightarrow> service_intent" where
  "intent_of_config s =
     \<lparr> si_name = sc_name s, si_priority = sc_priority s, si_traffic_class = sc_traffic_class s \<rparr>"

definition intent_of_runtime :: "runtime_service \<Rightarrow> service_intent" where
  "intent_of_runtime s =
     \<lparr> si_name = rs_name s, si_priority = rs_priority s, si_traffic_class = rs_traffic_class s \<rparr>"

definition service_is_protected :: "service_intent \<Rightarrow> bool" where
  "service_is_protected s \<longleftrightarrow>
     si_priority s \<in> {Prio_high, Prio_critical} \<or>
     si_traffic_class s \<in> {Tcp_ordered, Latency_sensitive, Class_control}"

definition service_is_bulk :: "service_intent \<Rightarrow> bool" where
  "service_is_bulk s \<longleftrightarrow> si_priority s = Prio_bulk \<or> si_traffic_class s \<in> {Udp_bulk}"

record traffic_summary =
  ts_protected_services :: "ustr list"
  ts_bulk_services :: "ustr list"
  ts_unknown_services :: "ustr list"
  ts_protected_tx_bytes :: int
  ts_bulk_tx_bytes :: int
  ts_unknown_tx_bytes :: int
  ts_protected_degraded :: "ustr list"

definition empty_summary :: traffic_summary where
  "empty_summary =
     \<lparr> ts_protected_services = [], ts_bulk_services = [], ts_unknown_services = [], ts_protected_tx_bytes = 0,
       ts_bulk_tx_bytes = 0, ts_unknown_tx_bytes = 0, ts_protected_degraded = [] \<rparr>"

definition has_protected :: "traffic_summary \<Rightarrow> bool" where
  "has_protected t \<longleftrightarrow> ts_protected_services t \<noteq> []"

definition has_bulk :: "traffic_summary \<Rightarrow> bool" where
  "has_bulk t \<longleftrightarrow> ts_bulk_services t \<noteq> []"

definition has_mixed_known_classes :: "traffic_summary \<Rightarrow> bool" where
  "has_mixed_known_classes t \<longleftrightarrow> has_protected t \<and> has_bulk t"

definition is_tcp_like_only :: "traffic_summary \<Rightarrow> bool" where
  "is_tcp_like_only t \<longleftrightarrow> has_protected t \<and> \<not> has_bulk t"

definition is_udp_bulk_only :: "traffic_summary \<Rightarrow> bool" where
  "is_udp_bulk_only t \<longleftrightarrow> has_bulk t \<and> \<not> has_protected t"

definition signals :: "traffic_summary \<Rightarrow> string list" where
  "signals t =
     (if is_tcp_like_only t then [''service_tcp_ordered''] else [])
     @ (if is_udp_bulk_only t then [''service_udp_bulk''] else [])
     @ (if has_mixed_known_classes t then [''service_mixed_classes''] else [])
     @ (if ts_protected_degraded t \<noteq> [] then [''service_protected_degraded''] else [])
     @ (if ts_protected_tx_bytes t > 0 then [''service_protected_active''] else [])
     @ (if ts_bulk_tx_bytes t > 0 then [''service_bulk_active''] else [])"

fun meta_truthy :: "meta \<Rightarrow> bool" where
  "meta_truthy MNone = False"
| "meta_truthy (MBool b) = b"
| "meta_truthy (MInt i) = (i \<noteq> 0)"
| "meta_truthy (MFloat x) = (fst x \<noteq> 0)"
| "meta_truthy (MStr s) = (s \<noteq> [])"
| "meta_truthy (MList xs) = (xs \<noteq> [])"
| "meta_truthy (MDict d) = (d \<noteq> [])"

definition service_tx_bytes :: "ustr \<Rightarrow> (ustr, meta) dict \<Rightarrow> int" where
  "service_tx_bytes service_name service_stats =
     (case dict_get service_stats service_name of
        Some (MDict raw) \<Rightarrow>
          (case dict_get raw (str_lit ''tx_bytes'') of
             None \<Rightarrow> 0
           | Some v \<Rightarrow>
               if \<not> meta_truthy v then 0
               else (case py_int v of Inl _ \<Rightarrow> 0 | Inr n \<Rightarrow> max 0 n))
      | _ \<Rightarrow> 0)"

fun degraded_entry :: "meta \<Rightarrow> ustr list" where
  "degraded_entry (MDict entry) =
     (case dict_get entry (str_lit ''service'') of
        Some (MStr service) \<Rightarrow>
          (case dict_get entry (str_lit ''degraded'') of
             Some v \<Rightarrow> if meta_truthy v then [service] else []
           | None \<Rightarrow> [])
      | _ \<Rightarrow> [])"
| "degraded_entry _ = []"

fun degraded_services :: "meta \<Rightarrow> ustr list" where
  "degraded_services (MList entries) = concat (map degraded_entry entries)"
| "degraded_services _ = []"

definition summarize_service ::
  "(ustr, meta) dict \<Rightarrow> ustr list \<Rightarrow> service_intent \<Rightarrow> traffic_summary \<Rightarrow> traffic_summary" where
  "summarize_service service_stats degraded service t =
     (let tx_bytes = service_tx_bytes (si_name service) service_stats in
      if service_is_protected service then
        t\<lparr> ts_protected_services := ts_protected_services t @ [si_name service],
           ts_protected_tx_bytes := ts_protected_tx_bytes t + tx_bytes,
           ts_protected_degraded := ts_protected_degraded t
             @ (if si_name service \<in> set degraded then [si_name service] else []) \<rparr>
      else if service_is_bulk service then
        t\<lparr> ts_bulk_services := ts_bulk_services t @ [si_name service],
           ts_bulk_tx_bytes := ts_bulk_tx_bytes t + tx_bytes \<rparr>
      else
        t\<lparr> ts_unknown_services := ts_unknown_services t @ [si_name service],
           ts_unknown_tx_bytes := ts_unknown_tx_bytes t + tx_bytes \<rparr>)"

definition service_traffic_summary ::
  "service_intent list \<Rightarrow> (ustr, meta) dict \<Rightarrow> meta \<Rightarrow> traffic_summary" where
  "service_traffic_summary services service_stats service_outcomes =
     fold (summarize_service service_stats (degraded_services service_outcomes)) services empty_summary"

definition service_traffic_summary_from_status ::
  "service_intent list \<Rightarrow> (ustr, meta) dict \<Rightarrow> traffic_summary" where
  "service_traffic_summary_from_status services status =
     service_traffic_summary services (as_dict (dict_get status (str_lit ''service_stats'')))
       (case dict_get status (str_lit ''service_outcomes'') of None \<Rightarrow> MNone | Some v \<Rightarrow> v)"

section \<open>Poll plans\<close>

fun poll_slots :: "service_priority \<Rightarrow> nat" where
  "poll_slots Prio_bulk = 1"
| "poll_slots Prio_normal = 2"
| "poll_slots Prio_high = 3"
| "poll_slots Prio_critical = 4"

definition service_poll_order :: "runtime_service list \<Rightarrow> ustr list" where
  "service_poll_order services =
     concat (map (\<lambda>s. if truthy_str (rs_listen s) then replicate (poll_slots (rs_priority s)) (rs_name s) else [])
       services)"

definition override_of :: "(ustr, int) dict \<Rightarrow> ustr \<Rightarrow> int" where
  "override_of overrides name = or_int (dict_get overrides name) 0"

definition packet_budget :: "runtime_service \<Rightarrow> int \<Rightarrow> (ustr, int) dict \<Rightarrow> int" where
  "packet_budget s batch_size overrides =
     (if override_of overrides (rs_name s) \<noteq> 0 then override_of overrides (rs_name s)
      else if rs_scheduler_poll_batch_packets s \<noteq> 0 then rs_scheduler_poll_batch_packets s
      else batch_size)"

definition service_poll_plan :: "runtime_service list \<Rightarrow> int \<Rightarrow> (ustr, int) dict \<Rightarrow> (ustr \<times> int) list" where
  "service_poll_plan services batch_size packet_budget_overrides =
     concat (map (\<lambda>s. if truthy_str (rs_listen s)
                      then replicate (poll_slots (rs_priority s))
                             (rs_name s, packet_budget s batch_size packet_budget_overrides)
                      else []) services)"

definition service_budget_plan ::
  "runtime_service list \<Rightarrow> int \<Rightarrow> (ustr, int) dict \<Rightarrow> (ustr, int) dict \<Rightarrow> (ustr \<times> int \<times> int) list" where
  "service_budget_plan services batch_size packet_budget_overrides byte_budget_overrides =
     concat (map (\<lambda>s. if truthy_str (rs_listen s)
                      then replicate (poll_slots (rs_priority s))
                             (rs_name s, packet_budget s batch_size packet_budget_overrides,
                              override_of byte_budget_overrides (rs_name s))
                      else []) services)"

definition uses_service_drain_plan :: "runtime_service list \<Rightarrow> (ustr, int) dict \<Rightarrow> bool" where
  "uses_service_drain_plan services packet_budget_overrides \<longleftrightarrow>
     list_ex (\<lambda>s. truthy_str (rs_listen s) \<and>
                  (rs_scheduler_poll_batch_packets s \<noteq> 0 \<or> override_of packet_budget_overrides (rs_name s) > 0)) services"

definition uses_service_budget_plan :: "runtime_service list \<Rightarrow> (ustr, int) dict \<Rightarrow> (ustr, int) dict \<Rightarrow> bool" where
  "uses_service_budget_plan services packet_budget_overrides byte_budget_overrides \<longleftrightarrow>
     list_ex (\<lambda>s. truthy_str (rs_listen s) \<and>
                  (rs_scheduler_poll_batch_packets s \<noteq> 0 \<or> override_of packet_budget_overrides (rs_name s) > 0 \<or>
                   override_of byte_budget_overrides (rs_name s) > 0)) services"

section \<open>Lemmas\<close>

lemma summary_fold:
  "fold (summarize_service stats degraded) services t =
     \<lparr> ts_protected_services = ts_protected_services t @ map si_name (filter service_is_protected services),
       ts_bulk_services = ts_bulk_services t
         @ map si_name (filter (\<lambda>s. \<not> service_is_protected s \<and> service_is_bulk s) services),
       ts_unknown_services = ts_unknown_services t
         @ map si_name (filter (\<lambda>s. \<not> service_is_protected s \<and> \<not> service_is_bulk s) services),
       ts_protected_tx_bytes = ts_protected_tx_bytes t
         + sum_list (map (\<lambda>s. service_tx_bytes (si_name s) stats) (filter service_is_protected services)),
       ts_bulk_tx_bytes = ts_bulk_tx_bytes t
         + sum_list (map (\<lambda>s. service_tx_bytes (si_name s) stats)
             (filter (\<lambda>s. \<not> service_is_protected s \<and> service_is_bulk s) services)),
       ts_unknown_tx_bytes = ts_unknown_tx_bytes t
         + sum_list (map (\<lambda>s. service_tx_bytes (si_name s) stats)
             (filter (\<lambda>s. \<not> service_is_protected s \<and> \<not> service_is_bulk s) services)),
       ts_protected_degraded = ts_protected_degraded t
         @ filter (\<lambda>n. n \<in> set degraded) (map si_name (filter service_is_protected services)) \<rparr>"
  by (induction services arbitrary: t) (simp_all add: summarize_service_def Let_def)

lemma summary_protected:
  "ts_protected_services (service_traffic_summary services stats outcomes) = map si_name (filter service_is_protected services)"
  "ts_bulk_services (service_traffic_summary services stats outcomes) =
     map si_name (filter (\<lambda>s. \<not> service_is_protected s \<and> service_is_bulk s) services)"
  by (simp_all add: service_traffic_summary_def summary_fold empty_summary_def)

lemma count_replicate: "count_list (replicate n a) b = (if a = b then n else 0)"
  by (induction n) auto

lemma count_concat_replicate:
  assumes "distinct (map f xs)" and "x \<in> set xs"
  shows "count_list (map f (concat (map (\<lambda>x. replicate (k x) x) xs))) (f x) = k x"
  using assms
proof (induction xs)
  case (Cons y xs)
  have none: "count_list (map f (concat (map (\<lambda>x. replicate (k x) x) ys))) v = 0" if "v \<notin> f ` set ys" for ys v
    using that by (intro count_notin) auto
  show ?case
  proof (cases "x = y")
    case True
    then show ?thesis using Cons.prems(1) none [of "f y" xs] by (simp add: count_replicate)
  next
    case False
    then have "f y \<noteq> f x" using Cons.prems by auto
    then show ?thesis using Cons False by (simp add: count_replicate)
  qed
qed simp

section \<open>Properties\<close>


definition sample_service :: runtime_service where
  "sample_service =
     \<lparr> rs_service_id = 256, rs_service_id_explicit = False, rs_name = [119], rs_target = [116], rs_listen = Some [108],
       rs_priority = Prio_high, rs_priority_value = 200, rs_traffic_class = Tcp_ordered, rs_return_mode = Fixed,
       rs_scheduler_fanout = 1, rs_scheduler_fanout_below_bytes = 0, rs_scheduler_flowlet_idle_us = 0,
       rs_scheduler_flowlet_max_hold_us = 0, rs_scheduler_poll_batch_packets = 0, rs_scheduler_path_run_datagrams = 0,
       rs_scheduler_path_policy = Inherit, rs_scheduler_allowed_path_ids = [], rs_scheduler_path_weights = [] \<rparr>"


text \<open>
  The traffic summary partitions the configured services: each is protected, bulk or unknown,
  exactly one of these, in configuration order; protection wins over bulk, the three byte counters
  add up to all traffic, and degraded services are reported only among the protected ones.
\<close>
lemma traffic_summary_partition:
  "let t = service_traffic_summary services stats outcomes in
     ts_protected_services t = map si_name (filter service_is_protected services)
   \<and> ts_bulk_services t = map si_name (filter (\<lambda>s. \<not> service_is_protected s \<and> service_is_bulk s) services)
   \<and> length (ts_protected_services t) + length (ts_bulk_services t) + length (ts_unknown_services t) = length services
   \<and> ts_protected_tx_bytes t + ts_bulk_tx_bytes t + ts_unknown_tx_bytes t
       = sum_list (map (\<lambda>s. service_tx_bytes (si_name s) stats) services)
   \<and> set (ts_protected_degraded t) = set (ts_protected_services t) \<inter> set (degraded_services outcomes)
   \<and> \<not> (is_tcp_like_only t \<and> is_udp_bulk_only t)"
proof -
  have "length (filter service_is_protected services)
      + length (filter (\<lambda>s. \<not> service_is_protected s \<and> service_is_bulk s) services)
      + length (filter (\<lambda>s. \<not> service_is_protected s \<and> \<not> service_is_bulk s) services) = length services"
    by (induction services) auto
  moreover have "sum_list (map f (filter service_is_protected services))
      + sum_list (map f (filter (\<lambda>s. \<not> service_is_protected s \<and> service_is_bulk s) services))
      + sum_list (map f (filter (\<lambda>s. \<not> service_is_protected s \<and> \<not> service_is_bulk s) services))
      = sum_list (map f services)" for f :: "service_intent \<Rightarrow> int"
    by (induction services) auto
  ultimately show ?thesis
    by (auto simp: Let_def service_traffic_summary_def summary_fold empty_summary_def is_tcp_like_only_def
        is_udp_bulk_only_def)
qed

end
