(* ===== verification/Sched_Compiler.thy ===== *)
theory Sched_Compiler
  imports Sched_Policies Sched_Congestion Service_Intent "HOL-Library.Product_Lexorder"
begin

text \<open>
  The scheduler compiler of \<^verbatim>\<open>scheduling/compiler.py\<close>: every configured path is compiled by the
  selected policy, then passed through the guards of that policy. The congestion controller, which
  the source mutates, is threaded through and returned. \<^verbatim>\<open>zip(..., strict=True)\<close> on lists of
  different length is the error branch of the guards that use it.

  The locale \<open>path_guard\<close> is the contract all guards share: a guard may only restrict paths (drain an
  active one, lower its weight, set a pacing budget), never add, reorder, enable or activate one.
  \<open>fail_soft_guard\<close> adds that a guard never leaves a usable configuration without an active path.
\<close>

section \<open>Constants\<close>

definition LATENCY_GUARD_MIN_MARGIN_US :: int where
  [const_simps]: "LATENCY_GUARD_MIN_MARGIN_US = 10000"

definition LATENCY_GUARD_MARGIN_DIVISOR :: int where
  [const_simps]: "LATENCY_GUARD_MARGIN_DIVISOR = 2"

definition CAPACITY_SHARE_POLICIES :: "scheduler_policy list" where
  "CAPACITY_SHARE_POLICIES =
     [Capacity_aware, Latency_guarded_capacity, Ordered_multipath_capacity_aware, Arrival_guarded_capacity]"

definition ARRIVAL_GUARD_DEFAULT_BUDGET_US :: int where
  [const_simps]: "ARRIVAL_GUARD_DEFAULT_BUDGET_US = 150000"

definition ARRIVAL_GUARD_QUEUE_PACKET_US :: int where
  [const_simps]: "ARRIVAL_GUARD_QUEUE_PACKET_US = 50"

definition ARRIVAL_GUARD_DRAIN_WEIGHT :: int where
  [const_simps]: "ARRIVAL_GUARD_DRAIN_WEIGHT = 1"

fun compile_service_priority :: "service_priority \<Rightarrow> int" where
  "compile_service_priority Prio_bulk = 50"
| "compile_service_priority Prio_normal = 100"
| "compile_service_priority Prio_high = 200"
| "compile_service_priority Prio_critical = 400"

section \<open>Guards\<close>

definition arrival_prediction_us :: "runtime_path \<Rightarrow> int option" where
  "arrival_prediction_us p =
     (case rp_latency_us p of
        None \<Rightarrow> None
      | Some latency \<Rightarrow>
          let capacity_bps = or_int (rp_tx_capacity_bps p) 0;
              transmit_us = (if capacity_bps \<le> 0 then 0 else rp_mtu p * 8 * 1000000 div capacity_bps);
              queued_transmit_us =
                (if capacity_bps \<le> 0 then 0 else rp_queue_depth_bytes p * 8 * 1000000 div capacity_bps);
              queue_us = rp_queue_oldest_age_us p + queued_transmit_us
                         + rp_queue_depth_packets p * ARRIVAL_GUARD_QUEUE_PACKET_US
          in Some (latency + transmit_us + queue_us))"

definition hold_budget_us :: "runtime_path \<Rightarrow> int" where
  "hold_budget_us p = (if rp_reorder_hold_us p \<noteq> 0 then rp_reorder_hold_us p else ARRIVAL_GUARD_DEFAULT_BUDGET_US)"

definition drain_path :: "runtime_path \<Rightarrow> runtime_path" where
  "drain_path p = p\<lparr> rp_state := Drain, rp_weight := ARRIVAL_GUARD_DRAIN_WEIGHT \<rparr>"

definition congestion_path ::
  "congestion_policy \<Rightarrow> snapshot \<Rightarrow> runtime_path \<Rightarrow> path_config \<Rightarrow> congestion_controller option
     \<Rightarrow> congestion_controller option \<times> runtime_path" where
  "congestion_path policy telemetry path configured controller =
     (if ps_pacing_budget_bps (pc_scheduler configured) \<noteq> 0 \<or> rp_state path \<noteq> Active then (controller, path)
      else case dict_get telemetry (pc_name configured) of
        None \<Rightarrow> (controller, path)
      | Some metrics \<Rightarrow>
          let capacity_bps = (if rp_tx_capacity_bps path = None \<or> rp_tx_capacity_bps path = Some 0
                              then ps_tx_capacity_bps (pc_scheduler configured) else rp_tx_capacity_bps path);
              decision = compile_congestion_fairness metrics policy capacity_bps;
              (controller', decision') =
                (case controller of
                   None \<Rightarrow> (None, decision)
                 | Some c \<Rightarrow> let (c', d') = stabilize c (pc_name configured) decision in (Some c', d'))
          in (controller',
              if cd_pacing_budget_bps decision' \<le> 0 then path
              else path\<lparr> rp_pacing_budget_bps := cd_pacing_budget_bps decision' \<rparr>))"

fun congestion_paths ::
  "congestion_policy \<Rightarrow> snapshot \<Rightarrow> runtime_path list \<Rightarrow> path_config list \<Rightarrow> congestion_controller option
     \<Rightarrow> (congestion_controller option \<times> runtime_path list) res" where
  "congestion_paths policy telemetry [] [] controller = Inr (controller, [])"
| "congestion_paths policy telemetry (p # ps) (q # qs) controller =
     (let (controller', p') = congestion_path policy telemetry p q controller
      in rbind (congestion_paths policy telemetry ps qs controller')
           (\<lambda>(controller'', ps'). Inr (controller'', p' # ps')))"
| "congestion_paths policy telemetry _ _ controller = Inl (ValueError ''zip() arguments differ in length'')"

definition apply_congestion_fairness ::
  "runtime_path list \<Rightarrow> gatherlink_config \<Rightarrow> snapshot \<Rightarrow> congestion_controller option
     \<Rightarrow> (congestion_controller option \<times> runtime_path list) res" where
  "apply_congestion_fairness paths config telemetry controller =
     (let policy = sch_congestion_policy (gc_scheduler config) in
      if policy = Congestion_off then Inr (controller, paths)
      else congestion_paths policy telemetry paths (gc_paths config) controller)"

definition health_path :: "(ustr, path_score) dict \<Rightarrow> scheduler_policy \<Rightarrow> runtime_path \<Rightarrow> path_config \<Rightarrow> runtime_path" where
  "health_path scores effective_mode path configured =
     (case dict_get scores (pc_name configured) of
        None \<Rightarrow> path
      | Some score \<Rightarrow>
          if sco_health score = Down \<and> rp_state path = Active
          then path\<lparr> rp_state := Drain, rp_weight := 1 \<rparr>
          else if sco_health score = Degraded \<and> rp_state path = Active \<and>
                  effective_mode \<notin> set CAPACITY_SHARE_POLICIES
          then path\<lparr> rp_weight := max 1 (min (rp_weight path) (sco_weight score)) \<rparr>
          else path)"

definition apply_health_guard ::
  "runtime_path list \<Rightarrow> gatherlink_config \<Rightarrow> snapshot \<Rightarrow> scheduler_policy \<Rightarrow> runtime_path list res" where
  "apply_health_guard paths config telemetry effective_mode =
     (let scores = score_snapshot telemetry in
      if length paths \<noteq> length (gc_paths config) then Inl (ValueError ''zip() arguments differ in length'')
      else Inr (map2 (health_path scores effective_mode) paths (gc_paths config)))"

definition apply_latency_guard :: "runtime_path list \<Rightarrow> runtime_path list" where
  "apply_latency_guard paths =
     (case some_values (map rp_latency_us (filter rp_enabled paths)) of
        [] \<Rightarrow> paths
      | [_] \<Rightarrow> paths
      | l # ls \<Rightarrow>
          let fastest_latency_us = fold min ls l;
              allowed_margin_us = max LATENCY_GUARD_MIN_MARGIN_US (fastest_latency_us div LATENCY_GUARD_MARGIN_DIVISOR);
              latency_limit_us = fastest_latency_us + allowed_margin_us
          in map (\<lambda>p. case rp_latency_us p of
                    None \<Rightarrow> p
                  | Some l \<Rightarrow> if l > latency_limit_us \<and> rp_state p = Active then p\<lparr> rp_state := Drain \<rparr> else p)
               paths)"

definition apply_arrival_guard :: "runtime_path list \<Rightarrow> runtime_path list" where
  "apply_arrival_guard paths =
     (case some_values (map arrival_prediction_us (filter rp_enabled paths)) of
        [] \<Rightarrow> paths
      | [_] \<Rightarrow> paths
      | x # xs \<Rightarrow>
          let fastest_arrival_us = fold min xs x
          in map (\<lambda>p. case arrival_prediction_us p of
                    None \<Rightarrow> p
                  | Some prediction \<Rightarrow>
                      if rp_state p \<noteq> Active then p
                      else if prediction > fastest_arrival_us + hold_budget_us p then drain_path p else p)
               paths)"

definition active_indexes :: "runtime_path list \<Rightarrow> nat list" where
  "active_indexes paths = filter (\<lambda>i. rp_enabled (paths ! i) \<and> rp_state (paths ! i) = Active) [0..<length paths]"

definition drain_indexes :: "runtime_path list \<Rightarrow> nat list \<Rightarrow> runtime_path list" where
  "drain_indexes paths drained =
     map (\<lambda>i. if i \<in> set drained then drain_path (paths ! i) else paths ! i) [0..<length paths]"

definition apply_ordered_arrival_guard :: "runtime_path list \<Rightarrow> runtime_path list" where
  "apply_ordered_arrival_guard paths =
     (case filter (\<lambda>i. arrival_prediction_us (paths ! i) \<noteq> None) (active_indexes paths) of
        [] \<Rightarrow> paths
      | [_] \<Rightarrow> paths
      | i # is \<Rightarrow>
          let fastest_index = min_by (\<lambda>i. (the (arrival_prediction_us (paths ! i)), rp_loss_ppm (paths ! i), i)) i is;
              fastest_arrival_us = the (arrival_prediction_us (paths ! fastest_index));
              budget_us = hold_budget_us (paths ! fastest_index)
          in drain_indexes paths
               (filter (\<lambda>i. i \<noteq> fastest_index \<and> rp_state (paths ! i) = Active \<and>
                            (case arrival_prediction_us (paths ! i) of
                               None \<Rightarrow> False
                             | Some prediction \<Rightarrow> prediction > fastest_arrival_us + budget_us))
                 [0..<length paths]))"

definition ordered_receiver_pressure_is_severe :: "runtime_path \<Rightarrow> path_metrics \<Rightarrow> bool" where
  "ordered_receiver_pressure_is_severe path m \<longleftrightarrow>
     (pm_observed_packets m \<ge> 1000 \<and> pm_receive_gaps m * 1000000 div pm_observed_packets m \<ge> 5000) \<or>
     pm_reorder_depth_packets m \<ge> 4096 \<or>
     pm_reorder_buffer_packets m \<ge> 4096 \<or>
     pm_scheduler_in_flight_packets m \<ge> 8192 \<or>
     pm_scheduler_in_flight_bytes m \<ge> 8 * 1024 * 1024 \<or>
     pm_scheduler_predicted_delivery_us m > hold_budget_us path * 3 \<or>
     pm_reorder_buffer_oldest_age_us m > hold_budget_us path * 2"

definition ordered_receiver_pressure_score :: "path_metrics \<Rightarrow> int" where
  "ordered_receiver_pressure_score m =
     (if pm_observed_packets m > 0 then pm_receive_gaps m * 1000000 div pm_observed_packets m else 0)
     + pm_reorder_depth_packets m + pm_reorder_buffer_packets m + pm_scheduler_in_flight_packets m
     + pm_scheduler_in_flight_bytes m div 1024
     + pm_scheduler_predicted_delivery_us m div 1000
     + pm_reorder_buffer_oldest_age_us m div 1000"

definition apply_ordered_receiver_feedback_guard ::
  "runtime_path list \<Rightarrow> gatherlink_config \<Rightarrow> snapshot \<Rightarrow> runtime_path list res" where
  "apply_ordered_receiver_feedback_guard paths config telemetry =
     (let active = active_indexes paths in
      if length active < 2 then Inr paths
      else if length paths \<noteq> length (gc_paths config) then Inl (ValueError ''zip() arguments differ in length'')
      else
        let metrics_of = (\<lambda>i. dict_get telemetry (pc_name (gc_paths config ! i)));
            pressure_score = (\<lambda>i. case metrics_of i of None \<Rightarrow> 0 | Some m \<Rightarrow> ordered_receiver_pressure_score m);
            severe = filter (\<lambda>i. case metrics_of i of
                                   None \<Rightarrow> False
                                 | Some m \<Rightarrow> ordered_receiver_pressure_is_severe (paths ! i) m) active
        in if severe = [] then Inr paths
           else
             let drained = (if set severe = set active
                            then remove1 (min_by (\<lambda>i. (pressure_score i, i)) (hd active) (tl active)) severe
                            else severe)
             in Inr (drain_indexes paths drained))"

definition apply_single_best_path :: "runtime_path list \<Rightarrow> runtime_path list" where
  "apply_single_best_path paths =
     (case active_indexes paths of
        [] \<Rightarrow> paths
      | [_] \<Rightarrow> paths
      | i # is \<Rightarrow>
          let best_index = min_by (\<lambda>i. (- or_int (rp_tx_capacity_bps (paths ! i)) 0, rp_loss_ppm (paths ! i), i)) i is
          in drain_indexes paths
               (filter (\<lambda>i. i \<noteq> best_index \<and> rp_state (paths ! i) = Active) [0..<length paths]))"

section \<open>The compiler\<close>

definition compilable_mode :: "gatherlink_config \<Rightarrow> scheduler_policy" where
  "compilable_mode config =
     (if sch_mode (gc_scheduler config) = Coordinated_adaptive then
        let service_traffic = service_traffic_summary (map intent_of_config (gc_services config)) [] MNone in
        if sch_traffic_bias (gc_scheduler config) = Bias_tcp \<or> is_tcp_like_only service_traffic then Single_best_path
        else if sch_traffic_bias (gc_scheduler config) = Bias_udp \<or> is_udp_bulk_only service_traffic then Capacity_aware
        else if has_mixed_known_classes service_traffic then Capacity_aware
        else Capacity_aware
      else sch_mode (gc_scheduler config))"

definition selected_mode :: "gatherlink_config \<Rightarrow> scheduler_policy option \<Rightarrow> scheduler_policy" where
  "selected_mode config effective_mode = (case effective_mode of None \<Rightarrow> compilable_mode config | Some m \<Rightarrow> m)"

definition compile_path_scheduler ::
  "path_config \<Rightarrow> int \<Rightarrow> gatherlink_config \<Rightarrow> snapshot option \<Rightarrow> scheduler_policy option \<Rightarrow> runtime_path res" where
  "compile_path_scheduler path index config telemetry effective_mode =
     compile_path_policy path index (selected_mode config effective_mode) telemetry"

fun compile_paths ::
  "path_config list \<Rightarrow> int \<Rightarrow> gatherlink_config \<Rightarrow> snapshot option \<Rightarrow> scheduler_policy option
     \<Rightarrow> runtime_path list res" where
  "compile_paths [] index config telemetry effective_mode = Inr []"
| "compile_paths (path # paths) index config telemetry effective_mode =
     rbind (compile_path_scheduler path index config telemetry effective_mode) (\<lambda>p.
       rbind (compile_paths paths (index + 1) config telemetry effective_mode) (\<lambda>ps. Inr (p # ps)))"

record runtime_scheduler =
  rsch_mode :: scheduler_mode
  rsch_paths :: "runtime_path list"

definition mode_guards ::
  "scheduler_policy \<Rightarrow> gatherlink_config \<Rightarrow> snapshot option \<Rightarrow> runtime_path list \<Rightarrow> runtime_path list res" where
  "mode_guards mode config telemetry paths =
     (let paths = (if mode = Latency_guarded_capacity then apply_latency_guard paths else paths);
          paths = (if mode = Arrival_guarded_capacity then apply_arrival_guard paths else paths);
          paths = (if mode = Ordered_multipath_capacity_aware then apply_ordered_arrival_guard paths else paths)
      in rbind (case telemetry of
                  Some snap \<Rightarrow> if mode \<in> {Ordered_multipath, Ordered_multipath_capacity_aware}
                             then apply_ordered_receiver_feedback_guard paths config snap else Inr paths
                | None \<Rightarrow> Inr paths)
           (\<lambda>paths. Inr (if mode = Single_best_path then apply_single_best_path paths else paths)))"

definition telemetry_guards ::
  "scheduler_policy \<Rightarrow> gatherlink_config \<Rightarrow> snapshot option \<Rightarrow> congestion_controller option \<Rightarrow> runtime_path list
     \<Rightarrow> (congestion_controller option \<times> runtime_path list) res" where
  "telemetry_guards mode config telemetry controller paths =
     (case telemetry of
        None \<Rightarrow> Inr (controller, paths)
      | Some snap \<Rightarrow>
          rbind (apply_congestion_fairness paths config snap controller) (\<lambda>(controller', paths').
            rbind (apply_health_guard paths' config snap mode) (\<lambda>paths''. Inr (controller', paths''))))"

definition compile_scheduler ::
  "gatherlink_config \<Rightarrow> snapshot option \<Rightarrow> scheduler_policy option \<Rightarrow> congestion_controller option
     \<Rightarrow> (congestion_controller option \<times> runtime_scheduler) res" where
  "compile_scheduler config telemetry effective_mode controller =
     (let mode = selected_mode config effective_mode in
      rbind (compile_paths (gc_paths config) 0 config telemetry effective_mode) (\<lambda>paths.
        rbind (telemetry_guards mode config telemetry controller paths) (\<lambda>(controller', paths).
          rbind (mode_guards mode config telemetry paths) (\<lambda>paths.
            rbind (rust_mode_for_policy mode) (\<lambda>rmode.
              Inr (controller', \<lparr> rsch_mode = rmode, rsch_paths = paths \<rparr>))))))"

section \<open>What guards may do\<close>

definition restricts :: "runtime_path \<Rightarrow> runtime_path \<Rightarrow> bool" where
  "restricts p q \<longleftrightarrow>
     q = p\<lparr> rp_state := rp_state q, rp_weight := rp_weight q, rp_pacing_budget_bps := rp_pacing_budget_bps q \<rparr> \<and>
     (rp_state q = rp_state p \<or> rp_state p = Active \<and> rp_state q = Drain) \<and>
     (1 \<le> rp_weight p \<longrightarrow> 1 \<le> rp_weight q \<and> rp_weight q \<le> rp_weight p) \<and>
     (0 \<le> rp_pacing_budget_bps p \<longrightarrow> 0 \<le> rp_pacing_budget_bps q)"

definition usable :: "runtime_path list \<Rightarrow> bool" where
  "usable paths \<longleftrightarrow> (\<exists>p\<in>set paths. rp_enabled p \<and> rp_state p = Active)"

lemma restricts_refl [simp]: "restricts p p"
  by (simp add: restricts_def)

lemma restrictsE:
  assumes "restricts p q"
  obtains st w b where "q = p\<lparr> rp_state := st, rp_weight := w, rp_pacing_budget_bps := b \<rparr>"
    "st = rp_state p \<or> rp_state p = Active \<and> st = Drain"
    "1 \<le> rp_weight p \<longrightarrow> 1 \<le> w \<and> w \<le> rp_weight p"
    "0 \<le> rp_pacing_budget_bps p \<longrightarrow> 0 \<le> b"
  using assms unfolding restricts_def by blast

lemma restrictsI:
  assumes "st = rp_state p \<or> rp_state p = Active \<and> st = Drain"
    and "1 \<le> rp_weight p \<longrightarrow> 1 \<le> w \<and> w \<le> rp_weight p" and "0 \<le> rp_pacing_budget_bps p \<longrightarrow> 0 \<le> b"
  shows "restricts p (p\<lparr> rp_state := st, rp_weight := w, rp_pacing_budget_bps := b \<rparr>)"
  using assms by (simp add: restricts_def)

lemma restricts_same:
  assumes "restricts p q"
  shows "rp_path_id q = rp_path_id p" "rp_enabled q = rp_enabled p" "rp_mtu q = rp_mtu p"
    "rp_tx_capacity_bps q = rp_tx_capacity_bps p" "rp_loss_ppm q = rp_loss_ppm p"
    "rp_state q = Active \<Longrightarrow> rp_state p = Active"
  using assms by (auto elim!: restrictsE)

lemma restricts_fields_ok: "restricts p q \<Longrightarrow> runtime_path_fields_ok p \<Longrightarrow> runtime_path_fields_ok q"
  by (elim restrictsE) (simp add: runtime_path_fields_ok_def)

lemma restricts_trans:
  assumes "restricts p q" and "restricts q r"
  shows "restricts p r"
proof -
  obtain st w b where q: "q = p\<lparr> rp_state := st, rp_weight := w, rp_pacing_budget_bps := b \<rparr>"
    "st = rp_state p \<or> rp_state p = Active \<and> st = Drain" "1 \<le> rp_weight p \<longrightarrow> 1 \<le> w \<and> w \<le> rp_weight p"
    "0 \<le> rp_pacing_budget_bps p \<longrightarrow> 0 \<le> b"
    using assms(1) by (rule restrictsE)
  obtain st' w' b' where r: "r = q\<lparr> rp_state := st', rp_weight := w', rp_pacing_budget_bps := b' \<rparr>"
    "st' = rp_state q \<or> rp_state q = Active \<and> st' = Drain" "1 \<le> rp_weight q \<longrightarrow> 1 \<le> w' \<and> w' \<le> rp_weight q"
    "0 \<le> rp_pacing_budget_bps q \<longrightarrow> 0 \<le> b'"
    using assms(2) by (rule restrictsE)
  have "r = p\<lparr> rp_state := st', rp_weight := w', rp_pacing_budget_bps := b' \<rparr>" using q r by simp
  moreover have "st' = rp_state p \<or> rp_state p = Active \<and> st' = Drain" using q(1,2) r(2) by auto
  moreover have "1 \<le> rp_weight p \<longrightarrow> 1 \<le> w' \<and> w' \<le> rp_weight p" using q(1,3) r(3) by auto
  moreover have "0 \<le> rp_pacing_budget_bps p \<longrightarrow> 0 \<le> b'" using q(1,4) r(4) by auto
  ultimately show ?thesis using restrictsI by simp
qed

lemma restricts_list_trans:
  "list_all2 restricts ps qs \<Longrightarrow> list_all2 restricts qs rs \<Longrightarrow> list_all2 restricts ps rs"
  using list_all2_trans [of restricts restricts restricts] restricts_trans by blast

lemma restricts_list_refl [simp]: "list_all2 restricts ps ps"
  by (simp add: list.rel_refl)

lemma restricts_drain: "rp_state p = Active \<Longrightarrow> restricts p (drain_path p)"
  using restrictsI [of Drain p 1 "rp_pacing_budget_bps p"] by (simp add: drain_path_def ARRIVAL_GUARD_DRAIN_WEIGHT_def)

lemma restricts_state: "rp_state p = Active \<Longrightarrow> restricts p (p\<lparr> rp_state := Drain \<rparr>)"
  using restrictsI [of Drain p "rp_weight p" "rp_pacing_budget_bps p"] by simp

lemma restricts_weight: "1 \<le> w \<Longrightarrow> w \<le> max 1 (rp_weight p) \<Longrightarrow> restricts p (p\<lparr> rp_weight := w \<rparr>)"
  using restrictsI [of "rp_state p" p w "rp_pacing_budget_bps p"] by (auto simp: max_def split: if_splits)

lemma restricts_pacing: "0 < b \<Longrightarrow> restricts p (p\<lparr> rp_pacing_budget_bps := b \<rparr>)"
  using restrictsI [of "rp_state p" p "rp_weight p" b] by simp

lemma usable_iff: "usable paths \<longleftrightarrow> active_indexes paths \<noteq> []"
proof -
  have "usable paths \<longleftrightarrow> (\<exists>i<length paths. rp_enabled (paths ! i) \<and> rp_state (paths ! i) = Active)"
    unfolding usable_def by (metis in_set_conv_nth)
  then show ?thesis by (auto simp: active_indexes_def filter_empty_conv)
qed

lemma restricts_usable:
  assumes "list_all2 restricts ps qs" and "usable qs"
  shows "usable ps"
proof -
  obtain i where "i < length qs" "rp_enabled (qs ! i)" "rp_state (qs ! i) = Active"
    using assms(2) unfolding usable_def by (metis in_set_conv_nth)
  moreover have "length qs = length ps" "i < length ps \<Longrightarrow> restricts (ps ! i) (qs ! i)"
    using assms(1) by (simp_all add: list_all2_conv_all_nth)
  ultimately have "ps ! i \<in> set ps \<and> rp_enabled (ps ! i) \<and> rp_state (ps ! i) = Active"
    using restricts_same(2,6) [of "ps ! i" "qs ! i"] by simp
  then show ?thesis unfolding usable_def by blast
qed

lemma distinct_active_indexes [simp]: "distinct (active_indexes paths)"
  by (simp add: active_indexes_def)

lemma distinct_filter_eq: "distinct xs \<Longrightarrow> x \<in> set xs \<Longrightarrow> filter (\<lambda>y. y = x) xs = [x]"
  by (induction xs) (auto simp: filter_empty_conv)

lemma active_indexesD:
  "i \<in> set (active_indexes paths) \<Longrightarrow> i < length paths \<and> rp_enabled (paths ! i) \<and> rp_state (paths ! i) = Active"
  by (simp add: active_indexes_def)

lemma drain_indexes_restricts:
  assumes "\<And>i. i \<in> set drained \<Longrightarrow> i < length paths \<Longrightarrow> rp_state (paths ! i) = Active"
  shows "list_all2 restricts paths (drain_indexes paths drained)"
  using assms by (auto simp: list_all2_conv_all_nth drain_indexes_def restricts_drain)

lemma active_drain_indexes:
  "active_indexes (drain_indexes paths drained) = filter (\<lambda>i. i \<notin> set drained) (active_indexes paths)"
proof -
  have n: "drain_indexes paths drained ! i = (if i \<in> set drained then drain_path (paths ! i) else paths ! i)"
    if "i < length paths" for i
    using that by (simp add: drain_indexes_def)
  have l: "length (drain_indexes paths drained) = length paths" by (simp add: drain_indexes_def)
  show ?thesis
    unfolding active_indexes_def l filter_filter
    by (rule filter_cong [OF refl]) (auto simp: n drain_path_def)
qed

locale path_guard =
  fixes g :: "runtime_path list \<Rightarrow> runtime_path list res"
  assumes restricting: "g ps = Inr qs \<Longrightarrow> list_all2 restricts ps qs"
begin

lemma keeps_length: "g ps = Inr qs \<Longrightarrow> length qs = length ps"
  using list_all2_lengthD [OF restricting] by simp

lemma keeps_path_ids: "g ps = Inr qs \<Longrightarrow> map rp_path_id qs = map rp_path_id ps"
  using restricting [of ps qs] restricts_same(1)
  by (auto simp: list_all2_conv_all_nth intro!: nth_equalityI)

lemma never_activates: "g ps = Inr qs \<Longrightarrow> usable qs \<Longrightarrow> usable ps"
  using restricting restricts_usable by blast

end

locale fail_soft_guard = path_guard +
  assumes fail_soft: "g ps = Inr qs \<Longrightarrow> usable ps \<Longrightarrow> usable qs"
begin

lemma usable_iff_usable: "g ps = Inr qs \<Longrightarrow> usable qs \<longleftrightarrow> usable ps"
  using fail_soft never_activates by blast

end

lemma total_path_guard: "(\<And>ps. list_all2 restricts ps (f ps)) \<Longrightarrow> path_guard (\<lambda>ps. Inr (f ps))"
  by unfold_locales auto

lemma total_fail_soft_guard:
  "(\<And>ps. list_all2 restricts ps (f ps)) \<Longrightarrow> (\<And>ps. usable ps \<Longrightarrow> usable (f ps)) \<Longrightarrow> fail_soft_guard (\<lambda>ps. Inr (f ps))"
  by unfold_locales auto

section \<open>The guards satisfy their contracts\<close>

lemma congestion_path_restricts:
  "restricts path (snd (congestion_path policy telemetry path configured controller))
   \<and> rp_state (snd (congestion_path policy telemetry path configured controller)) = rp_state path"
proof -
  have "snd (congestion_path policy telemetry path configured controller) = path \<or>
    (\<exists>b>0. snd (congestion_path policy telemetry path configured controller) = path\<lparr> rp_pacing_budget_bps := b \<rparr>)"
    unfolding congestion_path_def Let_def case_prod_beta by (auto split: option.split simp: not_le)
  then show ?thesis using restricts_pacing by auto
qed

lemma congestion_paths_restricts:
  "congestion_paths policy telemetry ps qs controller = Inr (controller', rs) \<Longrightarrow>
   list_all2 (\<lambda>p r. restricts p r \<and> rp_state r = rp_state p) ps rs"
proof (induction ps arbitrary: qs controller controller' rs)
  case Nil
  then show ?case by (cases qs) auto
next
  case (Cons p ps)
  show ?case
  proof (cases qs)
    case (Cons q qs')
    obtain c1 p1 where 1: "congestion_path policy telemetry p q controller = (c1, p1)" by (rule prod.exhaust)
    obtain rs' where "congestion_paths policy telemetry ps qs' c1 = Inr (controller', rs')" "rs = p1 # rs'"
      using Cons.prems local.Cons 1 by (auto simp: rbind_eq_Inr)
    then show ?thesis
      using Cons.IH congestion_path_restricts [of p policy telemetry q controller] 1 by auto
  qed (use Cons.prems in auto)
qed

lemma health_path_restricts: "restricts path (health_path scores mode path configured)"
  using restricts_drain [of path]
  by (auto simp: health_path_def drain_path_def ARRIVAL_GUARD_DRAIN_WEIGHT_def restricts_weight split: option.split)

lemma latency_guard_restricts: "list_all2 restricts paths (apply_latency_guard paths)"
  by (auto simp: apply_latency_guard_def Let_def list_all2_conv_all_nth restricts_state split: list.split option.split)

lemma arrival_guard_restricts: "list_all2 restricts paths (apply_arrival_guard paths)"
  by (auto simp: apply_arrival_guard_def Let_def list_all2_conv_all_nth restricts_drain split: list.split option.split)

lemma drain_filter_restricts:
  "list_all2 restricts paths (drain_indexes paths (filter (\<lambda>i. i \<noteq> k \<and> rp_state (paths ! i) = Active \<and> P i) xs))"
  "list_all2 restricts paths (drain_indexes paths (filter (\<lambda>i. i \<noteq> k \<and> rp_state (paths ! i) = Active) xs))"
  by (rule drain_indexes_restricts; simp)+

lemma ordered_arrival_guard_restricts: "list_all2 restricts paths (apply_ordered_arrival_guard paths)"
  by (simp add: apply_ordered_arrival_guard_def Let_def drain_filter_restricts split: list.split)

lemma single_best_path_restricts: "list_all2 restricts paths (apply_single_best_path paths)"
  by (simp add: apply_single_best_path_def Let_def drain_filter_restricts split: list.split)

lemma feedback_guard_cases:
  assumes "apply_ordered_receiver_feedback_guard paths config telemetry = Inr qs"
  shows "qs = paths \<or> (\<exists>ds. qs = drain_indexes paths ds \<and> set ds \<subset> set (active_indexes paths))"
proof (cases "qs = paths")
  case False
  define active where "active = active_indexes paths"
  define severe where "severe = filter (\<lambda>i. case dict_get telemetry (pc_name (gc_paths config ! i)) of
      None \<Rightarrow> False | Some m \<Rightarrow> ordered_receiver_pressure_is_severe (paths ! i) m) active"
  define keep where "keep = min_by (\<lambda>i. (case dict_get telemetry (pc_name (gc_paths config ! i)) of
      None \<Rightarrow> 0 | Some m \<Rightarrow> ordered_receiver_pressure_score m, i)) (hd active) (tl active)"
  have "apply_ordered_receiver_feedback_guard paths config telemetry =
    (if length active < 2 then Inr paths
     else if length paths \<noteq> length (gc_paths config) then Inl (ValueError ''zip() arguments differ in length'')
     else if severe = [] then Inr paths
     else Inr (drain_indexes paths (if set severe = set active then remove1 keep severe else severe)))"
    by (simp only: apply_ordered_receiver_feedback_guard_def Let_def severe_def keep_def active_def)
  then have "\<not> length active < 2" and q: "qs = drain_indexes paths (if set severe = set active then remove1 keep severe else severe)"
    using assms False by (simp_all split: if_split_asm)
  then have "active \<noteq> []" by (cases active) simp_all
  moreover have "keep \<in> insert (hd active) (set (tl active))" unfolding keep_def by (rule min_by_in)
  ultimately have keep: "keep \<in> set active" by (cases active) simp_all
  have sub: "set severe \<subseteq> set active" "distinct severe" by (auto simp: severe_def active_def)
  show ?thesis
  proof (cases "set severe = set active")
    case True
    then have "set (remove1 keep severe) \<subset> set active" using keep sub by auto
    then show ?thesis using q True active_def by auto
  next
    case False
    then show ?thesis using q sub active_def by auto
  qed
qed simp

lemma feedback_guard_restricts:
  assumes "apply_ordered_receiver_feedback_guard paths config telemetry = Inr qs"
  shows "list_all2 restricts paths qs"
  using feedback_guard_cases [OF assms]
proof (elim disjE exE conjE)
  fix ds
  assume "qs = drain_indexes paths ds" "set ds \<subset> set (active_indexes paths)"
  then show ?thesis using active_indexesD [of _ paths] by (auto intro!: drain_indexes_restricts)
qed simp

lemma feedback_guard_fail_soft:
  assumes "apply_ordered_receiver_feedback_guard paths config telemetry = Inr qs" and "usable paths"
  shows "usable qs"
  using feedback_guard_cases [OF assms(1)]
proof (elim disjE exE conjE)
  fix ds
  assume "qs = drain_indexes paths ds" "set ds \<subset> set (active_indexes paths)"
  then show ?thesis by (auto simp: usable_iff active_drain_indexes filter_empty_conv)
qed (use assms in simp)

lemma ordered_arrival_guard_fail_soft:
  assumes "usable paths"
  shows "usable (apply_ordered_arrival_guard paths)"
proof (cases "filter (\<lambda>i. arrival_prediction_us (paths ! i) \<noteq> None) (active_indexes paths)" rule: remdups_adj.cases)
  case (3 i j js)
  define best where "best =
    min_by (\<lambda>i. (the (arrival_prediction_us (paths ! i)), rp_loss_ppm (paths ! i), i)) i (j # js)"
  define drained where "drained = filter (\<lambda>i. i \<noteq> best \<and> rp_state (paths ! i) = Active \<and>
      (case arrival_prediction_us (paths ! i) of None \<Rightarrow> False
       | Some prediction \<Rightarrow>
           prediction > the (arrival_prediction_us (paths ! best)) + hold_budget_us (paths ! best))) [0..<length paths]"
  have e: "apply_ordered_arrival_guard paths = drain_indexes paths drained"
    by (simp only: apply_ordered_arrival_guard_def 3 list.case Let_def best_def [symmetric] drained_def)
  have "best \<in> insert i (set (j # js))" unfolding best_def by (rule min_by_in)
  then have "best \<in> set (filter (\<lambda>i. arrival_prediction_us (paths ! i) \<noteq> None) (active_indexes paths))"
    unfolding 3 by simp
  moreover have "best \<notin> set drained" by (simp add: drained_def)
  ultimately have "best \<in> set (active_indexes (drain_indexes paths drained))" by (simp add: active_drain_indexes)
  then show ?thesis unfolding e usable_iff by (metis list.set_intros(1) empty_iff list.set(1))
qed (use assms in \<open>simp_all add: apply_ordered_arrival_guard_def\<close>)

definition best_path_key :: "runtime_path list \<Rightarrow> nat \<Rightarrow> int \<times> int \<times> nat" where
  "best_path_key paths i = (- or_int (rp_tx_capacity_bps (paths ! i)) 0, rp_loss_ppm (paths ! i), i)"

lemma single_best_path_active:
  assumes "active_indexes paths = i # is"
  shows "active_indexes (apply_single_best_path paths) = [min_by (best_path_key paths) i is]"
proof (cases "is")
  case Nil
  then show ?thesis using assms by (simp add: apply_single_best_path_def)
next
  case (Cons j js)
  define best where "best = min_by (best_path_key paths) i is"
  define drained where "drained = filter (\<lambda>i. i \<noteq> best \<and> rp_state (paths ! i) = Active) [0..<length paths]"
  have "best \<in> insert i (set is)" unfolding best_def by (rule min_by_in)
  then have b: "best \<in> set (active_indexes paths)" unfolding assms by simp
  have "apply_single_best_path paths = drain_indexes paths drained"
    by (simp only: apply_single_best_path_def assms Cons list.case Let_def best_def drained_def best_path_key_def [abs_def])
  then have "active_indexes (apply_single_best_path paths) = filter (\<lambda>i. i \<notin> set drained) (active_indexes paths)"
    by (simp only: active_drain_indexes)
  also have "\<dots> = filter (\<lambda>i. i = best) (active_indexes paths)"
    by (rule filter_cong [OF refl]) (auto simp: drained_def dest: active_indexesD)
  also have "\<dots> = [best]" by (rule distinct_filter_eq [OF distinct_active_indexes b])
  finally show ?thesis by (simp only: best_def)
qed

lemma single_best_path_fail_soft: "usable paths \<Longrightarrow> usable (apply_single_best_path paths)"
  by (cases "active_indexes paths") (simp_all add: usable_iff single_best_path_active)

lemma congestion_fairness_restricts:
  assumes "apply_congestion_fairness paths config telemetry controller = Inr (controller', qs)"
  shows "list_all2 restricts paths qs \<and> map rp_state qs = map rp_state paths"
proof -
  have "list_all2 (\<lambda>p r. restricts p r \<and> rp_state r = rp_state p) paths qs"
  proof (cases "sch_congestion_policy (gc_scheduler config) = Congestion_off")
    case True
    then have "qs = paths" using assms by (simp add: apply_congestion_fairness_def)
    then show ?thesis by (simp add: list.rel_refl)
  next
    case False
    then show ?thesis
      using assms by (intro congestion_paths_restricts) (simp add: apply_congestion_fairness_def)
  qed
  then have "length qs = length paths"
    "\<And>i. i < length paths \<Longrightarrow> restricts (paths ! i) (qs ! i) \<and> rp_state (qs ! i) = rp_state (paths ! i)"
    by (simp_all add: list_all2_conv_all_nth)
  then show ?thesis by (simp add: list_all2_conv_all_nth list_eq_iff_nth_eq)
qed

lemma restricts_keeps_usable:
  assumes "list_all2 restricts ps qs" and "map rp_state qs = map rp_state ps" and "usable ps"
  shows "usable qs"
proof -
  obtain i where i: "i < length ps" "rp_enabled (ps ! i)" "rp_state (ps ! i) = Active"
    using assms(3) unfolding usable_def by (metis in_set_conv_nth)
  have l: "length qs = length ps" "restricts (ps ! i) (qs ! i)"
    using assms(1) i by (simp_all add: list_all2_conv_all_nth)
  have "rp_state (qs ! i) = Active" using arg_cong [OF assms(2), of "\<lambda>xs. xs ! i"] i l by simp
  moreover have "rp_enabled (qs ! i)" "qs ! i \<in> set qs" using restricts_same(2) [OF l(2)] i l by simp_all
  ultimately show ?thesis unfolding usable_def by blast
qed

interpretation congestion_guard: fail_soft_guard
  "\<lambda>paths. rbind (apply_congestion_fairness paths config telemetry controller) (\<lambda>(c, qs). Inr qs)"
  for config telemetry controller
proof unfold_locales
  fix ps qs
  assume "rbind (apply_congestion_fairness ps config telemetry controller) (\<lambda>(c, qs). Inr qs) = Inr qs"
  then obtain c where "apply_congestion_fairness ps config telemetry controller = Inr (c, qs)"
    by (auto simp: rbind_eq_Inr)
  note r = congestion_fairness_restricts [OF this]
  show "list_all2 restricts ps qs" using r by blast
  show "usable ps \<Longrightarrow> usable qs" using r restricts_keeps_usable by blast
qed

interpretation health_guard: path_guard "\<lambda>paths. apply_health_guard paths config telemetry mode"
  for config telemetry mode
proof unfold_locales
  fix ps qs
  assume "apply_health_guard ps config telemetry mode = Inr qs"
  then have "length ps = length (gc_paths config)"
    "qs = map2 (health_path (score_snapshot telemetry) mode) ps (gc_paths config)"
    by (simp_all add: apply_health_guard_def Let_def split: if_split_asm)
  then show "list_all2 restricts ps qs" by (simp add: list_all2_conv_all_nth health_path_restricts)
qed

interpretation latency_guard: path_guard "\<lambda>paths. Inr (apply_latency_guard paths)"
  by (rule total_path_guard) (rule latency_guard_restricts)

interpretation arrival_guard: path_guard "\<lambda>paths. Inr (apply_arrival_guard paths)"
  by (rule total_path_guard) (rule arrival_guard_restricts)

interpretation ordered_arrival_guard: fail_soft_guard "\<lambda>paths. Inr (apply_ordered_arrival_guard paths)"
  by (rule total_fail_soft_guard) (rule ordered_arrival_guard_restricts, rule ordered_arrival_guard_fail_soft)

interpretation feedback_guard: fail_soft_guard "\<lambda>paths. apply_ordered_receiver_feedback_guard paths config telemetry"
  for config telemetry
  by unfold_locales (fact feedback_guard_restricts, fact feedback_guard_fail_soft)

interpretation single_best_guard: fail_soft_guard "\<lambda>paths. Inr (apply_single_best_path paths)"
  by (rule total_fail_soft_guard) (rule single_best_path_restricts, rule single_best_path_fail_soft)

section \<open>The compiler is total on valid input\<close>

definition telemetry_ok :: "snapshot option \<Rightarrow> bool" where
  "telemetry_ok telemetry =
     (case telemetry of None \<Rightarrow> True | Some snap \<Rightarrow> list_all (\<lambda>(n, m). metrics_fields_ok m) snap)"

definition configured_state :: "path_config \<Rightarrow> path_state" where
  "configured_state p = (if \<not> ps_enabled (pc_scheduler p) then Disabled else ps_state (pc_scheduler p))"

definition compiled_from :: "path_config \<Rightarrow> int \<Rightarrow> runtime_path \<Rightarrow> bool" where
  "compiled_from p i r \<longleftrightarrow>
     rp_path_id r = i \<and> runtime_path_fields_ok r \<and> 1 \<le> rp_weight r \<and> rp_weight r \<le> 65535 \<and>
     rp_mtu r = ps_mtu (pc_scheduler p) \<and> rp_enabled r = (configured_state p \<noteq> Disabled) \<and>
     (rp_state r = configured_state p \<or> configured_state p = Active \<and> rp_state r = Drain)"

lemma policy_for_mode_total: "mode \<noteq> Coordinated_adaptive \<Longrightarrow> \<exists>cls. policy_for_mode mode = Inr cls"
  by (cases mode) auto

lemma compilable_mode_concrete: "compilable_mode config \<noteq> Coordinated_adaptive"
  by (simp add: compilable_mode_def Let_def)

lemma selected_mode_concrete: "effective_mode \<noteq> Some Coordinated_adaptive \<Longrightarrow> selected_mode config effective_mode \<noteq> Coordinated_adaptive"
  using compilable_mode_concrete by (auto simp: selected_mode_def split: option.split)

lemma telemetry_lookup_ok:
  "telemetry_ok (Some snap) \<Longrightarrow> dict_get snap n = Some m \<Longrightarrow> metrics_fields_ok m"
  by (auto simp: telemetry_ok_def list_all_iff dest: map_of_SomeD)

lemma compile_path_scheduler_total:
  assumes "path_ok p" and "telemetry_ok telemetry" and "effective_mode \<noteq> Some Coordinated_adaptive"
  obtains r where "compile_path_scheduler p i config telemetry effective_mode = Inr r" "compiled_from p i r"
    "rp_state r = configured_state p"
proof -
  define metrics where "metrics = (case telemetry of None \<Rightarrow> None | Some paths \<Rightarrow> dict_get paths (pc_name p))"
  define cx where "cx = \<lparr> cx_path = p, cx_index = i, cx_metrics = metrics \<rparr>"
  obtain cls where cls: "policy_for_mode (selected_mode config effective_mode) = Inr cls"
    using policy_for_mode_total [OF selected_mode_concrete [OF assms(3)]] by blast
  have "metrics = Some m \<Longrightarrow> metrics_fields_ok m" for m
    using assms(2) telemetry_lookup_ok by (cases telemetry) (auto simp: metrics_def)
  then have "context_ok cx"
    using assms(1) by (auto simp: context_ok_def cx_def path_ok_def split: option.split)
  then obtain r where r: "compile_path cls cx = Inr r" "runtime_path_fields_ok r"
    "rp_path_id r = i" "1 \<le> rp_weight r" "rp_weight r \<le> 65535"
    "rp_state r = configured_state p" "rp_enabled r = (configured_state p \<noteq> Disabled)"
    "rp_mtu r = ps_mtu (pc_scheduler p)"
    by (rule compile_path_total [of cx cls]) (simp_all add: cx_def context_state_def configured_state_def)
  have "compile_path_scheduler p i config telemetry effective_mode = Inr r"
    using r(1) cls by (simp add: compile_path_scheduler_def compile_path_policy_def cx_def metrics_def)
  then show ?thesis using that r by (simp add: compiled_from_def)
qed

lemma compile_paths_total:
  assumes "\<forall>p\<in>set paths. path_ok p" and "telemetry_ok telemetry" and "effective_mode \<noteq> Some Coordinated_adaptive"
  shows "\<exists>rs. compile_paths paths i config telemetry effective_mode = Inr rs \<and> length rs = length paths \<and>
    (\<forall>k<length paths. compiled_from (paths ! k) (i + int k) (rs ! k) \<and> rp_state (rs ! k) = configured_state (paths ! k))"
  using assms(1)
proof (induction paths arbitrary: i)
  case (Cons p paths)
  have "path_ok p" using Cons.prems by simp
  then obtain r where r: "compile_path_scheduler p i config telemetry effective_mode = Inr r" "compiled_from p i r"
    "rp_state r = configured_state p"
    using compile_path_scheduler_total [OF _ assms(2,3)] by blast
  obtain rs where rs: "compile_paths paths (i + 1) config telemetry effective_mode = Inr rs" "length rs = length paths"
    "\<forall>k<length paths. compiled_from (paths ! k) (i + 1 + int k) (rs ! k) \<and> rp_state (rs ! k) = configured_state (paths ! k)"
    using Cons.IH [of "i + 1"] Cons.prems by auto
  show ?case
  proof (intro exI [of _ "r # rs"] conjI allI impI)
    fix k
    assume "k < length (p # paths)"
    then show "compiled_from ((p # paths) ! k) (i + int k) ((r # rs) ! k)"
      "rp_state ((r # rs) ! k) = configured_state ((p # paths) ! k)"
      using r rs by (cases k; simp add: algebra_simps)+
  qed (use r rs in simp_all)
qed simp

lemma restricts_compiled:
  assumes "compiled_from p i r" and "restricts r r'"
  shows "compiled_from p i r'"
proof -
  have "runtime_path_fields_ok r'" using assms restricts_fields_ok by (simp add: compiled_from_def)
  moreover obtain st w b where r': "r' = r\<lparr> rp_state := st, rp_weight := w, rp_pacing_budget_bps := b \<rparr>"
    and st: "st = rp_state r \<or> rp_state r = Active \<and> st = Drain" and w: "1 \<le> rp_weight r \<longrightarrow> 1 \<le> w \<and> w \<le> rp_weight r"
    using assms(2) by (rule restrictsE)
  moreover have "1 \<le> w" "w \<le> 65535" using w assms(1) unfolding compiled_from_def by linarith+
  moreover have "st = configured_state p \<or> configured_state p = Active \<and> st = Drain"
    using st assms(1) unfolding compiled_from_def by metis
  ultimately show ?thesis using assms(1) by (simp add: compiled_from_def)
qed

lemma congestion_paths_total:
  "length ps = length qs \<Longrightarrow> \<exists>c rs. congestion_paths policy telemetry ps qs controller = Inr (c, rs)"
proof (induction ps qs arbitrary: controller rule: list_induct2)
  case (Cons p ps q qs)
  obtain c1 p1 where 1: "congestion_path policy telemetry p q controller = (c1, p1)" by (rule prod.exhaust)
  obtain c rs where "congestion_paths policy telemetry ps qs c1 = Inr (c, rs)" using Cons.IH by blast
  then show ?case using 1 by simp
qed simp

lemma telemetry_guards_total:
  assumes "length paths = length (gc_paths config)"
  obtains c qs where "telemetry_guards mode config telemetry controller paths = Inr (c, qs)" "list_all2 restricts paths qs"
proof (cases telemetry)
  case None
  then show ?thesis using that by (simp add: telemetry_guards_def)
next
  case (Some snap)
  obtain c ps where c: "apply_congestion_fairness paths config snap controller = Inr (c, ps)"
    using congestion_paths_total [OF assms, of "sch_congestion_policy (gc_scheduler config)" snap controller]
    by (cases "sch_congestion_policy (gc_scheduler config) = Congestion_off") (auto simp: apply_congestion_fairness_def)
  note r = congestion_fairness_restricts [OF c]
  then have "length ps = length (gc_paths config)" using assms list_all2_lengthD by fastforce
  then obtain qs where q: "apply_health_guard ps config snap mode = Inr qs"
    by (simp add: apply_health_guard_def Let_def)
  have "list_all2 restricts paths qs"
    using r health_guard.restricting [OF q] restricts_list_trans by blast
  then show ?thesis using that c q Some by (simp add: telemetry_guards_def)
qed

lemma mode_guards_total:
  assumes "length paths = length (gc_paths config)"
  obtains qs where "mode_guards mode config telemetry paths = Inr qs" "list_all2 restricts paths qs"
proof -
  define p1 where "p1 = (if mode = Latency_guarded_capacity then apply_latency_guard paths else paths)"
  define p2 where "p2 = (if mode = Arrival_guarded_capacity then apply_arrival_guard p1 else p1)"
  define p3 where "p3 = (if mode = Ordered_multipath_capacity_aware then apply_ordered_arrival_guard p2 else p2)"
  have "list_all2 restricts paths p1" "list_all2 restricts p1 p2" "list_all2 restricts p2 p3"
    by (simp_all add: p1_def p2_def p3_def latency_guard_restricts arrival_guard_restricts ordered_arrival_guard_restricts)
  then have 3: "list_all2 restricts paths p3" using restricts_list_trans by blast
  then have l: "length p3 = length (gc_paths config)" using assms by (simp add: list_all2_lengthD [symmetric])
  have "\<exists>qs. apply_ordered_receiver_feedback_guard p3 config snap = Inr qs" for snap
    using l by (simp add: apply_ordered_receiver_feedback_guard_def Let_def)
  then obtain p4 where 4: "(case telemetry of
      Some snap \<Rightarrow> if mode \<in> {Ordered_multipath, Ordered_multipath_capacity_aware}
                 then apply_ordered_receiver_feedback_guard p3 config snap else Inr p3
    | None \<Rightarrow> Inr p3) = Inr p4" "list_all2 restricts p3 p4"
  proof (cases "\<exists>snap. telemetry = Some snap \<and> mode \<in> {Ordered_multipath, Ordered_multipath_capacity_aware}")
    case True
    then obtain snap qs where "telemetry = Some snap" "mode \<in> {Ordered_multipath, Ordered_multipath_capacity_aware}"
      "apply_ordered_receiver_feedback_guard p3 config snap = Inr qs"
      using \<open>\<And>snap. \<exists>qs. apply_ordered_receiver_feedback_guard p3 config snap = Inr qs\<close> by blast
    then show ?thesis using that [of qs] feedback_guard_restricts by simp
  next
    case False
    then show ?thesis using that [of p3] by (cases telemetry) auto
  qed
  define p5 where "p5 = (if mode = Single_best_path then apply_single_best_path p4 else p4)"
  have "list_all2 restricts p4 p5" by (simp add: p5_def single_best_path_restricts)
  then have "list_all2 restricts paths p5" using 3 4(2) restricts_list_trans by blast
  moreover have "mode_guards mode config telemetry paths = Inr p5"
    unfolding mode_guards_def Let_def p1_def [symmetric] p2_def [symmetric] p3_def [symmetric] 4(1) by (simp add: p5_def)
  ultimately show ?thesis using that by blast
qed

lemma compile_scheduler_total:
  assumes "config_ok config" and "telemetry_ok telemetry" and "effective_mode \<noteq> Some Coordinated_adaptive"
  shows "\<exists>controller' rt. compile_scheduler config telemetry effective_mode controller = Inr (controller', rt)
    \<and> length (rsch_paths rt) = length (gc_paths config)
    \<and> (\<forall>k<length (gc_paths config). compiled_from (gc_paths config ! k) (int k) (rsch_paths rt ! k))"
proof -
  define mode where "mode = selected_mode config effective_mode"
  have "\<forall>p\<in>set (gc_paths config). path_ok p" using config_okD(1) [OF assms(1)] by blast
  then obtain ps where ps: "compile_paths (gc_paths config) 0 config telemetry effective_mode = Inr ps"
    "length ps = length (gc_paths config)"
    "\<forall>k<length (gc_paths config). compiled_from (gc_paths config ! k) (int k) (ps ! k)"
    using compile_paths_total [OF _ assms(2,3), of "gc_paths config" 0 config] by auto
  obtain c qs where qs: "telemetry_guards mode config telemetry controller ps = Inr (c, qs)" "list_all2 restricts ps qs"
    using telemetry_guards_total [OF ps(2)] by blast
  then have "length qs = length (gc_paths config)" using ps(2) by (simp add: list_all2_lengthD [symmetric])
  then obtain rs where rs: "mode_guards mode config telemetry qs = Inr rs" "list_all2 restricts qs rs"
    using mode_guards_total by blast
  obtain cls where cls: "policy_for_mode mode = Inr cls"
    using policy_for_mode_total [OF selected_mode_concrete [OF assms(3)]] mode_def by blast
  have all: "list_all2 restricts ps rs" using qs(2) rs(2) restricts_list_trans by blast
  have "compile_scheduler config telemetry effective_mode controller
      = Inr (c, \<lparr> rsch_mode = rust_mode cls, rsch_paths = rs \<rparr>)"
    using ps(1) qs(1) rs(1) cls
    by (simp add: compile_scheduler_def mode_def [symmetric] Let_def rust_mode_for_policy_def)
  moreover have "length rs = length (gc_paths config)" using all ps(2) by (simp add: list_all2_lengthD [symmetric])
  moreover have "compiled_from (gc_paths config ! k) (int k) (rs ! k)" if "k < length (gc_paths config)" for k
  proof -
    have "restricts (ps ! k) (rs ! k)" using all that ps(2) by (simp add: list_all2_conv_all_nth)
    then show ?thesis using ps(3) that restricts_compiled by blast
  qed
  ultimately show ?thesis by auto
qed

section \<open>Properties\<close>

text \<open>
  C24. The scheduler compiler is total and keeps the Rust contract: on a validated configuration and
  validated telemetry, with any concrete policy, it returns one runtime path per configured path, in
  order, with the path's index as id, weights in 1..65535 and all field constraints satisfied; a path
  is enabled exactly when configured so, and its state is the configured one or, if that was active,
  drain. No guard ever activates, enables, adds or drops a path.
\<close>
theorem compile_scheduler_sound:
  assumes "config_ok config" and "telemetry_ok telemetry" and "effective_mode \<noteq> Some Coordinated_adaptive"
  shows "\<exists>controller' rt. compile_scheduler config telemetry effective_mode controller = Inr (controller', rt)
    \<and> length (rsch_paths rt) = length (gc_paths config)
    \<and> (\<forall>k<length (gc_paths config). compiled_from (gc_paths config ! k) (int k) (rsch_paths rt ! k))"
  using assms by (rule compile_scheduler_total)

definition sample_config :: "scheduler_policy \<Rightarrow> path_config list \<Rightarrow> gatherlink_config" where
  "sample_config mode paths =
     \<lparr> gc_schema_version = 1, gc_node = [110], gc_role = Server, gc_peer = None,
       gc_security = \<lparr> sec_mode = Sec_none, sec_receiver_index = 1, sec_local_receiver_index = None,
         sec_remote_receiver_index = None, sec_send_key = None, sec_receive_key = None, sec_local_node_id = None,
         sec_peer_node_id = None, sec_topology_generation = None, sec_session_role = None,
         sec_session_created_at = None, sec_session_expires_at = None, sec_rekey_after_packets = None,
         sec_rekey_after_bytes = None, sec_sessions = [] \<rparr>,
       gc_paths = paths, gc_services = [],
       gc_scheduler = \<lparr> sch_mode = mode, sch_traffic_bias = Bias_auto, sch_congestion_policy = Congestion_adaptive \<rparr>,
       gc_helpers = \<lparr> hc_wireguard = None, hc_dns = None, hc_socks5 = None, hc_tcp_forward = None \<rparr> \<rparr>"

lemma sample_config_ok:
  assumes "list_all path_ok paths" and "distinct (map pc_name paths)"
  shows "config_ok (sample_config mode paths)"
  using assms
  by (simp add: config_ok_def validate_config_relationships_iff sample_config_def security_fields_ok_def
      validate_security_material_def helpers_ok_def validate_helper_references_def opt_range_def opt_ge_def const_simps)

lemma sample_path_ok: "path_scheduler_fields_ok sched \<Longrightarrow> path_ok (sample_path n sched)"
  by (simp add: path_ok_def sample_path_def opt_range_def)

lemma sample_hints_ok: "path_scheduler_fields_ok sample_hints"
  by (simp add: path_scheduler_fields_ok_def sample_hints_def opt_ge_def)

theorem compile_scheduler_sound_witness:
  "\<exists>rt c. compile_scheduler (sample_config Coordinated_adaptive [sample_path [108] sample_hints]) None None None = Inr (c, rt)
     \<and> length (rsch_paths rt) = 1"
proof -
  have "config_ok (sample_config Coordinated_adaptive [sample_path [108] sample_hints])"
    using sample_path_ok [OF sample_hints_ok] by (intro sample_config_ok) simp_all
  then show ?thesis
    using compile_scheduler_sound [of "sample_config Coordinated_adaptive [sample_path [108] sample_hints]" None None None]
    by (auto simp: telemetry_ok_def sample_config_def)
qed

text \<open>
  C26. Single-best-path: whenever at least one path is usable, the compiled plan has exactly one
  active path, it was active before, and no other active path has a larger known capacity (ties are
  broken by lower loss, then by lower index).
\<close>
theorem single_best_path_exactly_one:
  assumes "usable paths"
  shows "\<exists>best. active_indexes (apply_single_best_path paths) = [best]
    \<and> best \<in> set (active_indexes paths)
    \<and> (\<forall>i\<in>set (active_indexes paths). best_path_key paths best \<le> best_path_key paths i)"
proof -
  obtain i js where a: "active_indexes paths = i # js" using assms by (cases "active_indexes paths") (auto simp: usable_iff)
  define best where "best = min_by (best_path_key paths) i js"
  have "best \<in> insert i (set js)" unfolding best_def by (rule min_by_in)
  moreover have "best_path_key paths best \<le> best_path_key paths k" if "k \<in> insert i (set js)" for k
    unfolding best_def using that by (rule min_by_le)
  ultimately show ?thesis using single_best_path_active [OF a] by (auto simp: best_def a)
qed

definition sample_runtime :: "path_state \<Rightarrow> int \<Rightarrow> runtime_path" where
  "sample_runtime st latency =
     \<lparr> rp_path_id = 0, rp_enabled = True, rp_state = st, rp_weight = 1, rp_mtu = 1200, rp_tx_capacity_bps = Some 1000000,
       rp_rx_capacity_bps = None, rp_latency_us = Some latency, rp_loss_ppm = 0, rp_reorder_hold_us = 0,
       rp_max_in_flight_packets = 0, rp_max_in_flight_bytes = 0, rp_pacing_budget_bps = 0,
       rp_queue_depth_packets = 0, rp_queue_depth_bytes = 0, rp_queue_oldest_age_us = 0 \<rparr>"

theorem single_best_path_exactly_one_witness:
  "usable [sample_runtime Active 1000, sample_runtime Active 2000] \<and>
   (\<exists>best. active_indexes (apply_single_best_path [sample_runtime Active 1000, sample_runtime Active 2000]) = [best])"
proof -
  have "usable [sample_runtime Active 1000, sample_runtime Active 2000]" by (simp add: usable_def sample_runtime_def)
  then show ?thesis using single_best_path_exactly_one by blast
qed

text \<open>
  C25. The ordered guards fail soft: neither the ordered arrival guard nor the receiver-feedback guard
  nor the single-best-path choice ever turns a plan with an active path into one without, for any
  telemetry and configuration.
\<close>
theorem ordered_guards_fail_soft:
  "usable (apply_ordered_arrival_guard paths) = usable paths
   \<and> usable (apply_single_best_path paths) = usable paths
   \<and> (\<forall>qs. apply_ordered_receiver_feedback_guard paths config telemetry = Inr qs \<longrightarrow> usable qs = usable paths)"
proof (intro conjI allI impI)
  show "usable (apply_ordered_arrival_guard paths) = usable paths"
    by (rule ordered_arrival_guard.usable_iff_usable [OF refl])
  show "usable (apply_single_best_path paths) = usable paths"
    by (rule single_best_guard.usable_iff_usable [OF refl])
  show "usable qs = usable paths" if "apply_ordered_receiver_feedback_guard paths config telemetry = Inr qs" for qs
    using that by (rule feedback_guard.usable_iff_usable)
qed

lemma feedback_guard_single:
  "apply_ordered_receiver_feedback_guard [p] config telemetry = Inr [p]"
  by (simp add: apply_ordered_receiver_feedback_guard_def active_indexes_def)

lemma usable_sample: "usable [sample_runtime Active latency]"
  by (simp add: usable_def sample_runtime_def)

theorem ordered_guards_fail_soft_witness:
  "usable [sample_runtime Active 1000]
   \<and> apply_ordered_receiver_feedback_guard [sample_runtime Active 1000] (sample_config Ordered_multipath []) []
       = Inr [sample_runtime Active 1000]
   \<and> usable (apply_ordered_arrival_guard [sample_runtime Active 1000])"
  using ordered_guards_fail_soft [of "[sample_runtime Active 1000]" "sample_config Ordered_multipath []" "[]"]
    feedback_guard_single usable_sample by blast


end
