(* ===== verification/Config_Expansion.thy ===== *)
theory Config_Expansion
  imports Sched_Compiler
begin

text \<open>
  Expansion of a validated user configuration into the runtime contract
  (\<^verbatim>\<open>config/expansion.py\<close>, with the models of \<^verbatim>\<open>config/runtime.py\<close>): service ids are allocated, paths
  lose the transport overhead from their MTU, keys are decoded, and the service scheduling labels
  become numeric primitives. Dictionaries built by comprehension are built entry by entry, so a later
  duplicate key would overwrite an earlier one, as in the source.
\<close>

section \<open>Runtime models\<close>

record runtime_relay_hop =
  rrh_relay_receiver_index :: int
  rrh_send_key :: bytes

record runtime_path_config =
  rpc_name :: ustr
  rpc_interface :: ustr
  rpc_carrier :: carrier_kind
  rpc_source_ip :: "ustr option"
  rpc_gateway :: "ustr option"
  rpc_transport_bind :: "ustr option"
  rpc_transport_remote :: "ustr option"
  rpc_carrier_max_datagram_size :: "int option"
  rpc_scheduler :: runtime_path
  rpc_relay :: "runtime_relay_hop option"

record runtime_session =
  rse_name :: "ustr option"
  rse_local_receiver_index :: int
  rse_remote_receiver_index :: int
  rse_send_key :: bytes
  rse_receive_key :: bytes
  rse_service_ids :: "int list"

record runtime_security =
  rsec_mode :: security_mode
  rsec_source_mode :: security_mode
  rsec_receiver_index :: int
  rsec_local_receiver_index :: int
  rsec_remote_receiver_index :: int
  rsec_send_key :: "bytes option"
  rsec_receive_key :: "bytes option"
  rsec_local_node_id :: "ustr option"
  rsec_peer_node_id :: "ustr option"
  rsec_topology_generation :: "int option"
  rsec_session_role :: "security_session_role option"
  rsec_session_created_at :: "int option"
  rsec_session_expires_at :: "int option"
  rsec_rekey_after_packets :: "int option"
  rsec_rekey_after_bytes :: "int option"
  rsec_sessions :: "runtime_session list"

definition default_runtime_security :: "security_mode \<Rightarrow> security_mode \<Rightarrow> runtime_security" where
  "default_runtime_security mode source_mode =
     \<lparr> rsec_mode = mode, rsec_source_mode = source_mode, rsec_receiver_index = 1, rsec_local_receiver_index = 1,
       rsec_remote_receiver_index = 1, rsec_send_key = None, rsec_receive_key = None, rsec_local_node_id = None,
       rsec_peer_node_id = None, rsec_topology_generation = None, rsec_session_role = None,
       rsec_session_created_at = None, rsec_session_expires_at = None, rsec_rekey_after_packets = None,
       rsec_rekey_after_bytes = None, rsec_sessions = [] \<rparr>"

definition packet_overhead :: "runtime_security \<Rightarrow> int" where
  "packet_overhead s = (if rsec_mode s = Sec_static then 29 else 0)"

datatype wireguard_traffic = Wg_traffic_single | Wg_traffic_stable | Wg_traffic_fast

datatype runtime_helper =
    RuntimeWireGuard (rw_enabled: bool) (rw_profile: wireguard_mode) (rw_traffic: wireguard_traffic)
      (rw_service: ustr) (rw_service_target: ustr) (rw_service_listen: "ustr option")
  | RuntimeDns (rd_enabled: bool) (rd_listen: ustr) (rd_strategy: ustr) (rd_upstreams: "dns_upstream_config list")
  | RuntimeSocks5 (r5_enabled: bool) (r5_service: ustr) (r5_service_target: ustr) (r5_service_listen: "ustr option")
      (r5_listen: ustr) (r5_allow_hosts: "ustr list") (r5_allow_ports: "int list") (r5_connection_timeout_seconds: float64)
  | RuntimeTcpForward (rt_enabled: bool) (rt_service: ustr) (rt_service_target: ustr) (rt_service_listen: "ustr option")
      (rt_listen: ustr) (rt_target: ustr) (rt_connect_timeout_seconds: float64) (rt_idle_timeout_seconds: float64)

record runtime_config =
  rc_schema_version :: int
  rc_node :: ustr
  rc_role :: node_kind
  rc_peer :: "ustr option"
  rc_security :: runtime_security
  rc_paths :: "runtime_path_config list"
  rc_services :: "runtime_service list"
  rc_scheduler :: runtime_scheduler
  rc_helpers :: "runtime_helper list"

section \<open>Service ids\<close>

function next_free_id :: "int list \<Rightarrow> int \<Rightarrow> int" where
  "next_free_id explicit_ids n = (if n \<in> set explicit_ids then next_free_id explicit_ids (n + 1) else n)"
  by pat_completeness auto
termination
proof (relation "measure (\<lambda>(used, n). card {u \<in> set used. n \<le> u})")
  fix used :: "int list" and n
  assume "n \<in> set used"
  then have "n \<in> {u \<in> set used. n \<le> u} - {u \<in> set used. n + 1 \<le> u}" by simp
  then have "{u \<in> set used. n + 1 \<le> u} \<subset> {u \<in> set used. n \<le> u}" by force
  then have "card {u \<in> set used. n + 1 \<le> u} < card {u \<in> set used. n \<le> u}" by (intro psubset_card_mono) simp_all
  then show "((used, n + 1), used, n) \<in> measure (\<lambda>(used, n). card {u \<in> set used. n \<le> u})" by simp
qed simp

declare next_free_id.simps [simp del]

fun assign_ids :: "service_config list \<Rightarrow> int list \<Rightarrow> int \<Rightarrow> int list res" where
  "assign_ids [] explicit_ids next_service_id = Inr []"
| "assign_ids (service # services) explicit_ids next_service_id =
     (case sc_service_id service of
        Some i \<Rightarrow> rbind (assign_ids services explicit_ids next_service_id) (\<lambda>ids. Inr (i # ids))
      | None \<Rightarrow>
          let n = next_free_id explicit_ids next_service_id in
          if n > 65535 then Inl (ValueError ''too many services for the u16 user service id range'')
          else rbind (assign_ids services explicit_ids (n + 1)) (\<lambda>ids. Inr (n # ids)))"

definition allocate_service_ids :: "service_config list \<Rightarrow> int list res" where
  "allocate_service_ids services =
     assign_ids services (some_values (map sc_service_id services)) USER_SERVICE_ID_START"

section \<open>Service primitives\<close>

definition service_by_name :: "service_config list \<Rightarrow> (ustr, service_config) dict" where
  "service_by_name services = fold (\<lambda>s. dict_set (sc_name s) s) services []"

definition path_ids_by_name :: "path_config list \<Rightarrow> (ustr, int) dict" where
  "path_ids_by_name paths = fold (\<lambda>(i, p). dict_set (pc_name p) (int i)) (enumerate 0 paths) []"

definition service_traffic_class :: "gatherlink_config \<Rightarrow> service_config \<Rightarrow> traffic_class" where
  "service_traffic_class config service =
     (if sc_traffic_class service \<noteq> Class_unknown then sc_traffic_class service
      else case hc_wireguard (gc_helpers config) of
        None \<Rightarrow> Class_unknown
      | Some wireguard \<Rightarrow>
          if \<not> wg_enabled wireguard then Class_unknown
          else if wg_mode wireguard = Wg_dual_profile then
            (if Some (sc_name service) = wg_stable_service wireguard then Tcp_ordered
             else if Some (sc_name service) = wg_fast_service wireguard then Udp_bulk
             else Class_unknown)
          else if Some (sc_name service) = wg_service wireguard then Tcp_ordered
          else Class_unknown)"

definition service_scheduler_path_policy :: "service_config \<Rightarrow> scheduler_policy option \<Rightarrow> service_path_policy" where
  "service_scheduler_path_policy service effective_scheduler_mode =
     (if sc_path_policy_set service then sc_scheduler_path_policy service
      else if effective_scheduler_mode \<in> {Some Ordered_multipath, Some Ordered_multipath_capacity_aware, Some Single_best_path}
              \<and> service_is_protected (intent_of_config service)
      then Service_single_best_path
      else sc_scheduler_path_policy service)"

definition default_single_best_path_id :: "gatherlink_config \<Rightarrow> int res" where
  "default_single_best_path_id config =
     (let paths = gc_paths config;
          active = filter (\<lambda>i. ps_enabled (pc_scheduler (paths ! i)) \<and> ps_state (pc_scheduler (paths ! i)) = Active)
                     [0..<length paths];
          eligible = (if active = [] then [0..<length paths] else active);
          key = (\<lambda>i. let s = pc_scheduler (paths ! i) in
                     (- or_int (ps_tx_capacity_bps s) 0, ps_loss_ppm s,
                      case ps_latency_us s of None \<Rightarrow> 2 ^ 31 - 1 | Some l \<Rightarrow> l, i))
      in case eligible of
           [] \<Rightarrow> Inl (ValueError ''min() iterable argument is empty'')
         | i # is \<Rightarrow> Inr (int (min_by key i is)))"

definition service_allowed_path_ids ::
  "gatherlink_config \<Rightarrow> service_config \<Rightarrow> scheduler_policy option \<Rightarrow> int list res" where
  "service_allowed_path_ids config service effective_scheduler_mode =
     (if sc_scheduler_allowed_paths service = [] then
        (if service_scheduler_path_policy service effective_scheduler_mode = Service_single_best_path
         then rbind (default_single_best_path_id config) (\<lambda>i. Inr [i])
         else Inr [])
      else
        let ids = path_ids_by_name (gc_paths config) in
        if \<exists>name\<in>set (sc_scheduler_allowed_paths service). dict_get ids name = None
        then Inl (ValueError ''service references unknown scheduler_allowed_paths'')
        else Inr (map (\<lambda>name. the (dict_get ids name)) (sc_scheduler_allowed_paths service)))"

definition service_path_weight ::
  "service_config \<Rightarrow> (ustr, int) dict \<Rightarrow> ustr \<times> int \<Rightarrow> (int \<times> int) list \<Rightarrow> (int \<times> int) list res" where
  "service_path_weight service ids = (\<lambda>(path_name, weight) compiled.
     (case dict_get ids path_name of
        None \<Rightarrow> Inl (ValueError ''service references unknown scheduler_path_weights path'')
      | Some i \<Rightarrow>
          if sc_scheduler_allowed_paths service \<noteq> [] \<and> path_name \<notin> set (sc_scheduler_allowed_paths service)
          then Inl (ValueError ''scheduler_path_weights contains a path which is not in scheduler_allowed_paths'')
          else if weight < 1 \<or> weight > 65535
          then Inl (ValueError ''scheduler_path_weights must be in range 1..65535'')
          else Inr (compiled @ [(i, weight)])))"

definition service_path_weights :: "gatherlink_config \<Rightarrow> service_config \<Rightarrow> (int \<times> int) list res" where
  "service_path_weights config service =
     (if sc_scheduler_path_weights service = [] then Inr []
      else foreach (service_path_weight service (path_ids_by_name (gc_paths config))) (sc_scheduler_path_weights service) [])"

definition service_effective_mode :: "gatherlink_config \<Rightarrow> scheduler_policy option \<Rightarrow> scheduler_policy" where
  "service_effective_mode config effective_scheduler_mode =
     (case effective_scheduler_mode of None \<Rightarrow> sch_mode (gc_scheduler config) | Some m \<Rightarrow> m)"

definition flowlet_default :: "gatherlink_config \<Rightarrow> scheduler_policy option \<Rightarrow> int \<Rightarrow> int \<Rightarrow> int" where
  "flowlet_default config effective_scheduler_mode configured default_value =
     (if configured \<noteq> 0 then configured
      else if service_effective_mode config effective_scheduler_mode = Flowlet_adaptive then default_value
      else 0)"

definition service_flowlet_idle_us :: "gatherlink_config \<Rightarrow> service_config \<Rightarrow> scheduler_policy option \<Rightarrow> int" where
  "service_flowlet_idle_us config service mode = flowlet_default config mode (sc_scheduler_flowlet_idle_us service) 25000"

definition service_flowlet_max_hold_us :: "gatherlink_config \<Rightarrow> service_config \<Rightarrow> scheduler_policy option \<Rightarrow> int" where
  "service_flowlet_max_hold_us config service mode = flowlet_default config mode (sc_scheduler_flowlet_max_hold_us service) 100000"

definition service_path_run_datagrams :: "gatherlink_config \<Rightarrow> service_config \<Rightarrow> scheduler_policy option \<Rightarrow> int" where
  "service_path_run_datagrams config service mode = flowlet_default config mode (sc_scheduler_path_run_datagrams service) 4"

record scheduler_primitives =
  sp_fanout :: int
  sp_fanout_below_bytes :: int
  sp_flowlet_idle_us :: int
  sp_flowlet_max_hold_us :: int
  sp_path_run_datagrams :: int
  sp_path_policy :: service_path_policy
  sp_allowed_path_ids :: "int list"
  sp_path_weights :: "(int \<times> int) list"

definition compile_service_scheduler_primitives ::
  "gatherlink_config \<Rightarrow> service_config \<Rightarrow> scheduler_policy option \<Rightarrow> scheduler_primitives res" where
  "compile_service_scheduler_primitives config service mode =
     rbind (service_allowed_path_ids config service mode) (\<lambda>allowed.
       rbind (service_path_weights config service) (\<lambda>weights.
         Inr \<lparr> sp_fanout = sc_scheduler_fanout service,
               sp_fanout_below_bytes = sc_scheduler_fanout_below_bytes service,
               sp_flowlet_idle_us = service_flowlet_idle_us config service mode,
               sp_flowlet_max_hold_us = service_flowlet_max_hold_us config service mode,
               sp_path_run_datagrams = service_path_run_datagrams config service mode,
               sp_path_policy = service_scheduler_path_policy service mode,
               sp_allowed_path_ids = allowed, sp_path_weights = weights \<rparr>))"

definition expand_service ::
  "gatherlink_config \<Rightarrow> scheduler_policy option \<Rightarrow> int \<Rightarrow> service_config \<Rightarrow> runtime_service res" where
  "expand_service config mode service_id service =
     rbind (compile_service_scheduler_primitives config service mode) (\<lambda>prims.
         Inr \<lparr> rs_service_id = service_id, rs_service_id_explicit = (sc_service_id service \<noteq> None),
               rs_name = sc_name service, rs_target = sc_target service, rs_listen = sc_listen service,
               rs_priority = sc_priority service, rs_priority_value = compile_service_priority (sc_priority service),
               rs_traffic_class = service_traffic_class config service, rs_return_mode = sc_return_mode service,
               rs_scheduler_fanout = sp_fanout prims,
               rs_scheduler_fanout_below_bytes = sp_fanout_below_bytes prims,
               rs_scheduler_flowlet_idle_us = sp_flowlet_idle_us prims,
               rs_scheduler_flowlet_max_hold_us = sp_flowlet_max_hold_us prims,
               rs_scheduler_poll_batch_packets = sc_scheduler_poll_batch_packets service,
               rs_scheduler_path_run_datagrams = sp_path_run_datagrams prims,
               rs_scheduler_path_policy = sp_path_policy prims,
               rs_scheduler_allowed_path_ids = sp_allowed_path_ids prims,
               rs_scheduler_path_weights = sp_path_weights prims \<rparr>)"

fun expand_services ::
  "gatherlink_config \<Rightarrow> scheduler_policy option \<Rightarrow> service_config list \<Rightarrow> int list \<Rightarrow> runtime_service list res" where
  "expand_services config mode [] ids = Inr []"
| "expand_services config mode (service # services) [] = Inl IndexError"
| "expand_services config mode (service # services) (i # ids) =
     rbind (expand_service config mode i service) (\<lambda>r.
       rbind (expand_services config mode services ids) (\<lambda>rs. Inr (r # rs)))"

section \<open>Security and paths\<close>

definition lookup_id :: "(ustr, int) dict \<Rightarrow> ustr \<Rightarrow> int res" where
  "lookup_id ids name = (case dict_get ids name of None \<Rightarrow> Inl KeyError | Some i \<Rightarrow> Inr i)"

definition expand_session :: "(ustr, int) dict \<Rightarrow> security_session_config \<Rightarrow> runtime_session res" where
  "expand_session ids session =
     rbind (b64decode_validate (ss_send_key session)) (\<lambda>send_key.
       rbind (b64decode_validate (ss_receive_key session)) (\<lambda>receive_key.
         rbind (map_res (lookup_id ids) (ss_services session)) (\<lambda>service_ids.
           Inr \<lparr> rse_name = ss_name session, rse_local_receiver_index = ss_local_receiver_index session,
                 rse_remote_receiver_index = ss_remote_receiver_index session, rse_send_key = send_key,
                 rse_receive_key = receive_key, rse_service_ids = service_ids \<rparr>)))"

definition expand_security :: "security_config \<Rightarrow> (ustr, int) dict \<Rightarrow> runtime_security res" where
  "expand_security s ids =
     (if sec_mode s = Sec_none then Inr (default_runtime_security Sec_none Sec_none)
      else if sec_sessions s \<noteq> [] then
        rbind (map_res (expand_session ids) (sec_sessions s)) (\<lambda>sessions.
          Inr (default_runtime_security Sec_static (sec_mode s)\<lparr> rsec_sessions := sessions \<rparr>))
      else case (sec_send_key s, sec_receive_key s) of
        (Some send, Some receive) \<Rightarrow>
          rbind (b64decode_validate send) (\<lambda>send_key.
            rbind (b64decode_validate receive) (\<lambda>receive_key.
              Inr \<lparr> rsec_mode = (if sec_mode s = Sec_authenticated then Sec_static else sec_mode s),
                    rsec_source_mode = sec_mode s, rsec_receiver_index = sec_receiver_index s,
                    rsec_local_receiver_index = or_int (sec_local_receiver_index s) (sec_receiver_index s),
                    rsec_remote_receiver_index = or_int (sec_remote_receiver_index s) (sec_receiver_index s),
                    rsec_send_key = Some send_key, rsec_receive_key = Some receive_key,
                    rsec_local_node_id = sec_local_node_id s, rsec_peer_node_id = sec_peer_node_id s,
                    rsec_topology_generation = sec_topology_generation s, rsec_session_role = sec_session_role s,
                    rsec_session_created_at = sec_session_created_at s, rsec_session_expires_at = sec_session_expires_at s,
                    rsec_rekey_after_packets = sec_rekey_after_packets s,
                    rsec_rekey_after_bytes = sec_rekey_after_bytes s, rsec_sessions = [] \<rparr>))
      | _ \<Rightarrow> Inl (ValueError ''security.mode requires send_key and receive_key''))"

definition expand_relay :: "relay_hop_config option \<Rightarrow> runtime_relay_hop option res" where
  "expand_relay relay =
     (case relay of
        None \<Rightarrow> Inr None
      | Some r \<Rightarrow>
          rbind (b64decode_validate (rh_send_key r)) (\<lambda>key.
            Inr (Some \<lparr> rrh_relay_receiver_index = rh_relay_receiver_index r, rrh_send_key = key \<rparr>)))"

definition expand_path :: "runtime_security \<Rightarrow> path_config \<Rightarrow> runtime_path \<Rightarrow> runtime_path_config res" where
  "expand_path security path scheduler =
     (let overhead = packet_overhead security in
      if overhead \<noteq> 0 \<and> rp_mtu scheduler \<le> overhead
      then Inl (ValueError ''path MTU cannot carry security overhead'')
      else
        let scheduler' = (if overhead \<noteq> 0 then scheduler\<lparr> rp_mtu := rp_mtu scheduler - overhead \<rparr> else scheduler)
        in rbind (expand_relay (pc_relay path)) (\<lambda>relay.
             Inr \<lparr> rpc_name = pc_name path, rpc_interface = pc_interface path, rpc_carrier = pc_carrier path,
                   rpc_source_ip = pc_source_ip path, rpc_gateway = pc_gateway path,
                   rpc_transport_bind = pc_transport_bind path, rpc_transport_remote = pc_transport_remote path,
                   rpc_carrier_max_datagram_size = pc_carrier_max_datagram_size path, rpc_scheduler = scheduler',
                   rpc_relay = relay \<rparr>))"

fun expand_paths ::
  "runtime_security \<Rightarrow> path_config list \<Rightarrow> runtime_path list \<Rightarrow> runtime_path_config list res" where
  "expand_paths security [] scheds = Inr []"
| "expand_paths security (path # paths) [] = Inl IndexError"
| "expand_paths security (path # paths) (s # scheds) =
     rbind (expand_path security path s) (\<lambda>r.
       rbind (expand_paths security paths scheds) (\<lambda>rs. Inr (r # rs)))"

section \<open>Helpers and the whole configuration\<close>

definition lookup_service :: "(ustr, service_config) dict \<Rightarrow> ustr \<Rightarrow> service_config res" where
  "lookup_service services name = (case dict_get services name of None \<Rightarrow> Inl KeyError | Some s \<Rightarrow> Inr s)"

definition expand_wireguard_service ::
  "(ustr, service_config) dict \<Rightarrow> wireguard_helper_config \<Rightarrow> wireguard_traffic \<Rightarrow> ustr option \<Rightarrow> runtime_helper list res" where
  "expand_wireguard_service services w traffic service_name =
     (case service_name of
        None \<Rightarrow> Inr []
      | Some name \<Rightarrow>
          rbind (lookup_service services name) (\<lambda>s.
            Inr [RuntimeWireGuard (wg_enabled w) (wg_mode w) traffic (sc_name s) (sc_target s) (sc_listen s)]))"

definition expand_wireguard ::
  "(ustr, service_config) dict \<Rightarrow> wireguard_helper_config \<Rightarrow> runtime_helper list res" where
  "expand_wireguard services w =
     (if wg_mode w = Wg_dual_profile then
        rbind (expand_wireguard_service services w Wg_traffic_stable (wg_stable_service w)) (\<lambda>stable.
          rbind (expand_wireguard_service services w Wg_traffic_fast (wg_fast_service w)) (\<lambda>fast.
            Inr (stable @ fast)))
      else expand_wireguard_service services w Wg_traffic_single (wg_service w))"

definition expand_helpers :: "gatherlink_config \<Rightarrow> runtime_helper list res" where
  "expand_helpers config =
     (let services = service_by_name (gc_services config); h = gc_helpers config in
      rbind (case hc_wireguard h of None \<Rightarrow> Inr [] | Some w \<Rightarrow> expand_wireguard services w) (\<lambda>wireguard.
        let dns = (case hc_dns h of None \<Rightarrow> []
                   | Some d \<Rightarrow> [RuntimeDns (dh_enabled d) (dh_listen d) (dh_strategy d) (dh_upstreams d)]) in
        rbind (case hc_socks5 h of None \<Rightarrow> Inr []
               | Some s5 \<Rightarrow> rbind (lookup_service services (s5_service s5)) (\<lambda>s.
                   Inr [RuntimeSocks5 (s5_enabled s5) (s5_service s5) (sc_target s) (sc_listen s) (s5_listen s5)
                          (s5_allow_hosts s5) (s5_allow_ports s5) (s5_connection_timeout_seconds s5)])) (\<lambda>socks5.
          rbind (case hc_tcp_forward h of None \<Rightarrow> Inr []
                 | Some t \<Rightarrow> rbind (lookup_service services (tf_service t)) (\<lambda>s.
                     Inr [RuntimeTcpForward (tf_enabled t) (tf_service t) (sc_target s) (sc_listen s) (tf_listen t)
                            (tf_target t) (tf_connect_timeout_seconds t) (tf_idle_timeout_seconds t)])) (\<lambda>tcp.
            Inr (wireguard @ dns @ socks5 @ tcp)))))"

definition service_ids_by_name :: "service_config list \<Rightarrow> int list \<Rightarrow> (ustr, int) dict" where
  "service_ids_by_name services ids = fold (\<lambda>(s, i). dict_set (sc_name s) i) (zip services ids) []"

definition expand_config :: "gatherlink_config \<Rightarrow> runtime_config res" where
  "expand_config config =
     rbind (compile_scheduler config None None None) (\<lambda>(_, scheduler).
       rbind (allocate_service_ids (gc_services config)) (\<lambda>service_ids.
         rbind (expand_security (gc_security config) (service_ids_by_name (gc_services config) service_ids)) (\<lambda>security.
           rbind (expand_paths security (gc_paths config) (rsch_paths scheduler)) (\<lambda>paths.
             rbind (expand_services config (Some (sch_mode (gc_scheduler config))) (gc_services config) service_ids) (\<lambda>services.
               rbind (expand_helpers config) (\<lambda>helpers.
                 Inr \<lparr> rc_schema_version = gc_schema_version config, rc_node = gc_node config, rc_role = gc_role config,
                       rc_peer = gc_peer config, rc_security = security, rc_paths = paths, rc_services = services,
                       rc_scheduler = scheduler, rc_helpers = helpers \<rparr>))))))"

section \<open>Dictionaries built by comprehension\<close>

lemma path_ids_None: "dict_get (path_ids_by_name paths) n = None \<longleftrightarrow> n \<notin> pc_name ` set paths"
proof -
  have "(\<lambda>x. pc_name (snd x)) ` set (enumerate 0 paths) = pc_name ` (snd ` set (enumerate 0 paths))" by (simp add: image_image)
  also have "snd ` set (enumerate 0 paths) = set paths" by (metis list.set_map map_snd_enumerate)
  finally show ?thesis by (simp add: path_ids_by_name_def case_prod_unfold dict_comp_None)
qed

lemma path_ids_Some:
  assumes "dict_get (path_ids_by_name paths) n = Some i"
  shows "0 \<le> i \<and> i < int (length paths)"
proof -
  obtain x where "x \<in> set (enumerate 0 paths)" "int (fst x) = i"
    using dict_comp_Some [of "\<lambda>x. pc_name (snd x)" "\<lambda>x. int (fst x)" "enumerate 0 paths" "[]" n i] assms
    by (auto simp: path_ids_by_name_def case_prod_unfold)
  then show ?thesis by (auto simp: in_set_enumerate_eq)
qed

lemma service_lookup: "n \<in> sc_name ` set services \<Longrightarrow> \<exists>s. lookup_service (service_by_name services) n = Inr s"
  using dict_comp_None [of sc_name "\<lambda>s. s" services "[]" n]
  by (cases "dict_get (service_by_name services) n") (auto simp: lookup_service_def service_by_name_def)

lemma service_id_lookup:
  assumes "n \<in> sc_name ` set services" and "length ids = length services"
  shows "\<exists>i\<in>set ids. lookup_id (service_ids_by_name services ids) n = Inr i"
proof -
  have "(\<lambda>x. sc_name (fst x)) ` set (zip services ids) = sc_name ` set (map fst (zip services ids))" by force
  also have "\<dots> = sc_name ` set services" using assms(2) by simp
  finally have "dict_get (service_ids_by_name services ids) n \<noteq> None"
    using assms(1) by (simp add: service_ids_by_name_def case_prod_unfold dict_comp_None)
  then obtain i where i: "dict_get (service_ids_by_name services ids) n = Some i" by blast
  then have "\<exists>x\<in>set (zip services ids). snd x = i"
    using dict_comp_Some [of "\<lambda>x. sc_name (fst x)" snd "zip services ids" "[]" n i]
    by (auto simp: service_ids_by_name_def case_prod_unfold)
  then show ?thesis using i by (auto simp: lookup_id_def dest: set_zip_rightD)
qed

section \<open>Service ids\<close>

lemma next_free_id_spec:
  "n \<le> next_free_id used n \<and> next_free_id used n \<notin> set used \<and> {n..<next_free_id used n} \<subseteq> set used"
proof (induction used n rule: next_free_id.induct)
  case (1 used n)
  show ?case
  proof (cases "n \<in> set used")
    case True
    have "{n..<next_free_id used (n + 1)} \<subseteq> insert n {n + 1..<next_free_id used (n + 1)}" by auto
    then show ?thesis using 1 [OF True] True by (auto simp: next_free_id.simps [of used n])
  qed (simp add: next_free_id.simps)
qed

definition keeps_explicit :: "service_config \<Rightarrow> int \<Rightarrow> bool" where
  "keeps_explicit s i \<longleftrightarrow> sc_service_id s = None \<or> sc_service_id s = Some i"

definition automatic :: "service_config list \<Rightarrow> service_config list" where
  "automatic services = filter (\<lambda>s. sc_service_id s = None) services"

lemma automatic_simps [simp]:
  "automatic [] = []"
  "automatic (s # ss) = (if sc_service_id s = None then s # automatic ss else automatic ss)"
  by (simp_all add: automatic_def)

lemma free_after:
  fixes used :: "int list"
  assumes "n' = next_free_id used n" and "n' \<le> 65535"
  shows "{n..65535} - set used = insert n' ({n' + 1..65535} - set used)"
proof -
  have *: "n \<le> n'" "n' \<notin> set used" "{n..<n'} \<subseteq> set used" using next_free_id_spec [of n used] assms(1) by auto
  have "{n..65535} = {n..<n'} \<union> insert n' {n' + 1..65535}" using *(1) assms(2) by auto
  then show ?thesis using *(2,3) by auto
qed

lemma assign_ids_total:
  assumes "set (some_values (map sc_service_id services)) \<subseteq> set used"
    and "distinct (some_values (map sc_service_id services))"
    and "length (automatic services) \<le> card ({n..65535} - set used)"
  shows "\<exists>ids. assign_ids services used n = Inr ids \<and> list_all2 keeps_explicit services ids \<and> distinct ids \<and>
    set ids \<subseteq> set (some_values (map sc_service_id services)) \<union> ({n..65535} - set used)"
  using assms
proof (induction services arbitrary: n)
  case (Cons s ss)
  show ?case
  proof (cases "sc_service_id s")
    case (Some i)
    then obtain ids where ids: "assign_ids ss used n = Inr ids" "list_all2 keeps_explicit ss ids" "distinct ids"
      "set ids \<subseteq> set (some_values (map sc_service_id ss)) \<union> ({n..65535} - set used)"
      using Cons.IH [of n] Cons.prems by auto
    have "i \<notin> set ids" using ids(4) Cons.prems(1,2) Some by auto
    moreover have "keeps_explicit s i" using Some by (simp add: keeps_explicit_def)
    ultimately show ?thesis using ids Some by auto
  next
    case None
    define n' where "n' = next_free_id used n"
    have spec: "n \<le> n'" "n' \<notin> set used" "{n..<n'} \<subseteq> set used"
      using next_free_id_spec [of n used] by (auto simp: n'_def)
    have "n' \<le> 65535"
    proof (rule ccontr)
      assume "\<not> n' \<le> 65535"
      then have "{n..65535} \<subseteq> set used" using spec(3) by auto
      then have "{n..65535} - set used = {}" by auto
      then have "card ({n..65535} - set used) = 0" by (simp only: card.empty)
      then have "length (automatic (s # ss)) = 0" using Cons.prems(3) by linarith
      then show False using None by simp
    qed
    note free = free_after [OF n'_def this]
    have "length (automatic ss) \<le> card ({n' + 1..65535} - set used)"
      using Cons.prems(3) None by (simp add: free)
    then obtain ids where ids: "assign_ids ss used (n' + 1) = Inr ids" "list_all2 keeps_explicit ss ids" "distinct ids"
      "set ids \<subseteq> set (some_values (map sc_service_id ss)) \<union> ({n' + 1..65535} - set used)"
      using Cons.IH [of "n' + 1"] Cons.prems(1,2) None by auto
    have "n' \<notin> set ids" using ids(4) Cons.prems(1) spec(2) None by auto
    moreover have "set (n' # ids) \<subseteq> set (some_values (map sc_service_id (s # ss))) \<union> ({n..65535} - set used)"
      using ids(4) None by (auto simp: free)
    moreover have "assign_ids (s # ss) used n = Inr (n' # ids)"
      using ids(1) None \<open>n' \<le> 65535\<close> by (simp add: n'_def [symmetric])
    moreover have "keeps_explicit s n'" using None by (simp add: keeps_explicit_def)
    ultimately show ?thesis using ids(2,3) by (intro exI [of _ "n' # ids"] conjI) simp_all
  qed
qed simp

lemma automatic_count: "length (automatic services) + length (some_values (map sc_service_id services)) = length services"
proof (induction services)
  case (Cons s ss)
  then show ?case by (cases "sc_service_id s") simp_all
qed simp

lemma assign_ids_fails:
  "card ({n..65535} - set used) < length (automatic services) \<Longrightarrow> \<exists>e. assign_ids services used n = Inl e"
proof (induction services arbitrary: n)
  case (Cons s ss)
  show ?case
  proof (cases "sc_service_id s")
    case (Some i)
    then show ?thesis using Cons by (auto simp: rbind_eq_Inl)
  next
    case None
    define n' where "n' = next_free_id used n"
    show ?thesis
    proof (cases "n' \<le> 65535")
      case True
      then have "card ({n' + 1..65535} - set used) < length (automatic ss)"
        using Cons.prems None by (simp add: free_after [OF n'_def])
      then obtain e where "assign_ids ss used (n' + 1) = Inl e" using Cons.IH by blast
      then show ?thesis using None True by (simp add: n'_def [symmetric])
    qed (use None in \<open>simp add: n'_def [symmetric]\<close>)
  qed
qed simp

lemma free_ids_count:
  fixes used :: "int list"
  assumes "distinct used" and "set used \<subseteq> {256..65535}"
  shows "card ({256..65535} - set used) + length used = 65280"
proof -
  have "card (set used) \<le> card {256..65535 :: int}" using assms(2) by (intro card_mono) simp_all
  then have "length used \<le> 65280" using assms(1) by (simp add: distinct_card)
  then show ?thesis using assms by (simp add: card_Diff_subset distinct_card)
qed

lemma allocate_service_ids_spec:
  assumes "distinct (some_values (map sc_service_id services))"
    and "set (some_values (map sc_service_id services)) \<subseteq> {USER_SERVICE_ID_START..65535}"
  shows "if length services \<le> 65280
    then \<exists>ids. allocate_service_ids services = Inr ids \<and> distinct ids \<and> set ids \<subseteq> {USER_SERVICE_ID_START..65535} \<and>
      list_all2 keeps_explicit services ids
    else \<exists>e. allocate_service_ids services = Inl e"
proof -
  define used where "used = some_values (map sc_service_id services)"
  have d: "distinct used" and range: "set used \<subseteq> {256..65535}" using assms by (simp_all add: used_def const_simps)
  have count: "length (automatic services) \<le> card ({256..65535} - set used) \<longleftrightarrow> length services \<le> 65280"
    using automatic_count [of services] free_ids_count [OF d range] unfolding used_def by linarith
  show ?thesis
  proof (cases "length services \<le> 65280")
    case True
    then obtain ids where "assign_ids services used 256 = Inr ids" "list_all2 keeps_explicit services ids" "distinct ids"
      "set ids \<subseteq> set used \<union> ({256..65535} - set used)"
      using assign_ids_total [of services used 256] d count by (auto simp: used_def)
    then show ?thesis using True range by (auto simp: allocate_service_ids_def used_def const_simps)
  next
    case False
    then have "card ({256..65535} - set used) < length (automatic services)" using count by linarith
    then show ?thesis using assign_ids_fails False by (simp add: allocate_service_ids_def used_def const_simps)
  qed
qed

lemma explicit_ids_range:
  assumes "config_ok config"
  shows "set (some_values (map sc_service_id (gc_services config))) \<subseteq> {USER_SERVICE_ID_START..65535}"
proof
  fix i
  assume "i \<in> set (some_values (map sc_service_id (gc_services config)))"
  then obtain s where "s \<in> set (gc_services config)" "sc_service_id s = Some i" by (auto simp: set_some_values)
  then show "i \<in> {USER_SERVICE_ID_START..65535}"
    using config_okD(2) [OF assms, of s] by (simp add: service_fields_ok_def opt_range_def)
qed

lemma allocate_service_ids_total:
  assumes "config_ok config"
  shows "\<exists>ids. allocate_service_ids (gc_services config) = Inr ids \<and> distinct ids \<and>
    set ids \<subseteq> {USER_SERVICE_ID_START..65535} \<and> list_all2 keeps_explicit (gc_services config) ids"
  using allocate_service_ids_spec [OF config_okD(5) [OF assms] explicit_ids_range [OF assms]] config_okD(4) [OF assms]
  by simp

section \<open>Service references\<close>

definition weight_ref_ok :: "gatherlink_config \<Rightarrow> service_config \<Rightarrow> ustr \<times> int \<Rightarrow> bool" where
  "weight_ref_ok config service = (\<lambda>(n, w).
     n \<in> pc_name ` set (gc_paths config) \<and>
     (sc_scheduler_allowed_paths service = [] \<or> n \<in> set (sc_scheduler_allowed_paths service)) \<and> 1 \<le> w \<and> w \<le> 65535)"

definition allowed_refs_ok :: "gatherlink_config \<Rightarrow> service_config \<Rightarrow> bool" where
  "allowed_refs_ok config service \<longleftrightarrow>
     set (sc_scheduler_allowed_paths service) \<subseteq> pc_name ` set (gc_paths config) \<and>
     (sc_scheduler_allowed_paths service = [] \<and>
      service_scheduler_path_policy service (Some (sch_mode (gc_scheduler config))) = Service_single_best_path
      \<longrightarrow> gc_paths config \<noteq> [])"

definition service_refs_ok :: "gatherlink_config \<Rightarrow> service_config \<Rightarrow> bool" where
  "service_refs_ok config service \<longleftrightarrow>
     allowed_refs_ok config service \<and> list_all (weight_ref_ok config service) (sc_scheduler_path_weights service)"

abbreviation path_id_of :: "gatherlink_config \<Rightarrow> int \<Rightarrow> bool" where
  "path_id_of config i \<equiv> 0 \<le> i \<and> i < int (length (gc_paths config))"

lemma default_single_best_range:
  assumes "default_single_best_path_id config = Inr i"
  shows "path_id_of config i"
proof -
  define key where "key = (\<lambda>i. let s = pc_scheduler (gc_paths config ! i) in
    (- or_int (ps_tx_capacity_bps s) 0, ps_loss_ppm s, case ps_latency_us s of None \<Rightarrow> 2 ^ 31 - 1 | Some l \<Rightarrow> l, i))"
  define active where "active = filter (\<lambda>i. ps_enabled (pc_scheduler (gc_paths config ! i)) \<and>
    ps_state (pc_scheduler (gc_paths config ! i)) = Active) [0..<length (gc_paths config)]"
  define eligible where "eligible = (if active = [] then [0..<length (gc_paths config)] else active)"
  have "default_single_best_path_id config = (case eligible of
      [] \<Rightarrow> Inl (ValueError ''min() iterable argument is empty'') | i # is \<Rightarrow> Inr (int (min_by key i is)))"
    by (simp only: default_single_best_path_id_def Let_def key_def eligible_def active_def)
  then obtain j js where e: "eligible = j # js" "i = int (min_by key j js)"
    using assms by (cases eligible) simp_all
  have "min_by key j js \<in> set eligible" using min_by_in [of key j js] e by simp
  also have "set eligible \<subseteq> {0..<length (gc_paths config)}" by (auto simp: eligible_def active_def)
  finally show ?thesis using e(2) by simp
qed

lemma default_single_best_total:
  "(\<exists>i. default_single_best_path_id config = Inr i) \<longleftrightarrow> gc_paths config \<noteq> []"
  by (auto simp: default_single_best_path_id_def Let_def split: list.split)

lemma allowed_path_ids_iff:
  "(\<exists>ids. service_allowed_path_ids config service (Some (sch_mode (gc_scheduler config))) = Inr ids)
     \<longleftrightarrow> allowed_refs_ok config service"
proof (cases "sc_scheduler_allowed_paths service = []")
  case True
  then show ?thesis
    using default_single_best_total [of config]
    by (auto simp: service_allowed_path_ids_def allowed_refs_ok_def rbind_eq_Inr)
next
  case False
  then show ?thesis
    by (auto simp: service_allowed_path_ids_def allowed_refs_ok_def path_ids_None)
qed

lemma allowed_path_ids_range:
  assumes "service_allowed_path_ids config service mode = Inr ids" and "i \<in> set ids"
  shows "path_id_of config i"
proof (cases "sc_scheduler_allowed_paths service = []")
  case True
  then show ?thesis
    using assms default_single_best_range
    by (auto simp: service_allowed_path_ids_def rbind_eq_Inr split: if_split_asm)
next
  case False
  then obtain n where "n \<in> set (sc_scheduler_allowed_paths service)"
    "dict_get (path_ids_by_name (gc_paths config)) n \<noteq> None" "i = the (dict_get (path_ids_by_name (gc_paths config)) n)"
    using assms by (auto simp: service_allowed_path_ids_def Let_def split: if_split_asm)
  then show ?thesis using path_ids_Some [of "gc_paths config" n i] by auto
qed

lemma service_path_weight_iff:
  "(\<exists>out. service_path_weight service (path_ids_by_name (gc_paths config)) x acc = Inr out) \<longleftrightarrow> weight_ref_ok config service x"
proof -
  obtain n w where x: "x = (n, w)" by (rule prod.exhaust)
  show ?thesis
  proof (cases "dict_get (path_ids_by_name (gc_paths config)) n")
    case None
    then have "n \<notin> pc_name ` set (gc_paths config)" by (simp only: path_ids_None [symmetric] simp_thms)
    then show ?thesis using None by (simp add: x service_path_weight_def weight_ref_ok_def)
  next
    case (Some i)
    then have "n \<in> pc_name ` set (gc_paths config)" using path_ids_None by (metis option.distinct(1))
    then show ?thesis using Some by (auto simp: x service_path_weight_def weight_ref_ok_def)
  qed
qed

lemma service_path_weights_iff:
  "(\<exists>ws. service_path_weights config service = Inr ws) \<longleftrightarrow>
     list_all (weight_ref_ok config service) (sc_scheduler_path_weights service)"
  using foreach_total_iff [of "service_path_weight service (path_ids_by_name (gc_paths config))"
      "weight_ref_ok config service" "sc_scheduler_path_weights service" "[]"] service_path_weight_iff
  by (auto simp: service_path_weights_def)

lemma service_path_weights_range:
  assumes "service_path_weights config service = Inr ws" and "(i, w) \<in> set ws"
  shows "path_id_of config i \<and> 1 \<le> w \<and> w \<le> 65535"
proof -
  define P where "P ws \<longleftrightarrow> (\<forall>(i, w)\<in>set ws. path_id_of config i \<and> 1 \<le> w \<and> w \<le> 65535)" for ws :: "(int \<times> int) list"
  have "P acc'" if "P acc" "service_path_weight service (path_ids_by_name (gc_paths config)) x acc = Inr acc'" for x acc acc'
    using that path_ids_Some [of "gc_paths config" "fst x"]
    by (cases x) (auto simp: service_path_weight_def P_def split: option.split_asm if_split_asm)
  then have "P ws"
    using assms(1) foreach_inv [of "service_path_weight service (path_ids_by_name (gc_paths config))"
        "sc_scheduler_path_weights service" "[]" ws P]
    by (auto simp: service_path_weights_def P_def split: if_split_asm)
  then show ?thesis using assms(2) by (auto simp: P_def)
qed

definition service_from :: "gatherlink_config \<Rightarrow> service_config \<Rightarrow> runtime_service \<Rightarrow> bool" where
  "service_from config s r \<longleftrightarrow>
     rs_name r = sc_name s \<and> keeps_explicit s (rs_service_id r) \<and>
     (\<forall>i\<in>set (rs_scheduler_allowed_path_ids r). path_id_of config i) \<and>
     (\<forall>(i, w)\<in>set (rs_scheduler_path_weights r). path_id_of config i \<and> 1 \<le> w \<and> w \<le> 65535)"

abbreviation configured_mode :: "gatherlink_config \<Rightarrow> scheduler_policy option" where
  "configured_mode config \<equiv> Some (sch_mode (gc_scheduler config))"

lemma expand_service_iff:
  "(\<exists>r. expand_service config (configured_mode config) i service = Inr r) \<longleftrightarrow> service_refs_ok config service"
  using allowed_path_ids_iff [of config service] service_path_weights_iff [of config service]
  by (auto simp: expand_service_def compile_service_scheduler_primitives_def service_refs_ok_def rbind_eq_Inr)

lemma expand_service_from:
  assumes "expand_service config mode i service = Inr r" and "keeps_explicit service i"
  shows "service_from config service r \<and> rs_service_id r = i"
  using assms allowed_path_ids_range [of config service mode] service_path_weights_range [of config service]
  by (auto simp: expand_service_def compile_service_scheduler_primitives_def service_from_def rbind_eq_Inr)

lemma expand_services_iff:
  "length ids = length services \<Longrightarrow>
     (\<exists>rs. expand_services config (configured_mode config) services ids = Inr rs) \<longleftrightarrow> list_all (service_refs_ok config) services"
proof (induction ids services rule: list_induct2)
  case (Cons i ids s ss)
  then show ?case using expand_service_iff [of config i s] by (auto simp: rbind_eq_Inr)
qed simp

lemma expand_services_from:
  "list_all2 keeps_explicit services ids \<Longrightarrow> expand_services config mode services ids = Inr rs \<Longrightarrow>
     list_all2 (service_from config) services rs \<and> map rs_service_id rs = ids"
proof (induction services ids arbitrary: rs rule: list_all2_induct)
  case (Cons s ss i ids)
  then obtain r rs' where "rs = r # rs'" "expand_service config mode i s = Inr r" "expand_services config mode ss ids = Inr rs'"
    by (auto simp: rbind_eq_Inr)
  then show ?case using Cons expand_service_from [of config mode i s r] by auto
qed simp

section \<open>Security, paths and helpers never raise on a validated configuration\<close>

definition session_expanded :: "int list \<Rightarrow> runtime_session \<Rightarrow> bool" where
  "session_expanded ids s \<longleftrightarrow>
     length (rse_send_key s) = 32 \<and> length (rse_receive_key s) = 32 \<and> set (rse_service_ids s) \<subseteq> set ids"

definition security_expanded :: "int list \<Rightarrow> security_config \<Rightarrow> runtime_security \<Rightarrow> bool" where
  "security_expanded ids s r \<longleftrightarrow>
     rsec_source_mode r = sec_mode s \<and> rsec_mode r = (if sec_mode s = Sec_none then Sec_none else Sec_static) \<and>
     list_all (session_expanded ids) (rsec_sessions r) \<and>
     (sec_mode s \<noteq> Sec_none \<longrightarrow>
        map rse_local_receiver_index (rsec_sessions r) = map ss_local_receiver_index (sec_sessions s) \<and>
        (sec_sessions s = [] \<longrightarrow> (\<exists>k k'. rsec_send_key r = Some k \<and> rsec_receive_key r = Some k' \<and> length k = 32 \<and> length k' = 32)))"

lemma expand_session_total:
  assumes "validate_session_keys session = Inr session" and "set (ss_services session) \<subseteq> sc_name ` set services"
    and "length ids = length services"
  shows "\<exists>r. expand_session (service_ids_by_name services ids) session = Inr r \<and>
    session_expanded ids r \<and> rse_local_receiver_index r = ss_local_receiver_index session"
proof -
  obtain k k' where k: "b64decode_validate (ss_send_key session) = Inr k" "length k = 32"
    "b64decode_validate (ss_receive_key session) = Inr k'" "length k' = 32"
    using assms(1) by (auto simp: validate_session_keys_def rbind_eq_Inr key_decodes_iff)
  have "\<exists>y. lookup_id (service_ids_by_name services ids) n = Inr y \<and> y \<in> set ids" if "n \<in> set (ss_services session)" for n
    using service_id_lookup [of n services ids] assms(2,3) that by blast
  then obtain ys where ys: "map_res (lookup_id (service_ids_by_name services ids)) (ss_services session) = Inr ys"
    "list_all2 (\<lambda>n y. y \<in> set ids) (ss_services session) ys"
    using map_res_total [of "ss_services session" _ "\<lambda>n y. y \<in> set ids"] by blast
  have "list_all (\<lambda>y. y \<in> set ids) ys" by (rule list_all2_right [OF ys(2)])
  then show ?thesis using k ys(1) by (auto simp: expand_session_def session_expanded_def list_all_iff)
qed

lemma expand_security_total:
  assumes "config_ok config" and "length ids = length (gc_services config)"
  shows "\<exists>r. expand_security (gc_security config) (service_ids_by_name (gc_services config) ids) = Inr r \<and>
    security_expanded ids (gc_security config) r"
proof -
  define s where "s = gc_security config"
  define by_name where "by_name = service_ids_by_name (gc_services config) ids"
  have material: "validate_security_material s = Inr s" using config_okD(10) [OF assms(1)] by (simp add: s_def)
  consider "sec_mode s = Sec_none" | "sec_mode s \<noteq> Sec_none" "sec_sessions s \<noteq> []"
    | "sec_mode s \<noteq> Sec_none" "sec_sessions s = []" by blast
  then have "\<exists>r. expand_security s by_name = Inr r \<and> security_expanded ids s r"
  proof cases
    case 1
    then show ?thesis by (simp add: expand_security_def security_expanded_def default_runtime_security_def)
  next
    case 2
    have "\<exists>r. expand_session by_name session = Inr r \<and>
        (session_expanded ids r \<and> rse_local_receiver_index r = ss_local_receiver_index session)"
      if "session \<in> set (sec_sessions s)" for session
      using expand_session_total [of session "gc_services config" ids] config_okD(8,9) [OF assms(1), of session] that assms(2)
      by (simp add: s_def by_name_def)
    then obtain rs where rs: "map_res (expand_session by_name) (sec_sessions s) = Inr rs"
      "list_all2 (\<lambda>x r. session_expanded ids r \<and> rse_local_receiver_index r = ss_local_receiver_index x) (sec_sessions s) rs"
      using map_res_total [of "sec_sessions s" _
          "\<lambda>x r. session_expanded ids r \<and> rse_local_receiver_index r = ss_local_receiver_index x"] by blast
    have "list_all (session_expanded ids) rs" using list_all2_right [OF rs(2)] by blast
    moreover have "map rse_local_receiver_index rs = map ss_local_receiver_index (sec_sessions s)"
      using rs(2) by (induction rule: list_all2_induct) auto
    ultimately show ?thesis
      using 2 rs(1) by (simp add: expand_security_def security_expanded_def default_runtime_security_def)
  next
    case 3
    then obtain a b k k' where "sec_send_key s = Some a" "sec_receive_key s = Some b"
      "b64decode_validate a = Inr k" "length k = 32" "b64decode_validate b = Inr k'" "length k' = 32"
      using material
      by (auto simp: validate_security_material_def rbind_eq_Inr key_decodes_iff split: option.split_asm)
    then show ?thesis
      using 3 by (cases "sec_mode s") (simp_all add: expand_security_def security_expanded_def)
  qed
  then show ?thesis by (simp add: s_def by_name_def)
qed

definition path_expanded :: "runtime_security \<Rightarrow> path_config \<Rightarrow> int \<Rightarrow> runtime_path_config \<Rightarrow> bool" where
  "path_expanded security p i r \<longleftrightarrow>
     rpc_name r = pc_name p \<and> rp_path_id (rpc_scheduler r) = i \<and>
     rp_mtu (rpc_scheduler r) = ps_mtu (pc_scheduler p) - packet_overhead security \<and> 35 \<le> rp_mtu (rpc_scheduler r) \<and>
     1 \<le> rp_weight (rpc_scheduler r) \<and> rp_weight (rpc_scheduler r) \<le> 65535 \<and>
     (case rpc_relay r of None \<Rightarrow> pc_relay p = None | Some h \<Rightarrow> length (rrh_send_key h) = 32)"

lemma expand_path_total:
  assumes "path_ok p" and "compiled_from p i s"
  shows "\<exists>r. expand_path security p s = Inr r \<and> path_expanded security p i r"
proof -
  have mtu: "64 \<le> rp_mtu s" "rp_mtu s = ps_mtu (pc_scheduler p)"
    and fields: "rp_path_id s = i" "1 \<le> rp_weight s" "rp_weight s \<le> 65535"
    using assms by (auto simp: path_ok_def path_scheduler_fields_ok_def compiled_from_def)
  obtain relay where relay: "expand_relay (pc_relay p) = Inr relay"
    "case relay of None \<Rightarrow> pc_relay p = None | Some h \<Rightarrow> length (rrh_send_key h) = 32"
    using assms(1)
    by (cases "pc_relay p") (auto simp: path_ok_def expand_relay_def validate_relay_key_def rbind_eq_Inr key_decodes_iff)
  show ?thesis
    using mtu fields relay by (auto simp: expand_path_def path_expanded_def packet_overhead_def Let_def)
qed

lemma expand_paths_total:
  assumes "\<And>p. p \<in> set paths \<Longrightarrow> path_ok p" and "length scheds = length paths"
    and "\<And>k. k < length paths \<Longrightarrow> compiled_from (paths ! k) (i + int k) (scheds ! k)"
  shows "\<exists>rs. expand_paths security paths scheds = Inr rs \<and> length rs = length paths \<and>
    (\<forall>k<length paths. path_expanded security (paths ! k) (i + int k) (rs ! k))"
  using assms
proof (induction paths arbitrary: scheds i)
  case (Cons p paths)
  from Cons.prems(2) obtain s ss where s: "scheds = s # ss" "length ss = length paths" by (cases scheds) auto
  obtain r where r: "expand_path security p s = Inr r" "path_expanded security p i r"
    using expand_path_total [of p i s security] Cons.prems(1) [of p] Cons.prems(3) [of 0] s(1) by auto
  have "compiled_from (paths ! k) (i + 1 + int k) (ss ! k)" if "k < length paths" for k
    using Cons.prems(3) [of "Suc k"] s(1) that by (simp add: algebra_simps)
  then obtain rs where rs: "expand_paths security paths ss = Inr rs" "length rs = length paths"
    "\<forall>k<length paths. path_expanded security (paths ! k) (i + 1 + int k) (rs ! k)"
    using Cons.IH [of ss "i + 1"] Cons.prems(1) s(2) by auto
  show ?case
  proof (intro exI [of _ "r # rs"] conjI allI impI)
    fix k
    assume "k < length (p # paths)"
    then show "path_expanded security ((p # paths) ! k) (i + int k) ((r # rs) ! k)"
      using r(2) rs(3) by (cases k) (simp_all add: algebra_simps)
  qed (use r rs s in simp_all)
qed simp

lemma helper_references:
  assumes "validate_helper_references names h = Inr ()"
  shows "hc_wireguard h = Some w \<Longrightarrow> set (wireguard_services w) \<subseteq> set names"
    and "hc_socks5 h = Some s5 \<Longrightarrow> s5_service s5 \<in> set names"
    and "hc_tcp_forward h = Some t \<Longrightarrow> tf_service t \<in> set names"
  using assms unfolding validate_helper_references_def by (simp_all split: if_split_asm) blast

lemma wireguard_services_mem:
  "wg_service w = Some n \<Longrightarrow> n \<in> set (wireguard_services w)"
  "wg_stable_service w = Some n \<Longrightarrow> n \<in> set (wireguard_services w)"
  "wg_fast_service w = Some n \<Longrightarrow> n \<in> set (wireguard_services w)"
  by (simp_all add: wireguard_services_def)

lemma expand_helpers_total:
  assumes "config_ok config"
  shows "\<exists>hs. expand_helpers config = Inr hs"
proof -
  define services where "services = service_by_name (gc_services config)"
  define h where "h = gc_helpers config"
  note refs = helper_references [OF config_okD(7) [OF assms], unfolded h_def [symmetric] set_map]
  have look: "\<exists>s. lookup_service services n = Inr s" if "n \<in> sc_name ` set (gc_services config)" for n
    unfolding services_def by (rule service_lookup [OF that])
  have one: "\<exists>hs. expand_wireguard_service services w traffic n = Inr hs"
    if "\<forall>m. n = Some m \<longrightarrow> m \<in> sc_name ` set (gc_services config)" for w traffic n
  proof (cases n)
    case (Some m)
    then have "\<exists>s. lookup_service services m = Inr s" using that by (intro look) simp
    then obtain s where "lookup_service services m = Inr s" by (rule exE)
    then show ?thesis using Some by (simp add: expand_wireguard_service_def)
  qed (simp add: expand_wireguard_service_def)
  have wireguard: "\<exists>hs. (case hc_wireguard h of None \<Rightarrow> Inr [] | Some w \<Rightarrow> expand_wireguard services w) = Inr hs"
  proof (cases "hc_wireguard h")
    case (Some w)
    then have "set (wireguard_services w) \<subseteq> sc_name ` set (gc_services config)"
      by (rule refs(1))
    note known = subsetD [OF this wireguard_services_mem(1)] subsetD [OF this wireguard_services_mem(2)]
      subsetD [OF this wireguard_services_mem(3)]
    have "\<exists>a. expand_wireguard_service services w Wg_traffic_single (wg_service w) = Inr a"
      "\<exists>b. expand_wireguard_service services w Wg_traffic_stable (wg_stable_service w) = Inr b"
      "\<exists>c. expand_wireguard_service services w Wg_traffic_fast (wg_fast_service w) = Inr c"
      by (rule one, simp add: known)+
    then obtain a b c where "expand_wireguard_service services w Wg_traffic_single (wg_service w) = Inr a"
      "expand_wireguard_service services w Wg_traffic_stable (wg_stable_service w) = Inr b"
      "expand_wireguard_service services w Wg_traffic_fast (wg_fast_service w) = Inr c"
      by (elim exE)
    then show ?thesis using Some by (simp add: expand_wireguard_def)
  qed simp
  have socks5: "\<exists>s. lookup_service services (s5_service s5) = Inr s" if "hc_socks5 h = Some s5" for s5
    by (rule look [OF refs(2) [OF that]])
  have tcp: "\<exists>s. lookup_service services (tf_service t) = Inr s" if "hc_tcp_forward h = Some t" for t
    by (rule look [OF refs(3) [OF that]])
  have socks5': "\<exists>x. (case hc_socks5 h of None \<Rightarrow> Inr [] | Some s5 \<Rightarrow> rbind (lookup_service services (s5_service s5)) (f s5)) = Inr x"
    if "\<And>s5 s. \<exists>x. f s5 s = Inr x" for f :: "socks5_helper_config \<Rightarrow> service_config \<Rightarrow> runtime_helper list res"
    using socks5 that by (cases "hc_socks5 h") (auto intro: rbind_total)
  have tcp': "\<exists>x. (case hc_tcp_forward h of None \<Rightarrow> Inr [] | Some t \<Rightarrow> rbind (lookup_service services (tf_service t)) (f t)) = Inr x"
    if "\<And>t s. \<exists>x. f t s = Inr x" for f :: "tcp_forward_helper_config \<Rightarrow> service_config \<Rightarrow> runtime_helper list res"
    using tcp that by (cases "hc_tcp_forward h") (auto intro: rbind_total)
  show ?thesis
    unfolding expand_helpers_def Let_def services_def [symmetric] h_def [symmetric]
    by (rule rbind_total [OF wireguard], rule rbind_total [OF socks5'], simp, rule rbind_total [OF tcp'], simp_all)
qed

section \<open>Properties\<close>

definition config_expanded :: "gatherlink_config \<Rightarrow> runtime_config \<Rightarrow> bool" where
  "config_expanded config rt \<longleftrightarrow>
     distinct (map rs_service_id (rc_services rt)) \<and>
     set (map rs_service_id (rc_services rt)) \<subseteq> {USER_SERVICE_ID_START..65535} \<and>
     list_all2 (service_from config) (gc_services config) (rc_services rt) \<and>
     security_expanded (map rs_service_id (rc_services rt)) (gc_security config) (rc_security rt) \<and>
     length (rc_paths rt) = length (gc_paths config) \<and>
     (\<forall>k<length (gc_paths config). path_expanded (rc_security rt) (gc_paths config ! k) (int k) (rc_paths rt ! k))"

lemma expand_config_parts:
  assumes "config_ok config"
  obtains scheduler ids security paths helpers where
    "expand_config config = rbind (expand_services config (configured_mode config) (gc_services config) ids) (\<lambda>services.
       Inr \<lparr> rc_schema_version = gc_schema_version config, rc_node = gc_node config, rc_role = gc_role config,
             rc_peer = gc_peer config, rc_security = security, rc_paths = paths, rc_services = services,
             rc_scheduler = scheduler, rc_helpers = helpers \<rparr>)"
    "distinct ids" "set ids \<subseteq> {USER_SERVICE_ID_START..65535}" "list_all2 keeps_explicit (gc_services config) ids"
    "security_expanded ids (gc_security config) security" "length paths = length (gc_paths config)"
    "\<forall>k<length (gc_paths config). path_expanded security (gc_paths config ! k) (int k) (paths ! k)"
proof -
  obtain c rt where rt: "compile_scheduler config None None None = Inr (c, rt)"
    "length (rsch_paths rt) = length (gc_paths config)"
    "\<forall>k<length (gc_paths config). compiled_from (gc_paths config ! k) (int k) (rsch_paths rt ! k)"
    using compile_scheduler_total [OF assms, of None None None] by (auto simp: telemetry_ok_def)
  obtain ids where ids: "allocate_service_ids (gc_services config) = Inr ids" "distinct ids"
    "set ids \<subseteq> {USER_SERVICE_ID_START..65535}" "list_all2 keeps_explicit (gc_services config) ids"
    using allocate_service_ids_total [OF assms] by blast
  then have "length ids = length (gc_services config)" by (simp add: list_all2_lengthD)
  then obtain security where sec:
    "expand_security (gc_security config) (service_ids_by_name (gc_services config) ids) = Inr security"
    "security_expanded ids (gc_security config) security"
    using expand_security_total [OF assms] by blast
  obtain paths where paths: "expand_paths security (gc_paths config) (rsch_paths rt) = Inr paths"
    "length paths = length (gc_paths config)"
    "\<forall>k<length (gc_paths config). path_expanded security (gc_paths config ! k) (int k) (paths ! k)"
    using expand_paths_total [of "gc_paths config" "rsch_paths rt" 0 security] config_okD(1) [OF assms] rt(2,3) by auto
  obtain helpers where "expand_helpers config = Inr helpers" using expand_helpers_total [OF assms] by blast
  then show ?thesis
    using that [OF _ ids(2-4) sec(2) paths(2,3)] rt(1) ids(1) sec(1) paths(1) by (simp add: expand_config_def)
qed

lemma expand_config_iff:
  assumes "config_ok config"
  shows "(\<exists>rt. expand_config config = Inr rt) \<longleftrightarrow> list_all (service_refs_ok config) (gc_services config)"
proof (rule expand_config_parts [OF assms])
  fix scheduler ids security paths helpers
  assume *: "expand_config config = rbind (expand_services config (configured_mode config) (gc_services config) ids) (\<lambda>services.
       Inr \<lparr> rc_schema_version = gc_schema_version config, rc_node = gc_node config, rc_role = gc_role config,
             rc_peer = gc_peer config, rc_security = security, rc_paths = paths, rc_services = services,
             rc_scheduler = scheduler, rc_helpers = helpers \<rparr>)" and "list_all2 keeps_explicit (gc_services config) ids"
  then have "length ids = length (gc_services config)" by (simp add: list_all2_lengthD)
  then show ?thesis
    unfolding * using expand_services_iff [of ids "gc_services config" config] by (auto simp: rbind_eq_Inr)
qed

lemma expand_config_result:
  assumes "config_ok config" and "expand_config config = Inr rt"
  shows "config_expanded config rt"
proof (rule expand_config_parts [OF assms(1)])
  fix scheduler ids security paths helpers
  assume parts: "expand_config config = rbind (expand_services config (configured_mode config) (gc_services config) ids) (\<lambda>services.
       Inr \<lparr> rc_schema_version = gc_schema_version config, rc_node = gc_node config, rc_role = gc_role config,
             rc_peer = gc_peer config, rc_security = security, rc_paths = paths, rc_services = services,
             rc_scheduler = scheduler, rc_helpers = helpers \<rparr>)"
    "distinct ids" "set ids \<subseteq> {USER_SERVICE_ID_START..65535}" "list_all2 keeps_explicit (gc_services config) ids"
    "security_expanded ids (gc_security config) security" "length paths = length (gc_paths config)"
    "\<forall>k<length (gc_paths config). path_expanded security (gc_paths config ! k) (int k) (paths ! k)"
  obtain services where s: "expand_services config (configured_mode config) (gc_services config) ids = Inr services"
    and rt: "rc_services rt = services" "rc_security rt = security" "rc_paths rt = paths"
    using assms(2) parts(1) by (auto simp: rbind_eq_Inr)
  then show ?thesis using expand_services_from [OF parts(4) s] parts(2-7) by (simp add: config_expanded_def)
qed

text \<open>
  C36. The allocation loop terminates and is exact: for explicit ids that are distinct user ids, it
  returns when there are at most 65280 services and raises otherwise, however the explicit ids are
  spread over the range. The result keeps every explicit id, and all ids are distinct user ids.
\<close>
theorem service_ids_allocated:
  assumes "distinct (some_values (map sc_service_id services))"
    and "set (some_values (map sc_service_id services)) \<subseteq> {USER_SERVICE_ID_START..65535}"
  shows "if length services \<le> 65280
    then \<exists>ids. allocate_service_ids services = Inr ids \<and> distinct ids \<and> set ids \<subseteq> {USER_SERVICE_ID_START..65535} \<and>
      list_all2 keeps_explicit services ids
    else \<exists>e. allocate_service_ids services = Inl e"
  using assms by (rule allocate_service_ids_spec)

definition sample_service_config :: "nat \<Rightarrow> int option \<Rightarrow> service_config" where
  "sample_service_config n i =
     \<lparr> sc_name = [n], sc_target = [116], sc_service_id = i, sc_listen = None, sc_priority = Prio_high,
       sc_traffic_class = Class_unknown, sc_scheduler_fanout = 1, sc_scheduler_fanout_below_bytes = 0,
       sc_scheduler_flowlet_idle_us = 0, sc_scheduler_flowlet_max_hold_us = 0, sc_scheduler_poll_batch_packets = 0,
       sc_scheduler_path_run_datagrams = 0, sc_scheduler_path_policy = Inherit, sc_path_policy_set = False,
       sc_scheduler_allowed_paths = [], sc_scheduler_path_weights = [], sc_return_mode = Fixed \<rparr>"

theorem service_ids_allocated_witness:
  "\<exists>a b. allocate_service_ids [sample_service_config 97 None, sample_service_config 98 (Some 256)] = Inr [a, b]
     \<and> b = 256 \<and> a \<noteq> 256"
  using service_ids_allocated [of "[sample_service_config 97 None, sample_service_config 98 (Some 256)]"]
  by (auto simp: sample_service_config_def const_simps keeps_explicit_def list_all2_Cons1)

text \<open>
  C35. Expansion raises on exactly the configurations whose services name a path that does not exist,
  give a weight outside 1..65535 or to a path that is not allowed, or need a single best path when no
  path is configured. On every other validated configuration it returns the runtime contract:
  pairwise distinct service ids inside 256..65535 with the explicit ids kept, path ids and weights in
  range, 32-byte keys, sessions bound only to existing services, and each path's MTU reduced by the
  transport overhead to a value that stays positive.
\<close>
theorem expand_config_exact:
  assumes "config_ok config"
  shows "((\<exists>rt. expand_config config = Inr rt) \<longleftrightarrow> list_all (service_refs_ok config) (gc_services config)) \<and>
    (\<forall>rt. expand_config config = Inr rt \<longrightarrow> config_expanded config rt)"
  using expand_config_iff [OF assms] expand_config_result [OF assms] by blast

definition sample_full_config :: "path_config list \<Rightarrow> gatherlink_config" where
  "sample_full_config paths =
     sample_config Ordered_multipath paths\<lparr> gc_services := [sample_service_config 97 None, sample_service_config 98 (Some 256)] \<rparr>"

lemma sample_full_config_ok:
  assumes "list_all path_ok paths" and "distinct (map pc_name paths)"
  shows "config_ok (sample_full_config paths)"
  using assms
  by (simp add: config_ok_def validate_config_relationships_iff sample_full_config_def sample_config_def security_fields_ok_def
      validate_security_material_def helpers_ok_def validate_helper_references_def opt_range_def opt_ge_def const_simps
      service_fields_ok_def sample_service_config_def)

theorem expand_config_exact_witness:
  "(\<exists>rt. expand_config (sample_full_config [sample_path [108] sample_hints]) = Inr rt
      \<and> length (rc_services rt) = 2 \<and> length (rc_paths rt) = 1)
   \<and> (\<nexists>rt. expand_config (sample_full_config []) = Inr rt)"
proof -
  define c1 where "c1 = sample_full_config [sample_path [108] sample_hints]"
  define c0 where "c0 = sample_full_config []"
  have ok: "config_ok c1" "config_ok c0"
    using sample_path_ok [OF sample_hints_ok] by (simp_all add: c1_def c0_def sample_full_config_ok)
  have "list_all (service_refs_ok c1) (gc_services c1)" "\<not> list_all (service_refs_ok c0) (gc_services c0)"
    by (simp_all add: c1_def c0_def sample_full_config_def sample_config_def sample_service_config_def service_refs_ok_def
        allowed_refs_ok_def service_scheduler_path_policy_def service_is_protected_def intent_of_config_def)
  then obtain rt where "expand_config c1 = Inr rt" "config_expanded c1 rt" "\<nexists>rt. expand_config c0 = Inr rt"
    using expand_config_exact [OF ok(1)] expand_config_exact [OF ok(2)] by blast
  moreover have "length (gc_services c1) = 2" "length (gc_paths c1) = 1"
    by (simp_all add: c1_def sample_full_config_def sample_config_def)
  ultimately show ?thesis
    by (auto simp: config_expanded_def c1_def [symmetric] c0_def [symmetric] dest: list_all2_lengthD)
qed

end
