(* ===== verification/Provisioning.thy ===== *)
theory Provisioning
  imports Sessions Envelope Protocol_Frames Config_Expansion
begin

text \<open>
  From a planned session to the keys the dataplane runs: \<^verbatim>\<open>export_config\<close> of
  \<^verbatim>\<open>StaticTransportSecurityMaterial\<close> and \<^verbatim>\<open>AuthenticatedSessionPlan\<close> (\<^verbatim>\<open>security/sessions.py\<close>), whose
  result is loaded as the \<^verbatim>\<open>security\<close> block of a node's configuration and expanded by
  \<^verbatim>\<open>Config_Expansion\<close>. The exported mapping is the record of the loaded block: keys that are not
  exported have the model's defaults, and a timestamp written with \<^verbatim>\<open>isoformat\<close> is read back as
  the same instant.
\<close>

section \<open>Exporting a session as configuration\<close>

definition material_export_config :: "transport_material \<Rightarrow> security_mode \<Rightarrow> security_config" where
  "material_export_config m mode =
     \<lparr> sec_mode = mode, sec_receiver_index = tm_receiver_index m,
       sec_local_receiver_index = Some (tm_local_receiver_index m),
       sec_remote_receiver_index = Some (tm_remote_receiver_index m),
       sec_send_key = Some (b64encode (tm_send_key m)), sec_receive_key = Some (b64encode (tm_receive_key m)),
       sec_local_node_id = None, sec_peer_node_id = None, sec_topology_generation = None, sec_session_role = None,
       sec_session_created_at = None, sec_session_expires_at = None, sec_rekey_after_packets = None,
       sec_rekey_after_bytes = None, sec_sessions = [] \<rparr>"

definition config_role :: "session_role \<Rightarrow> security_session_role" where
  "config_role r = (case r of Initiator \<Rightarrow> Role_initiator | Responder \<Rightarrow> Role_responder)"

definition plan_export_config :: "session_plan \<Rightarrow> security_config res" where
  "plan_export_config plan =
     (case sp_security plan of
        None \<Rightarrow> Inl (ValueError ''authenticated session has no compiled transport security'')
      | Some m \<Rightarrow>
          Inr (material_export_config m Sec_authenticated
            \<lparr> sec_local_node_id := Some (sp_local_node_id plan), sec_peer_node_id := Some (sp_peer_node_id plan),
              sec_topology_generation := Some (sp_topology_generation plan),
              sec_session_role := Some (config_role (sp_role plan)),
              sec_session_created_at := Some (sp_created_at plan), sec_session_expires_at := Some (sp_expires_at plan),
              sec_rekey_after_packets := Some (sp_rekey_after_packets plan),
              sec_rekey_after_bytes := Some (sp_rekey_after_bytes plan) \<rparr>))"

text \<open>The transport state of a node whose configuration expanded to \<open>s\<close>.\<close>

definition runtime_keys :: "runtime_security \<Rightarrow> transport_keys" where
  "runtime_keys s =
     new_transport_keys (rsec_receiver_index s) (the (rsec_send_key s)) (the (rsec_receive_key s))
       (Some (rsec_local_receiver_index s)) (Some (rsec_remote_receiver_index s))"

section \<open>Lemmas\<close>

lemma or_int_self: "or_int (Some i) i = i"
  by (simp add: or_int_def)

text \<open>A derived material carries one receiver index in all three places.\<close>

definition material_ok :: "transport_material \<Rightarrow> int \<Rightarrow> bool" where
  "material_ok m index \<longleftrightarrow>
     tm_receiver_index m = index \<and> tm_local_receiver_index m = index \<and> tm_remote_receiver_index m = index \<and>
     length (tm_send_key m) = 32 \<and> length (tm_receive_key m) = 32"

lemma derive_material_ok:
  assumes "crypto_ok cr" and "derive_static_transport_security cr l peer role index context = Inr m"
  shows "material_ok m index \<and> 0 \<le> index \<and> index < 2 ^ 32"
  using assms
  by (cases role) (auto simp: material_ok_def derive_static_transport_security_def derive_directional_session_keys_def Let_def
      rbind_eq_Inr crypto_ok_def split: if_split_asm prod.split_asm)

lemma key_decodes_encoded: "length k = 32 \<Longrightarrow> key_decodes (b64encode k) = Inr ()"
  by (simp add: key_decodes_iff b64decode_validate_b64encode)

lemma exported_material_expands:
  assumes "sp_security plan = Some m" and "material_ok m index"
  shows "\<exists>c s. plan_export_config plan = Inr c \<and> validate_security_material c = Inr c \<and> expand_security c ids = Inr s \<and>
    rsec_mode s = Sec_static \<and> rsec_source_mode s = Sec_authenticated \<and>
    rsec_send_key s = Some (tm_send_key m) \<and> rsec_receive_key s = Some (tm_receive_key m) \<and>
    rsec_receiver_index s = index \<and> rsec_local_receiver_index s = index \<and> rsec_remote_receiver_index s = index \<and>
    rsec_session_expires_at s = Some (sp_expires_at plan) \<and> rsec_topology_generation s = Some (sp_topology_generation plan)"
  using assms
  by (simp add: plan_export_config_def material_export_config_def material_ok_def expand_security_def or_int_self
      validate_security_material_def key_decodes_encoded b64decode_validate_b64encode)

lemma peer_plan:
  assumes cr: "crypto_ok cr" and a: "identity_wf cr a" and b: "identity_wf cr b" and "ni_node_id a \<noteq> ni_node_id b"
    and secret: "x25519_exchange cr (ni_x25519_private a) (ni_x25519_public b) = Some secret"
    and plan: "plan_authenticated_static_session cr a (public_of_identity b) topo Initiator index now life = Inr pa"
    and "0 < life'"
  shows "\<exists>pb ma mb. plan_authenticated_static_session cr b (public_of_identity a) topo Responder index now' life' = Inr pb \<and>
    sp_security pa = Some ma \<and> sp_security pb = Some mb \<and> material_ok ma index \<and> material_ok mb index \<and>
    0 \<le> index \<and> index < 2 ^ 32 \<and> tm_send_key ma = tm_receive_key mb \<and> tm_receive_key ma = tm_send_key mb"
proof -
  obtain ctx ma where pa: "require_topology_member topo (public_of_identity a) = Inr ()"
    "require_topology_member topo (public_of_identity b) = Inr ()"
    "authenticated_session_context cr topo (ip_node_id (public_of_identity a)) (ip_node_id (public_of_identity b)) = Inr ctx"
    "derive_static_transport_security cr a (public_of_identity b) Initiator index ctx = Inr ma" "sp_security pa = Some ma"
    using plan unfolding plan_Inr by auto
  have ma: "material_ok ma index" "0 \<le> index" "index < 2 ^ 32" using derive_material_ok [OF cr pa(4)] by auto
  obtain mb where mb: "derive_static_transport_security cr b (public_of_identity a) Responder index ctx = Inr mb"
    "tm_send_key ma = tm_receive_key mb" "tm_receive_key ma = tm_send_key mb"
    using static_pair [OF cr a b assms(4) ma(2,3) secret, of ctx] pa(4) by auto
  have "\<exists>pb. plan_authenticated_static_session cr b (public_of_identity a) topo Responder index now' life' = Inr pb \<and>
      sp_security pb = Some mb"
    unfolding plan_Inr using pa(1-3) mb(1) assms(7) by auto
  then show ?thesis using pa(5) ma mb derive_material_ok [OF cr mb(1)] by blast
qed

lemma first_frame_delivered:
  assumes "aead encrypt decrypt" and "tk_receive_key r = tk_send_key s" and "length (tk_send_key s) = 32"
    and "tk_local_receiver_index r = tk_remote_receiver_index s"
    and "0 \<le> tk_remote_receiver_index s" and "tk_remote_receiver_index s < 2 ^ 32"
    and "tk_next_send_counter s = 0" and "tk_replay_window r = new_window 128"
  shows "\<exists>packet s' d r'. encrypt_frame encrypt s p = Inr (packet, s') \<and> decrypt_packet decrypt r packet = (Inr d, r') \<and>
    dp_plaintext d = p \<and> length packet = length p + 29"
proof -
  define packet where "packet = packet_of encrypt (tk_remote_receiver_index s) (tk_send_key s) 0 p"
  define d where "d = \<lparr>dp_receiver_index = tk_remote_receiver_index s, dp_counter = 0, dp_plaintext = p\<rparr>"
  obtain s' where e: "encrypt_frame encrypt s p = Inr (packet, s')"
    using assms by (simp add: encrypt_frame_def rbind_eq_Inr encrypt_frame_with_counter_eq packet_def)
  have "genuine encrypt (tk_receive_key r) packet d"
    using encrypt_frame_genuine [OF e] assms by (simp add: d_def)
  then have "decrypt_packet_without_replay decrypt (tk_receive_key r) packet = Inr d"
    using decrypt_genuine [OF assms(1)] by blast
  moreover have "fst (accept 0 (tk_replay_window r))"
    using accept_refines(1) [OF window_rel_new, of 0 128] assms(8) by (simp add: spec_accept_def)
  ultimately obtain r' where "decrypt_packet decrypt r packet = (Inr d, r')"
    using assms(4) by (cases "accept 0 (tk_replay_window r)") (auto simp: decrypt_packet_def d_def)
  moreover have "length packet = length p + 29"
    using assms(1) by (simp add: packet_def packet_of_def aead_def Let_def)
  ultimately show ?thesis using e by (auto simp: d_def)
qed

end
