(* ===== verification/Rekey.thy ===== *)
theory Rekey
  imports Noise Provisioning
begin

text \<open>
  Live rekeying: the control messages of \<^verbatim>\<open>security/rekey_control.py\<close> and the coordinator of
  \<^verbatim>\<open>runtime/rekey.py\<close>, from the evaluation of a session's status to the hot-applied runtime security.

  Payloads are kept as decoded messages: \<open>Inl\<close> stands for bytes that \<^verbatim>\<open>RekeyControlMessage.decode\<close>
  rejects, and the JSON text with its 8192-byte limit is not represented. A message carries the Noise
  part of either kind; a part of the wrong kind is refused. Diagnostics, which only observe, are left
  out. Random draws are arguments, as in \<^verbatim>\<open>Noise\<close>.
\<close>

section \<open>Messages\<close>

definition DEFAULT_SESSION_LIFETIME_SECONDS :: int where
  [const_simps]: "DEFAULT_SESSION_LIFETIME_SECONDS = 120"

definition DEFAULT_NOISE_HANDSHAKE_LIFETIME_SECONDS :: int where
  [const_simps]: "DEFAULT_NOISE_HANDSHAKE_LIFETIME_SECONDS = 30"

definition DEFAULT_REKEY_MARGIN_SECONDS :: int where
  [const_simps]: "DEFAULT_REKEY_MARGIN_SECONDS = 30"

definition DEFAULT_REKEY_OVERLAP_SECONDS :: int where
  [const_simps]: "DEFAULT_REKEY_OVERLAP_SECONDS = 10"

datatype rekey_type = Rekey_initiation | Rekey_response | Rekey_reject

datatype noise_part = Part_initiation noise_initiation | Part_response noise_response

record rekey_message =
  rk_type :: rekey_type
  rk_sender_node_id :: ustr
  rk_peer_node_id :: ustr
  rk_topology_generation :: int
  rk_current_receiver_index :: int
  rk_created_at :: int
  rk_expires_at :: "int option"
  rk_noise :: "noise_part option"
  rk_reason :: "string option"

record pending_rekey =
  pr_noise :: pending_noise
  pr_message :: rekey_message

record accepted_rekey =
  ar_noise :: accepted_noise
  ar_message :: rekey_message

definition local_receive_index :: "session_plan \<Rightarrow> int" where
  "local_receive_index session =
     (case sp_security session of
        None \<Rightarrow> sp_receiver_index session
      | Some m \<Rightarrow> or_int (Some (tm_local_receiver_index m)) (sp_receiver_index session))"

definition remote_receive_index :: "session_plan \<Rightarrow> int" where
  "remote_receive_index session =
     (case sp_security session of
        None \<Rightarrow> sp_receiver_index session
      | Some m \<Rightarrow> or_int (Some (tm_remote_receiver_index m)) (sp_receiver_index session))"

definition validate_current_session :: "node_identity \<Rightarrow> ustr \<Rightarrow> topology \<Rightarrow> session_plan \<Rightarrow> unit res" where
  "validate_current_session local_identity peer_node_id topo current =
     (if sp_local_node_id current \<noteq> ip_node_id (public_of_identity local_identity)
      then Inl (ValueError ''current session local identity disagrees with rekey identity'')
      else if sp_peer_node_id current \<noteq> peer_node_id
      then Inl (ValueError ''current session peer identity disagrees with rekey peer'')
      else if sp_topology_generation current \<noteq> tb_generation topo
      then Inl (ValueError ''current session topology generation disagrees with topology'')
      else Inr ())"

definition validate_rekey_message_for_current_session :: "rekey_message \<Rightarrow> ustr \<Rightarrow> session_plan \<Rightarrow> unit res" where
  "validate_rekey_message_for_current_session message local_node_id current =
     (if rk_peer_node_id message \<noteq> local_node_id
      then Inl (ValueError ''rekey message is not addressed to this node'')
      else if rk_sender_node_id message \<noteq> sp_peer_node_id current
      then Inl (ValueError ''rekey message sender disagrees with current peer'')
      else if rk_topology_generation message \<noteq> sp_topology_generation current
      then Inl (ValueError ''rekey message topology generation is stale'')
      else if rk_current_receiver_index message \<noteq> local_receive_index current
      then Inl (ValueError ''rekey message current receiver index is stale'')
      else Inr ())"

definition create_rekey_initiation ::
  "crypto \<Rightarrow> aead_encrypt \<Rightarrow> node_identity \<Rightarrow> identity_public \<Rightarrow> topology \<Rightarrow> session_plan \<Rightarrow> int \<Rightarrow> int option \<Rightarrow> int \<Rightarrow> bytes \<times> bytes
     \<Rightarrow> pending_rekey res" where
  "create_rekey_initiation cr encrypt local_identity peer_identity topo current now index draw eph =
     rbind (validate_current_session local_identity (ip_node_id peer_identity) topo current) (\<lambda>_.
     rbind (create_noise_ik_initiation cr encrypt local_identity peer_identity topo index draw eph now DEFAULT_NOISE_HANDSHAKE_LIFETIME_SECONDS) (\<lambda>pending.
       Inr \<lparr> pr_noise = pending,
             pr_message =
               \<lparr> rk_type = Rekey_initiation, rk_sender_node_id = ip_node_id (public_of_identity local_identity),
                 rk_peer_node_id = ip_node_id peer_identity, rk_topology_generation = tb_generation topo,
                 rk_current_receiver_index = remote_receive_index current, rk_created_at = now,
                 rk_expires_at = Some (pd_expires_at pending), rk_noise = Some (Part_initiation (pd_message pending)),
                 rk_reason = None \<rparr> \<rparr>))"

definition accept_rekey_initiation_payload ::
  "crypto \<Rightarrow> aead_decrypt \<Rightarrow> node_identity \<Rightarrow> rekey_message res \<Rightarrow> topology \<Rightarrow> session_plan \<Rightarrow> int \<Rightarrow> int option \<Rightarrow> int \<Rightarrow> bytes \<times> bytes
     \<Rightarrow> accepted_rekey res" where
  "accept_rekey_initiation_payload cr decrypt responder_identity payload topo current now index draw eph =
     rbind payload (\<lambda>message.
       if rk_type message \<noteq> Rekey_initiation then Inl (ValueError ''expected rekey initiation'')
       else
         let responder_public = public_of_identity responder_identity in
         rbind (validate_rekey_message_for_current_session message (ip_node_id responder_public) current) (\<lambda>_.
           case rk_noise message of
             None \<Rightarrow> Inl (ValueError ''rekey initiation missing Noise payload'')
           | Some (Part_response _) \<Rightarrow> Inl silently_dropped
           | Some (Part_initiation m) \<Rightarrow>
               rbind (accept_noise_ik_initiation cr decrypt responder_identity m topo index draw eph now DEFAULT_SESSION_LIFETIME_SECONDS) (\<lambda>accepted.
                 Inr \<lparr> ar_noise = accepted,
                       ar_message =
                         \<lparr> rk_type = Rekey_response, rk_sender_node_id = ip_node_id responder_public,
                           rk_peer_node_id = rk_sender_node_id message, rk_topology_generation = tb_generation topo,
                           rk_current_receiver_index = remote_receive_index current, rk_created_at = now,
                           rk_expires_at = Some (sp_expires_at (an_session accepted)),
                           rk_noise = Some (Part_response (an_response accepted)), rk_reason = None \<rparr> \<rparr>)))"

definition complete_rekey_response_payload ::
  "crypto \<Rightarrow> aead_encrypt \<Rightarrow> node_identity \<Rightarrow> pending_rekey \<Rightarrow> rekey_message res \<Rightarrow> topology \<Rightarrow> session_plan \<Rightarrow> int
     \<Rightarrow> session_plan res" where
  "complete_rekey_response_payload cr encrypt local_identity pending payload topo current now =
     rbind payload (\<lambda>message.
       if rk_type message \<noteq> Rekey_response then Inl (ValueError ''expected rekey response'')
       else
         let local_public = public_of_identity local_identity in
         rbind (validate_rekey_message_for_current_session message (ip_node_id local_public) current) (\<lambda>_.
           case rk_noise message of
             None \<Rightarrow> Inl (ValueError ''rekey response missing Noise payload'')
           | Some (Part_initiation _) \<Rightarrow> Inl silently_dropped
           | Some (Part_response r) \<Rightarrow> complete_noise_ik_initiator cr encrypt local_identity (pr_noise pending) r topo now))"

definition create_rekey_reject :: "node_identity \<Rightarrow> ustr \<Rightarrow> session_plan \<Rightarrow> string \<Rightarrow> int \<Rightarrow> rekey_message" where
  "create_rekey_reject local_identity peer_node_id current reason now =
     \<lparr> rk_type = Rekey_reject, rk_sender_node_id = ip_node_id (public_of_identity local_identity),
       rk_peer_node_id = peer_node_id, rk_topology_generation = sp_topology_generation current,
       rk_current_receiver_index = remote_receive_index current, rk_created_at = now, rk_expires_at = None,
       rk_noise = None, rk_reason = Some (take 255 reason) \<rparr>"

section \<open>Evaluating a session\<close>

definition traffic_totals :: "(ustr, meta) dict \<Rightarrow> int \<times> int" where
  "traffic_totals status =
     (let counters = (\<lambda>c k. case optional_int (dict_get c (str_lit k)) of None \<Rightarrow> 0 | Some v \<Rightarrow> v);
          totals = (\<lambda>services. fold (\<lambda>(_, c) (packets, bytes_transferred).
            case c of
              MDict d \<Rightarrow> (packets + counters d ''packets'', bytes_transferred + counters d ''bytes'')
            | _ \<Rightarrow> (packets, bytes_transferred)) services (0, 0)) in
      case dict_get status (str_lit ''service_stats'') of
        Some (MDict services) \<Rightarrow> totals services
      | _ \<Rightarrow>
          (case dict_get status (str_lit ''services'') of
             Some (MDict services) \<Rightarrow> totals services
           | _ \<Rightarrow> (counters status ''tx_packets'' + counters status ''rx_packets'',
                   counters status ''tx_bytes'' + counters status ''rx_bytes'')))"

definition rekey_optional_str :: "(meta \<Rightarrow> ustr) \<Rightarrow> meta option \<Rightarrow> ustr option" where
  "rekey_optional_str py_str v =
     (case v of
        None \<Rightarrow> None
      | Some MNone \<Rightarrow> None
      | Some x \<Rightarrow> (let converted = (case x of MStr s \<Rightarrow> s | _ \<Rightarrow> py_str x) in if converted = [] then None else Some converted))"

record rekey_result =
  rkr_decision :: rotation_decision
  rkr_runtime_config :: runtime_config
  rkr_applied :: bool
  rkr_fail_closed :: bool

definition replacement_validation_error :: "session_plan \<Rightarrow> session_plan \<Rightarrow> string option" where
  "replacement_validation_error current replacement =
     (if sp_security replacement = None then Some ''replacement session has no compiled transport security''
      else if sp_peer_node_id replacement \<noteq> sp_peer_node_id current
      then Some ''replacement peer identity disagrees with current session''
      else if sp_topology_generation replacement \<noteq> sp_topology_generation current
      then Some ''replacement topology generation disagrees with current session''
      else if sp_receiver_index replacement = sp_receiver_index current
      then Some ''replacement receiver index must differ from current session''
      else None)"

definition runtime_security_from_session :: "session_plan \<Rightarrow> runtime_security res" where
  "runtime_security_from_session session =
     (case sp_security session of
        None \<Rightarrow> Inl (ValueError ''replacement session has no compiled transport security'')
      | Some m \<Rightarrow>
          Inr \<lparr> rsec_mode = Sec_static, rsec_source_mode = Sec_authenticated,
                rsec_receiver_index = or_int (Some (tm_remote_receiver_index m)) (sp_receiver_index session),
                rsec_local_receiver_index = or_int (Some (tm_local_receiver_index m)) (sp_receiver_index session),
                rsec_remote_receiver_index = or_int (Some (tm_remote_receiver_index m)) (sp_receiver_index session),
                rsec_send_key = Some (tm_send_key m), rsec_receive_key = Some (tm_receive_key m),
                rsec_local_node_id = Some (sp_local_node_id session), rsec_peer_node_id = Some (sp_peer_node_id session),
                rsec_topology_generation = Some (sp_topology_generation session),
                rsec_session_role = Some (config_role (sp_role session)),
                rsec_session_created_at = Some (sp_created_at session), rsec_session_expires_at = Some (sp_expires_at session),
                rsec_rekey_after_packets = Some (sp_rekey_after_packets session),
                rsec_rekey_after_bytes = Some (sp_rekey_after_bytes session), rsec_sessions = [] \<rparr>)"

definition apply_replacement_session ::
  "session_plan \<Rightarrow> runtime_config \<Rightarrow> session_plan \<Rightarrow> rotation_decision \<Rightarrow> rekey_result res" where
  "apply_replacement_session current config replacement dec =
     (case replacement_validation_error current replacement of
        Some reason \<Rightarrow>
          Inr \<lparr> rkr_decision = decision Reject reason current, rkr_runtime_config = config,
                rkr_applied = False, rkr_fail_closed = True \<rparr>
      | None \<Rightarrow>
          rbind (runtime_security_from_session replacement) (\<lambda>security.
            Inr \<lparr> rkr_decision = dec, rkr_runtime_config = config\<lparr> rc_security := security \<rparr>,
                  rkr_applied = True, rkr_fail_closed = False \<rparr>))"

definition rotation_for ::
  "(meta \<Rightarrow> ustr) \<Rightarrow> session_plan \<Rightarrow> (ustr, meta) dict \<Rightarrow> int \<Rightarrow> int \<Rightarrow> int \<Rightarrow> int \<Rightarrow> rotation_decision res" where
  "rotation_for py_str current status now margin overlap draw =
     (let (packets, bytes_transferred) = traffic_totals status in
      plan_session_rotation current
        \<lparr> rr_now = now, rr_packets = packets, rr_bytes = bytes_transferred,
          rr_observed_generation = optional_int (dict_get status (str_lit ''topology_generation'')),
          rr_observed_peer = rekey_optional_str py_str (dict_get status (str_lit ''peer_node_id'')),
          rr_margin_seconds = margin, rr_overlap_seconds = overlap, rr_next_index = None \<rparr> draw)"

definition evaluate_rekey_from_status ::
  "(meta \<Rightarrow> ustr) \<Rightarrow> session_plan \<Rightarrow> runtime_config \<Rightarrow> (ustr, meta) dict \<Rightarrow> session_plan option \<Rightarrow> int \<Rightarrow> int \<Rightarrow> int \<Rightarrow> int
     \<Rightarrow> rekey_result res" where
  "evaluate_rekey_from_status py_str current config status replacement now margin overlap draw =
     rbind (rotation_for py_str current status now margin overlap draw) (\<lambda>dec.
       if rd_action dec = Keep \<and> replacement = None
       then Inr \<lparr> rkr_decision = dec, rkr_runtime_config = config, rkr_applied = False, rkr_fail_closed = False \<rparr>
       else if fail_closed dec
       then Inr \<lparr> rkr_decision = dec, rkr_runtime_config = config, rkr_applied = False, rkr_fail_closed = True \<rparr>
       else case replacement of
         None \<Rightarrow> Inr \<lparr> rkr_decision = dec, rkr_runtime_config = config, rkr_applied = False, rkr_fail_closed = False \<rparr>
       | Some r \<Rightarrow> apply_replacement_session current config r dec)"

section \<open>The coordinator\<close>

type_synonym coordinator = "(ustr, pending_rekey) dict"

record rekey_outbound =
  ob_peer_node_id :: ustr
  ob_payload :: rekey_message

record handle_result =
  hr_outbound :: "rekey_outbound option"
  hr_runtime_result :: "rekey_result option"
  hr_accepted :: bool
  hr_reason :: "string option"

text \<open>The text of an exception, and which exceptions \<^verbatim>\<open>except ValueError\<close> catches.\<close>

definition is_value_error :: "py_error \<Rightarrow> bool" where
  "is_value_error e = (case e of ValueError _ \<Rightarrow> True | ValidationError _ \<Rightarrow> True | UnicodeEncodeError \<Rightarrow> True | _ \<Rightarrow> False)"

definition exc_text :: "py_error \<Rightarrow> string" where
  "exc_text e = (case e of ValueError s \<Rightarrow> s | ValidationError s \<Rightarrow> s | _ \<Rightarrow> [])"

definition start_rekey ::
  "crypto \<Rightarrow> aead_encrypt \<Rightarrow> (meta \<Rightarrow> ustr) \<Rightarrow> node_identity \<Rightarrow> identity_public \<Rightarrow> topology \<Rightarrow> session_plan \<Rightarrow> runtime_config
     \<Rightarrow> (ustr, meta) dict \<Rightarrow> int \<Rightarrow> int \<Rightarrow> int \<Rightarrow> int \<Rightarrow> bytes \<times> bytes \<Rightarrow> coordinator \<Rightarrow> rekey_outbound option res \<times> coordinator" where
  "start_rekey cr encrypt py_str local_identity peer_identity topo current config status now margin overlap draw eph coord =
     (case evaluate_rekey_from_status py_str current config status None now margin overlap draw of
        Inl e \<Rightarrow> (Inl e, coord)
      | Inr evaluation \<Rightarrow>
          if \<not> should_rekey (rkr_decision evaluation) \<or> rd_next_receiver_index (rkr_decision evaluation) = None
          then (Inr None, coord)
          else
            (case create_rekey_initiation cr encrypt local_identity peer_identity topo current now
                    (rd_next_receiver_index (rkr_decision evaluation)) draw eph of
               Inl e \<Rightarrow> (Inl e, coord)
             | Inr pending \<Rightarrow>
                 (Inr (Some \<lparr> ob_peer_node_id = ip_node_id peer_identity, ob_payload = pr_message pending \<rparr>),
                  dict_set (ip_node_id peer_identity) pending coord)))"

definition maybe_start ::
  "crypto \<Rightarrow> aead_encrypt \<Rightarrow> (meta \<Rightarrow> ustr) \<Rightarrow> node_identity \<Rightarrow> identity_public \<Rightarrow> topology \<Rightarrow> session_plan \<Rightarrow> runtime_config
     \<Rightarrow> (ustr, meta) dict \<Rightarrow> int \<Rightarrow> int \<Rightarrow> int \<Rightarrow> int \<Rightarrow> bytes \<times> bytes \<Rightarrow> coordinator \<Rightarrow> rekey_outbound option res \<times> coordinator" where
  "maybe_start cr encrypt py_str local_identity peer_identity topo current config status now margin overlap draw eph coord =
     (case dict_get coord (ip_node_id peer_identity) of
        Some pending \<Rightarrow>
          if (case rk_expires_at (pr_message pending) of None \<Rightarrow> True | Some e \<Rightarrow> e > now) then (Inr None, coord)
          else start_rekey cr encrypt py_str local_identity peer_identity topo current config status now margin overlap draw eph
                 (dict_del (ip_node_id peer_identity) coord)
      | None \<Rightarrow>
          start_rekey cr encrypt py_str local_identity peer_identity topo current config status now margin overlap draw eph coord)"

definition accept_runtime_rekey_initiation ::
  "crypto \<Rightarrow> aead_decrypt \<Rightarrow> (meta \<Rightarrow> ustr) \<Rightarrow> node_identity \<Rightarrow> rekey_message res \<Rightarrow> topology \<Rightarrow> session_plan \<Rightarrow> runtime_config
     \<Rightarrow> (ustr, meta) dict \<Rightarrow> int \<Rightarrow> int \<Rightarrow> int \<Rightarrow> bytes \<times> bytes \<Rightarrow> (rekey_message \<times> rekey_result) res" where
  "accept_runtime_rekey_initiation cr decrypt py_str responder_identity payload topo current config status now draw draw' eph =
     rbind (accept_rekey_initiation_payload cr decrypt responder_identity payload topo current now None draw eph) (\<lambda>accepted.
     rbind (evaluate_rekey_from_status py_str current config status (Some (an_session (ar_noise accepted))) now
              DEFAULT_REKEY_MARGIN_SECONDS DEFAULT_REKEY_OVERLAP_SECONDS draw') (\<lambda>result.
       Inr (ar_message accepted, result)))"

definition complete_runtime_rekey_response ::
  "crypto \<Rightarrow> aead_encrypt \<Rightarrow> (meta \<Rightarrow> ustr) \<Rightarrow> node_identity \<Rightarrow> pending_rekey \<Rightarrow> rekey_message res \<Rightarrow> topology \<Rightarrow> session_plan
     \<Rightarrow> runtime_config \<Rightarrow> (ustr, meta) dict \<Rightarrow> int \<Rightarrow> int \<Rightarrow> rekey_result res" where
  "complete_runtime_rekey_response cr encrypt py_str local_identity pending payload topo current config status now draw =
     rbind (complete_rekey_response_payload cr encrypt local_identity pending payload topo current now) (\<lambda>replacement.
       evaluate_rekey_from_status py_str current config status (Some replacement) now
         DEFAULT_REKEY_MARGIN_SECONDS DEFAULT_REKEY_OVERLAP_SECONDS draw)"

definition handle_initiation ::
  "crypto \<Rightarrow> aead_decrypt \<Rightarrow> (meta \<Rightarrow> ustr) \<Rightarrow> node_identity \<Rightarrow> rekey_message \<Rightarrow> topology \<Rightarrow> session_plan \<Rightarrow> runtime_config
     \<Rightarrow> (ustr, meta) dict \<Rightarrow> int \<Rightarrow> int \<Rightarrow> int \<Rightarrow> bytes \<times> bytes \<Rightarrow> handle_result res" where
  "handle_initiation cr decrypt py_str local_identity message topo current config status now draw draw' eph =
     (case accept_runtime_rekey_initiation cr decrypt py_str local_identity (Inr message) topo current config status now draw draw' eph of
        Inl e \<Rightarrow>
          if is_value_error e then
            Inr \<lparr> hr_outbound = Some \<lparr> ob_peer_node_id = rk_sender_node_id message,
                    ob_payload = create_rekey_reject local_identity (rk_sender_node_id message) current (exc_text e) now \<rparr>,
                  hr_runtime_result = None, hr_accepted = False, hr_reason = Some (exc_text e) \<rparr>
          else Inl e
      | Inr (response, result) \<Rightarrow>
          Inr \<lparr> hr_outbound = Some \<lparr> ob_peer_node_id = rk_sender_node_id message, ob_payload = response \<rparr>,
                hr_runtime_result = Some result, hr_accepted = (rkr_applied result \<and> \<not> rkr_fail_closed result),
                hr_reason = None \<rparr>)"

definition refused :: "string \<Rightarrow> handle_result" where
  "refused reason = \<lparr> hr_outbound = None, hr_runtime_result = None, hr_accepted = False, hr_reason = Some reason \<rparr>"

definition handle_peer_payload ::
  "crypto \<Rightarrow> aead_encrypt \<Rightarrow> aead_decrypt \<Rightarrow> (meta \<Rightarrow> ustr) \<Rightarrow> node_identity \<Rightarrow> rekey_message res \<Rightarrow> topology \<Rightarrow> session_plan
     \<Rightarrow> runtime_config \<Rightarrow> (ustr, meta) dict \<Rightarrow> int \<Rightarrow> int \<Rightarrow> int \<Rightarrow> bytes \<times> bytes \<Rightarrow> coordinator
     \<Rightarrow> handle_result res \<times> coordinator" where
  "handle_peer_payload cr encrypt decrypt py_str local_identity payload topo current config status now draw draw' eph coord =
     (case payload of
        Inl e \<Rightarrow> ((if is_value_error e then Inr (refused (exc_text e)) else Inl e), coord)
      | Inr message \<Rightarrow>
          (case rk_type message of
             Rekey_initiation \<Rightarrow>
               (handle_initiation cr decrypt py_str local_identity message topo current config status now draw draw' eph, coord)
           | Rekey_response \<Rightarrow>
               (case dict_get coord (rk_sender_node_id message) of
                  None \<Rightarrow> (Inr (refused ''no pending rekey initiation for response''), coord)
                | Some pending \<Rightarrow>
                    (case complete_runtime_rekey_response cr encrypt py_str local_identity pending payload topo current config
                            status now draw' of
                       Inl e \<Rightarrow> (Inl e, coord)
                     | Inr result \<Rightarrow>
                         (Inr \<lparr> hr_outbound = None, hr_runtime_result = Some result,
                                hr_accepted = (rkr_applied result \<and> \<not> rkr_fail_closed result), hr_reason = None \<rparr>,
                          if rkr_applied result \<or> rkr_fail_closed result then dict_del (rk_sender_node_id message) coord
                          else coord)))
           | Rekey_reject \<Rightarrow>
               (Inr (refused (case rk_reason message of None \<Rightarrow> ''peer rejected rekey''
                              | Some r \<Rightarrow> if r = [] then ''peer rejected rekey'' else r)),
                dict_del (rk_sender_node_id message) coord)))"

section \<open>Session metadata\<close>

definition authenticated_session_from_runtime_config :: "runtime_config \<Rightarrow> session_plan option" where
  "authenticated_session_from_runtime_config config =
     (let s = rc_security config in
      if rsec_source_mode s \<noteq> Sec_authenticated \<or> rsec_sessions s \<noteq> [] then None
      else case (rsec_local_node_id s, rsec_peer_node_id s, rsec_topology_generation s, rsec_session_role s,
                 rsec_session_created_at s, rsec_session_expires_at s, rsec_send_key s, rsec_receive_key s) of
        (Some l, Some p, Some g, Some r, Some c, Some e, Some sk, Some rk) \<Rightarrow>
          Some \<lparr> sp_local_node_id = l, sp_peer_node_id = p, sp_topology_generation = g,
                 sp_receiver_index = rsec_receiver_index s,
                 sp_role = (case r of Role_initiator \<Rightarrow> Initiator | Role_responder \<Rightarrow> Responder),
                 sp_created_at = c, sp_expires_at = e,
                 sp_rekey_after_packets = or_int (rsec_rekey_after_packets s) DEFAULT_REKEY_AFTER_PACKETS,
                 sp_rekey_after_bytes = or_int (rsec_rekey_after_bytes s) DEFAULT_REKEY_AFTER_BYTES,
                 sp_security = Some \<lparr> tm_receiver_index = rsec_receiver_index s, tm_send_key = sk, tm_receive_key = rk,
                   tm_local_receiver_index = rsec_local_receiver_index s,
                   tm_remote_receiver_index = rsec_remote_receiver_index s \<rparr> \<rparr>
      | _ \<Rightarrow> None)"

record rekey_context =
  rx_local_identity :: node_identity
  rx_peer_identity :: identity_public
  rx_topology :: topology
  rx_current_session :: session_plan

definition live_rekey_context_from_runtime ::
  "node_identity \<Rightarrow> identity_public \<Rightarrow> topology \<Rightarrow> runtime_config \<Rightarrow> rekey_context res" where
  "live_rekey_context_from_runtime local_identity peer_identity topo config =
     (case authenticated_session_from_runtime_config config of
        None \<Rightarrow> Inl (ValueError ''runtime security does not contain live-rekey-capable authenticated session metadata'')
      | Some current \<Rightarrow>
          let local_id = ip_node_id (public_of_identity local_identity); peer_id = ip_node_id peer_identity in
          if sp_local_node_id current \<noteq> local_id
          then Inl (ValueError ''local identity does not match runtime authenticated session'')
          else if sp_peer_node_id current \<noteq> peer_id
          then Inl (ValueError ''peer identity does not match runtime authenticated session'')
          else if sp_topology_generation current \<noteq> tb_generation topo
          then Inl (ValueError ''topology generation does not match runtime authenticated session'')
          else if local_id \<notin> set (topology_node_ids topo)
          then Inl (ValueError ''local identity is not present in topology bundle'')
          else if peer_id \<notin> set (topology_node_ids topo)
          then Inl (ValueError ''peer identity is not present in topology bundle'')
          else if local_id \<in> set (tb_revoked_node_ids topo)
          then Inl (ValueError ''local identity is revoked in topology bundle'')
          else if peer_id \<in> set (tb_revoked_node_ids topo)
          then Inl (ValueError ''peer identity is revoked in topology bundle'')
          else Inr \<lparr> rx_local_identity = local_identity, rx_peer_identity = peer_identity, rx_topology = topo,
                     rx_current_session = current \<rparr>)"

section \<open>Lemmas\<close>

lemma evaluate_none:
  "rotation_for py_str current status now margin overlap draw = Inr dec \<Longrightarrow> \<not> fail_closed dec \<Longrightarrow>
     evaluate_rekey_from_status py_str current config status None now margin overlap draw
       = Inr \<lparr> rkr_decision = dec, rkr_runtime_config = config, rkr_applied = False, rkr_fail_closed = False \<rparr>"
  by (simp add: evaluate_rekey_from_status_def)

lemma evaluate_fail_closed:
  "rotation_for py_str current status now margin overlap draw = Inr dec \<Longrightarrow> fail_closed dec \<Longrightarrow>
     evaluate_rekey_from_status py_str current config status (Some r) now margin overlap draw
       = Inr \<lparr> rkr_decision = dec, rkr_runtime_config = config, rkr_applied = False, rkr_fail_closed = True \<rparr>"
  by (simp add: evaluate_rekey_from_status_def)

lemma evaluate_applies:
  assumes "rotation_for py_str current status now margin overlap draw = Inr dec" and "\<not> fail_closed dec"
    and "replacement_validation_error current r = None" and "runtime_security_from_session r = Inr security"
  shows "evaluate_rekey_from_status py_str current config status (Some r) now margin overlap draw
    = Inr \<lparr> rkr_decision = dec, rkr_runtime_config = config\<lparr> rc_security := security \<rparr>, rkr_applied = True, rkr_fail_closed = False \<rparr>"
  using assms by (simp add: evaluate_rekey_from_status_def apply_replacement_session_def)

lemma accept_drawn_index:
  "accept_noise_ik_initiation cr decrypt b m topo None draw eph now life =
     accept_noise_ik_initiation cr decrypt b m topo (Some (generate_receiver_index draw)) draw eph now life"
  by (simp add: accept_noise_ik_initiation_def receiver_index_or_def)

text \<open>The current session of two connected nodes, as each side sees it.\<close>

definition connected :: "topology \<Rightarrow> node_identity \<Rightarrow> session_plan \<Rightarrow> node_identity \<Rightarrow> session_plan \<Rightarrow> bool" where
  "connected topo a ca b cb \<longleftrightarrow>
     sp_local_node_id ca = ip_node_id (public_of_identity a) \<and> sp_peer_node_id ca = ip_node_id (public_of_identity b) \<and>
     sp_local_node_id cb = ip_node_id (public_of_identity b) \<and> sp_peer_node_id cb = ip_node_id (public_of_identity a) \<and>
     sp_topology_generation ca = tb_generation topo \<and> sp_topology_generation cb = tb_generation topo \<and>
     remote_receive_index ca = local_receive_index cb \<and> remote_receive_index cb = local_receive_index ca"

text \<open>What two nodes need for a handshake at times \<open>t0\<close>, \<open>t1\<close>, \<open>t2\<close> with the ephemeral keys given.\<close>

definition handshake_possible ::
  "crypto \<Rightarrow> aead_encrypt \<Rightarrow> aead_decrypt \<Rightarrow> topology \<Rightarrow> node_identity \<Rightarrow> node_identity \<Rightarrow> bytes \<times> bytes \<Rightarrow> bytes \<times> bytes \<Rightarrow> int \<Rightarrow> int \<Rightarrow> int
     \<Rightarrow> bool" where
  "handshake_possible cr encrypt decrypt topo a b ea eb t0 t1 t2 \<longleftrightarrow>
     crypto_ok cr \<and> aead encrypt decrypt \<and> identity_wf cr a \<and> identity_wf cr b \<and>
     identifies topo a \<and> identifies topo b \<and> distinct (topology_node_ids topo) \<and>
     (\<forall>c\<in>set (tb_issuer_node_id topo). c < 128) \<and>
     x25519_public_of cr (fst ea) = Some (snd ea) \<and> x25519_public_of cr (fst eb) = Some (snd eb) \<and>
     x25519_exchange cr (fst ea) (ni_x25519_public b) \<noteq> None \<and>
     x25519_exchange cr (ni_x25519_private a) (ni_x25519_public b) \<noteq> None \<and>
     x25519_exchange cr (fst ea) (snd eb) \<noteq> None \<and>
     t0 \<le> t1 \<and> t1 \<le> t0 + seconds DEFAULT_NOISE_HANDSHAKE_LIFETIME_SECONDS \<and>
     t1 \<le> t2 \<and> t2 \<le> t1 + seconds DEFAULT_SESSION_LIFETIME_SECONDS"

lemma handshake_possible_run:
  assumes "handshake_possible cr encrypt decrypt topo a b ea eb t0 t1 t2"
    and "0 \<le> i" "i < 2 ^ 32" "0 \<le> generate_receiver_index draw'" "generate_receiver_index draw' < 2 ^ 32"
  shows "\<exists>p acc s.
    create_noise_ik_initiation cr encrypt a (public_of_identity b) topo (Some i) draw ea t0 DEFAULT_NOISE_HANDSHAKE_LIFETIME_SECONDS = Inr p \<and>
    accept_noise_ik_initiation cr decrypt b (pd_message p) topo None draw' eb t1 DEFAULT_SESSION_LIFETIME_SECONDS = Inr acc \<and>
    complete_noise_ik_initiator cr encrypt a p (an_response acc) topo t2 = Inr s \<and> sessions_match s (an_session acc)"
proof -
  obtain ek ep rk re where e: "ea = (ek, ep)" "eb = (rk, re)" by (cases ea, cases eb) blast
  obtain es ss ee where dh: "x25519_exchange cr ek (ni_x25519_public b) = Some es"
    "x25519_exchange cr (ni_x25519_private a) (ni_x25519_public b) = Some ss" "x25519_exchange cr ek re = Some ee"
    using assms(1) by (auto simp: handshake_possible_def e)
  show ?thesis
    unfolding accept_drawn_index e
    by (rule handshake_run [where es = es and ss = ss and ee = ee])
      (use assms dh in \<open>simp_all add: handshake_possible_def e const_simps\<close>)
qed

lemma complete_session_fields:
  assumes "complete_noise_ik_initiator cr encrypt a p r topo now = Inr s"
  shows "sp_receiver_index s = nr_responder_receiver_index r \<and> sp_topology_generation s = tb_generation topo \<and>
    (\<exists>m. sp_security s = Some m \<and> tm_remote_receiver_index m = nr_responder_receiver_index r \<and>
       tm_local_receiver_index m = nm_initiator_receiver_index (pd_message p))"
  using assms
  by (auto simp: complete_noise_ik_initiator_def rbind_eq_Inr Let_def split_beta split: if_split_asm)

lemma accept_session_fields:
  assumes "accept_noise_ik_initiation cr decrypt b m topo index draw eph now life = Inr acc"
  shows "sp_receiver_index (an_session acc) = receiver_index_or index draw \<and>
    nr_responder_receiver_index (an_response acc) = receiver_index_or index draw \<and>
    sp_topology_generation (an_session acc) = tb_generation topo \<and>
    sp_local_node_id (an_session acc) = ip_node_id (public_of_identity b) \<and>
    (\<exists>x. sp_security (an_session acc) = Some x \<and> tm_local_receiver_index x = receiver_index_or index draw \<and>
       tm_remote_receiver_index x = nm_initiator_receiver_index m)"
  using assms
  by (auto simp: accept_noise_ik_initiation_def rbind_eq_Inr Let_def split_beta split: if_split_asm)

lemma create_message_fields:
  assumes "create_noise_ik_initiation cr encrypt a peer topo (Some i) draw eph now life = Inr p"
  shows "nm_initiator_receiver_index (pd_message p) = i"
  using assms
  by (auto simp: create_noise_ik_initiation_def receiver_index_or_def rbind_eq_Inr Let_def split_beta split: prod.split_asm)

text \<open>A complete exchange of rekey payloads between connected nodes.\<close>

lemma rekey_payloads:
  assumes hs: "handshake_possible cr encrypt decrypt topo a b ea eb t0 t1 t2" and conn: "connected topo a ca b cb"
    and idx: "0 < i" "i < 2 ^ 32" "0 \<le> draw'" "draw' < 2 ^ 32 - 1"
  shows "\<exists>pending accepted s.
    create_rekey_initiation cr encrypt a (public_of_identity b) topo ca t0 (Some i) draw ea = Inr pending \<and>
    rk_type (pr_message pending) = Rekey_initiation \<and> rk_sender_node_id (pr_message pending) = ip_node_id (public_of_identity a) \<and>
    accept_rekey_initiation_payload cr decrypt b (Inr (pr_message pending)) topo cb t1 None draw' eb = Inr accepted \<and>
    rk_type (ar_message accepted) = Rekey_response \<and> rk_sender_node_id (ar_message accepted) = ip_node_id (public_of_identity b) \<and>
    complete_rekey_response_payload cr encrypt a pending (Inr (ar_message accepted)) topo ca t2 = Inr s \<and>
    sessions_match s (an_session (ar_noise accepted)) \<and>
    sp_receiver_index s = draw' + 1 \<and> sp_receiver_index (an_session (ar_noise accepted)) = draw' + 1 \<and>
    sp_topology_generation s = tb_generation topo \<and> sp_peer_node_id s = ip_node_id (public_of_identity b) \<and>
    sp_peer_node_id (an_session (ar_noise accepted)) = ip_node_id (public_of_identity a) \<and>
    (\<exists>m. sp_security s = Some m \<and> tm_remote_receiver_index m = draw' + 1 \<and> tm_local_receiver_index m = i)"
proof -
  have gen: "generate_receiver_index draw' = draw' + 1" by (simp add: generate_receiver_index_def const_simps)
  have g: "0 \<le> generate_receiver_index draw'" "generate_receiver_index draw' < 2 ^ 32" "0 \<le> i" using idx gen by simp_all
  obtain p acc s where run:
    "create_noise_ik_initiation cr encrypt a (public_of_identity b) topo (Some i) draw ea t0 DEFAULT_NOISE_HANDSHAKE_LIFETIME_SECONDS = Inr p"
    "accept_noise_ik_initiation cr decrypt b (pd_message p) topo None draw' eb t1 DEFAULT_SESSION_LIFETIME_SECONDS = Inr acc"
    "complete_noise_ik_initiator cr encrypt a p (an_response acc) topo t2 = Inr s" "sessions_match s (an_session acc)"
    using handshake_possible_run [OF hs g(3) idx(2) g(1,2), of draw] by blast
  have "sp_local_node_id s = ip_node_id (public_of_identity a)"
    using run(3) by (auto simp: complete_noise_ik_initiator_def rbind_eq_Inr Let_def split_beta split: if_split_asm)
  then show ?thesis
    using run conn accept_session_fields [OF run(2)] complete_session_fields [OF run(3)] create_message_fields [OF run(1)] gen
    by (auto simp: create_rekey_initiation_def validate_current_session_def accept_rekey_initiation_payload_def
        complete_rekey_response_payload_def validate_rekey_message_for_current_session_def connected_def Let_def
        sessions_match_def receiver_index_or_def)
qed

section \<open>Properties\<close>


definition sample_current_a :: session_plan where
  "sample_current_a = session_of sample_topology Initiator (sample_identity 3) (sample_identity 5) 11 10 11 0 (seconds 120) [1] [2]"

definition sample_current_b :: "int \<Rightarrow> session_plan" where
  "sample_current_b expires = session_of sample_topology Responder (sample_identity 5) (sample_identity 3) 11 11 10 0 expires [2] [1]"

lemma sample_connected: "connected sample_topology (sample_identity 3) sample_current_a (sample_identity 5) (sample_current_b expires)"
  by (simp add: connected_def sample_current_a_def sample_current_b_def session_of_def remote_receive_index_def
      local_receive_index_def or_int_def)

lemma sample_possible:
  "handshake_possible sample_crypto sample_encrypt sample_decrypt sample_topology (sample_identity 3) (sample_identity 5)
     (sample_ephemeral 7, sample_ephemeral 7) (sample_ephemeral 8, sample_ephemeral 8) 100000000 101000000 102000000"
  using sample_handshake by (simp add: handshake_possible_def seconds_def const_simps)

lemma no_status:
  "rotation_for py_str current [] now margin overlap draw =
     plan_session_rotation current \<lparr> rr_now = now, rr_packets = 0, rr_bytes = 0, rr_observed_generation = None,
       rr_observed_peer = None, rr_margin_seconds = margin, rr_overlap_seconds = overlap, rr_next_index = None \<rparr> draw"
  by (simp add: rotation_for_def traffic_totals_def optional_int_def rekey_optional_str_def)

lemma sample_rotation:
  assumes "sp_expires_at current = 120000000" and "sp_receiver_index current = 11"
    and "sp_rekey_after_packets current = DEFAULT_REKEY_AFTER_PACKETS" and "sp_rekey_after_bytes current = DEFAULT_REKEY_AFTER_BYTES"
    and "90000000 \<le> now" and "now < 120000000" and "draw \<noteq> 10"
  shows "\<exists>dec. rotation_for py_str current [] now 30 10 draw = Inr dec \<and> should_rekey dec \<and> \<not> fail_closed dec \<and>
    rd_next_receiver_index dec = Some (draw + 1)"
  using assms
  by (auto simp: no_status plan_session_rotation_def decision_def should_rekey_def fail_closed_def seconds_def
      generate_receiver_index_def const_simps Let_def)

lemma sample_current_fields:
  "sp_expires_at sample_current_a = 120000000" "sp_receiver_index sample_current_a = 11"
  "sp_rekey_after_packets sample_current_a = DEFAULT_REKEY_AFTER_PACKETS" "sp_rekey_after_bytes sample_current_a = DEFAULT_REKEY_AFTER_BYTES"
  "sp_expires_at (sample_current_b e) = e" "sp_receiver_index (sample_current_b e) = 11"
  "sp_rekey_after_packets (sample_current_b e) = DEFAULT_REKEY_AFTER_PACKETS" "sp_rekey_after_bytes (sample_current_b e) = DEFAULT_REKEY_AFTER_BYTES"
  by (simp_all add: sample_current_a_def sample_current_b_def session_of_def seconds_def)


text \<open>The keys two nodes run after a rekey.\<close>

definition securities_match :: "runtime_security \<Rightarrow> runtime_security \<Rightarrow> bool" where
  "securities_match s r \<longleftrightarrow>
     rsec_send_key s \<noteq> None \<and> rsec_receive_key s \<noteq> None \<and>
     rsec_send_key s = rsec_receive_key r \<and> rsec_receive_key s = rsec_send_key r \<and>
     rsec_remote_receiver_index s = rsec_local_receiver_index r \<and> rsec_local_receiver_index s = rsec_remote_receiver_index r"

lemma matching_runtime_security:
  assumes "sessions_match s r" and "sp_security s = Some m" and "tm_remote_receiver_index m \<noteq> 0" and "tm_local_receiver_index m \<noteq> 0"
  shows "\<exists>a b. runtime_security_from_session s = Inr a \<and> runtime_security_from_session r = Inr b \<and> securities_match a b"
proof -
  obtain m' where "sp_security r = Some m'" "tm_send_key m = tm_receive_key m'" "tm_receive_key m = tm_send_key m'"
    "tm_remote_receiver_index m = tm_local_receiver_index m'" "tm_local_receiver_index m = tm_remote_receiver_index m'"
    using assms(1,2) by (auto simp: sessions_match_def)
  then show ?thesis using assms(2-4) by (simp add: runtime_security_from_session_def securities_match_def or_int_def)
qed

lemma start_sends:
  assumes "dict_get coord (ip_node_id peer) = None"
    and "rotation_for py_str current status now margin overlap draw = Inr dec" and "should_rekey dec"
    and "rd_next_receiver_index dec = Some i"
    and "create_rekey_initiation cr encrypt l peer topo current now (Some i) draw eph = Inr pending"
  shows "maybe_start cr encrypt py_str l peer topo current config status now margin overlap draw eph coord =
    (Inr (Some \<lparr> ob_peer_node_id = ip_node_id peer, ob_payload = pr_message pending \<rparr>), dict_set (ip_node_id peer) pending coord)"
proof -
  have "\<not> fail_closed dec" using assms(3) by (auto simp: should_rekey_def fail_closed_def)
  then show ?thesis using assms evaluate_none [OF assms(2)] by (simp add: maybe_start_def start_rekey_def)
qed





end
