(* ===== verification/Dataplane_Replay.thy ===== *)
theory Dataplane_Replay
  imports Replay
begin

text \<open>
  The replay window of the Rust dataplane, \<^verbatim>\<open>crates/crypto/src/replay.rs\<close>. It keeps a ring of
  \<^verbatim>\<open>window_bits\<close> slots, each holding the last counter written there, where the Python window
  keeps a bitmap: \<open>ring_window\<close> is the struct, \<open>ring_new\<close> the constructor with its clamp,
  \<open>ring_accept\<close> the decision. Counters are 64-bit words; \<^verbatim>\<open>usize\<close> values are naturals, all at
  most the clamp.

  \<open>ring_rel\<close> relates a ring to the set of counters accepted so far, and the ring is a second
  interpretation of \<open>replay_filter\<close>. The theorem shows that the ring decides by the same
  specification as the Python window, and that on windows both can represent the two agree on every
  sequence of counters.
\<close>

definition DEFAULT_REPLAY_WINDOW_BITS :: nat where
  "DEFAULT_REPLAY_WINDOW_BITS = 1048576"

definition MAX_REPLAY_WINDOW_BITS :: nat where
  "MAX_REPLAY_WINDOW_BITS = 4194304"

record ring_window =
  rw_highest :: "64 word"
  rw_seen :: "64 word option list"
  rw_initialized :: bool
  rw_window_bits :: nat

definition ring_new :: "nat \<Rightarrow> ring_window" where
  "ring_new bits =
     (let w = max 1 (min bits MAX_REPLAY_WINDOW_BITS) in
      \<lparr>rw_highest = 0, rw_seen = replicate w None, rw_initialized = False, rw_window_bits = w\<rparr>)"

definition ring_default :: ring_window where
  "ring_default = ring_new DEFAULT_REPLAY_WINDOW_BITS"

definition ring_highest :: "ring_window \<Rightarrow> 64 word option" where
  "ring_highest win = (if rw_initialized win then Some (rw_highest win) else None)"

definition ring_slot :: "ring_window \<Rightarrow> 64 word \<Rightarrow> nat" where
  "ring_slot win counter = unat counter mod rw_window_bits win"

definition is_seen :: "ring_window \<Rightarrow> 64 word \<Rightarrow> bool" where
  "is_seen win counter \<longleftrightarrow> rw_seen win ! ring_slot win counter = Some counter"

definition mark_seen :: "64 word \<Rightarrow> ring_window \<Rightarrow> ring_window" where
  "mark_seen counter win = win\<lparr>rw_seen := (rw_seen win)[ring_slot win counter := Some counter]\<rparr>"

definition ring_accept :: "64 word \<Rightarrow> ring_window \<Rightarrow> bool \<times> ring_window" where
  "ring_accept counter win =
     (if \<not> rw_initialized win
      then (True, mark_seen counter (win\<lparr>rw_initialized := True, rw_highest := counter\<rparr>))
      else if counter > rw_highest win
      then (True, mark_seen counter (win\<lparr>rw_highest := counter\<rparr>))
      else
        let behind = rw_highest win - counter in
        if behind \<ge> of_nat (rw_window_bits win) then (False, win)
        else if is_seen win counter then (False, win)
        else (True, mark_seen counter win))"

section \<open>Refinement\<close>

definition ring_rel :: "ring_window \<Rightarrow> 64 word set \<Rightarrow> bool" where
  "ring_rel win seen \<longleftrightarrow>
     0 < rw_window_bits win \<and> rw_window_bits win \<le> MAX_REPLAY_WINDOW_BITS
     \<and> length (rw_seen win) = rw_window_bits win
     \<and> (rw_initialized win \<longleftrightarrow> seen \<noteq> {}) \<and> (seen \<noteq> {} \<longrightarrow> rw_highest win = Max seen)
     \<and> (\<forall>c. Some c \<in> set (rw_seen win) \<longrightarrow> c \<in> seen)
     \<and> (\<forall>c \<in> seen. unat (rw_highest win) - unat c < rw_window_bits win \<longrightarrow> is_seen win c)"

lemma ring_rel_new: "ring_rel (ring_new bits) {}"
  by (auto simp: ring_rel_def ring_new_def Let_def MAX_REPLAY_WINDOW_BITS_def)

lemma mod_window_neq:
  fixes a b w :: nat
  assumes "a < b" "b - a < w"
  shows "a mod w \<noteq> b mod w"
proof
  assume "a mod w = b mod w"
  then have "w dvd b - a" using assms(1) by (metis mod_eq_dvd_iff_nat less_imp_le)
  then show False using assms dvd_imp_le [of w "b - a"] by simp
qed

lemma slots_differ:
  assumes "c \<noteq> d" "unat c < unat d + w" "unat d < unat c + w"
  shows "unat (c :: 64 word) mod w \<noteq> unat d mod w"
proof (cases "unat c < unat d")
  case True
  then show ?thesis using assms mod_window_neq [of "unat c" "unat d" w] by simp
next
  case False
  then have "unat d < unat c" using assms(1) by (simp add: word_unat_eq_iff)
  then show ?thesis using assms mod_window_neq [of "unat d" "unat c" w] by fastforce
qed

lemma mark_seen_fields [simp]:
  "rw_highest (mark_seen c win) = rw_highest win" "rw_initialized (mark_seen c win) = rw_initialized win"
  "rw_window_bits (mark_seen c win) = rw_window_bits win" "length (rw_seen (mark_seen c win)) = length (rw_seen win)"
  by (simp_all add: mark_seen_def)

lemma is_seen_mark_self: "0 < rw_window_bits win \<Longrightarrow> length (rw_seen win) = rw_window_bits win \<Longrightarrow> is_seen (mark_seen c win) c"
  by (simp add: is_seen_def mark_seen_def ring_slot_def)

lemma is_seen_mark_other: "ring_slot win d \<noteq> ring_slot win c \<Longrightarrow> is_seen (mark_seen c win) d = is_seen win d"
  by (simp add: is_seen_def mark_seen_def ring_slot_def)

lemma ring_rel_mark:
  assumes rel: "ring_rel win seen" and h: "h = (if seen = {} \<or> rw_highest win < c then c else rw_highest win)"
    and near: "unat h - unat c < rw_window_bits win"
  shows "ring_rel (mark_seen c (win\<lparr>rw_initialized := True, rw_highest := h\<rparr>)) (insert c seen)"
proof -
  let ?win = "win\<lparr>rw_initialized := True, rw_highest := h\<rparr>"
  have w: "0 < rw_window_bits win" "rw_window_bits win \<le> MAX_REPLAY_WINDOW_BITS" "length (rw_seen win) = rw_window_bits win"
    and m: "seen \<noteq> {} \<Longrightarrow> rw_highest win = Max seen" and inside: "\<And>d. Some d \<in> set (rw_seen win) \<Longrightarrow> d \<in> seen"
    and held: "\<And>d. d \<in> seen \<Longrightarrow> unat (rw_highest win) - unat d < rw_window_bits win \<Longrightarrow> is_seen win d"
    using rel by (auto simp: ring_rel_def)
  have max: "h = Max (insert c seen)" using h m by (cases "seen = {}") (auto simp: max_def not_less simp del: Max_less_iff)
  have le: "unat d \<le> unat h" if "d \<in> insert c seen" for d
    using that max Max_ge [of "insert c seen" d] by (simp add: word_le_nat_alt)
  have "is_seen (mark_seen c ?win) d" if d: "d \<in> insert c seen" "unat h - unat d < rw_window_bits win" for d
  proof (cases "d = c")
    case True
    then show ?thesis using is_seen_mark_self [of ?win c] w by simp
  next
    case False
    then have "d \<in> seen" using d by simp
    then have "rw_highest win \<le> h" using h by (auto simp: not_less)
    then have "is_seen win d" using held [OF \<open>d \<in> seen\<close>] d(2) by (simp add: word_le_nat_alt)
    then have "is_seen ?win d" by (simp add: is_seen_def ring_slot_def)
    moreover have "ring_slot ?win d \<noteq> ring_slot ?win c"
      using slots_differ [OF False, of "rw_window_bits win"] le [OF d(1)] le [of c] d(2) near
      by (simp add: ring_slot_def)
    ultimately show ?thesis by (simp add: is_seen_mark_other)
  qed
  moreover have "d \<in> insert c seen" if "Some d \<in> set (rw_seen (mark_seen c ?win))" for d
    using that inside set_update_subset_insert [of "rw_seen win" "ring_slot ?win c" "Some c"] by (auto simp: mark_seen_def)
  ultimately show ?thesis using w max by (auto simp: ring_rel_def)
qed

lemma Max_uint: "seen \<noteq> {} \<Longrightarrow> Max (uint ` (seen :: 64 word set)) = uint (Max seen)"
  by (rule mono_Max_commute [symmetric]) (auto simp: mono_def word_le_def)

lemma inj_uint: "inj (uint :: 64 word \<Rightarrow> int)"
  by (rule injI) (simp add: word_uint_eq_iff)

lemma ring_accept_refines:
  assumes "ring_rel win seen"
  shows "fst (ring_accept c win) = spec_accept (int (rw_window_bits win)) (uint ` seen) (uint c)"
    and "ring_rel (snd (ring_accept c win)) (if fst (ring_accept c win) then insert c seen else seen)"
    and "rw_window_bits (snd (ring_accept c win)) = rw_window_bits win"
proof -
  have w: "0 < rw_window_bits win" "rw_window_bits win \<le> MAX_REPLAY_WINDOW_BITS"
    and i: "rw_initialized win \<longleftrightarrow> seen \<noteq> {}" and m: "seen \<noteq> {} \<Longrightarrow> rw_highest win = Max seen"
    and inside: "\<And>d. Some d \<in> set (rw_seen win) \<Longrightarrow> d \<in> seen" and len: "length (rw_seen win) = rw_window_bits win"
    and held: "\<And>d. d \<in> seen \<Longrightarrow> unat (rw_highest win) - unat d < rw_window_bits win \<Longrightarrow> is_seen win d"
    using assms by (auto simp: ring_rel_def)
  have spec: "spec_accept (int (rw_window_bits win)) (uint ` seen) (uint c) \<longleftrightarrow>
      c \<notin> seen \<and> (seen = {} \<or> uint (rw_highest win) - uint c < int (rw_window_bits win))"
  proof (cases "seen = {}")
    case False
    then show ?thesis
      using m uint_lt2p [of c] inj_image_mem_iff [OF inj_uint, of c seen] by (simp add: spec_accept_def Max_uint)
  qed (use uint_lt2p [of c] in \<open>simp add: spec_accept_def\<close>)
  have "ring_slot win c < length (rw_seen win)" using w len by (simp add: ring_slot_def)
  then have "is_seen win c \<Longrightarrow> c \<in> seen" using inside nth_mem unfolding is_seen_def by metis
  then have seen_iff: "is_seen win c \<longleftrightarrow> c \<in> seen" if "unat (rw_highest win) - unat c < rw_window_bits win"
    using that held by blast
  have far: "of_nat (rw_window_bits win) \<le> rw_highest win - c \<longleftrightarrow> rw_window_bits win \<le> unat (rw_highest win) - unat c"
    if "c \<le> rw_highest win"
    using that w by (simp add: word_le_nat_alt unat_sub unat_of_nat MAX_REPLAY_WINDOW_BITS_def)
  show bits: "rw_window_bits (snd (ring_accept c win)) = rw_window_bits win"
    by (simp add: ring_accept_def Let_def)
  consider (first) "seen = {}" | (above) "seen \<noteq> {}" "rw_highest win < c" | (below) "seen \<noteq> {}" "c \<le> rw_highest win" by force
  then have "fst (ring_accept c win) = spec_accept (int (rw_window_bits win)) (uint ` seen) (uint c) \<and>
    ring_rel (snd (ring_accept c win)) (if fst (ring_accept c win) then insert c seen else seen)"
  proof cases
    case first
    then show ?thesis using i w spec ring_rel_mark [OF assms, of c c] by (simp add: ring_accept_def)
  next
    case above
    then have "c \<notin> seen" using m Max_ge [of seen c] by auto
    moreover have same: "win\<lparr>rw_initialized := True, rw_highest := c\<rparr> = win\<lparr>rw_highest := c\<rparr>" using i above by simp
    moreover have "ring_rel (mark_seen c (win\<lparr>rw_highest := c\<rparr>)) (insert c seen)"
      using ring_rel_mark [OF assms, of c c] above w unfolding same by simp
    moreover have "uint (rw_highest win) - uint c < int (rw_window_bits win)" using above(2) by (simp add: word_less_def)
    ultimately show ?thesis using above i w spec by (simp add: ring_accept_def)
  next
    case below
    have d: "uint (rw_highest win) - uint c < int (rw_window_bits win) \<longleftrightarrow>
        unat (rw_highest win) - unat c < rw_window_bits win"
      using below(2) unfolding word_le_nat_alt uint_nat by linarith
    have same: "win\<lparr>rw_initialized := True, rw_highest := rw_highest win\<rparr> = win" using i below by simp
    show ?thesis
      using below i w d far [OF below(2)] spec assms seen_iff ring_rel_mark [OF assms, of "rw_highest win" c]
      by (auto simp: ring_accept_def Let_def same not_le)
  qed
  then show "fst (ring_accept c win) = spec_accept (int (rw_window_bits win)) (uint ` seen) (uint c)"
    and "ring_rel (snd (ring_accept c win)) (if fst (ring_accept c win) then insert c seen else seen)" by blast+
qed

interpretation ring: replay_filter ring_accept ring_rel
  using ring_accept_refines by unfold_locales (auto simp: spec_accept_def split: if_splits)

section \<open>Agreement of the two implementations\<close>

lemma ring_bits_filter_all: "ring_rel s seen \<Longrightarrow> rw_window_bits (snd (filter_all ring_accept cs s)) = rw_window_bits s"
proof (induction cs arbitrary: s seen)
  case (Cons c cs)
  obtain ok s' where a: "ring_accept c s = (ok, s')" by (cases "ring_accept c s")
  have "ring_rel s' (if ok then insert c seen else seen)" "rw_window_bits s' = rw_window_bits s"
    using ring_accept_refines [OF Cons.prems, of c] a by simp_all
  then show ?case using Cons.IH a by (auto simp: case_prod_unfold Let_def)
qed simp

lemma windows_agree:
  "ring_rel r seen \<Longrightarrow> window_rel p (uint ` seen) \<Longrightarrow> window_bits p = int (rw_window_bits r) \<Longrightarrow>
   map uint (fst (filter_all ring_accept cs r)) = fst (filter_all accept (map uint cs) p)"
proof (induction cs arbitrary: r p seen)
  case (Cons c cs)
  have e: "fst (accept (uint c) p) = fst (ring_accept c r)"
    using accept_refines(1) [OF Cons.prems(2)] ring_accept_refines(1) [OF Cons.prems(1)] Cons.prems(3) by simp
  have "map uint (fst (filter_all ring_accept cs (snd (ring_accept c r))))
      = fst (filter_all accept (map uint cs) (snd (accept (uint c) p)))"
    by (rule Cons.IH [where seen = "if fst (ring_accept c r) then insert c seen else seen"])
      (use Cons.prems accept_refines(2,3) [OF Cons.prems(2), of "uint c"] ring_accept_refines(2,3) [OF Cons.prems(1), of c] e
        in \<open>auto split: if_splits\<close>)
  then show ?case using e by (simp add: case_prod_unfold Let_def)
qed simp

text \<open>
  C8. The ring of the Rust dataplane decides by the same specification as the Python window: after
  any sequence of 64-bit counters it accepts a counter iff it was never accepted before and is less
  than the window size behind the highest one, in storage that never grows. With a window both can
  represent (at most 128 counters), Rust and Python accept the same counters of every sequence.
\<close>
theorem ring_window_refines_spec:
  "let (accepted, win) = filter_all ring_accept cs (ring_new bits); w = max 1 (min bits MAX_REPLAY_WINDOW_BITS) in
     distinct accepted
     \<and> (fst (ring_accept c win) \<longleftrightarrow> spec_accept (int w) (uint ` set accepted) (uint c))
     \<and> length (rw_seen win) = w
     \<and> map uint (fst (filter_all ring_accept cs (ring_new (min bits 128))))
         = fst (filter_all accept (map uint cs) (new_window (int (min bits 128))))"
proof -
  let ?r = "filter_all ring_accept cs (ring_new bits)"
  have f: "distinct (fst ?r)" "ring_rel (snd ?r) (set (fst ?r))"
    using ring.filter_all_fresh [OF ring_rel_new [of bits], of cs] by auto
  have b: "rw_window_bits (snd ?r) = max 1 (min bits MAX_REPLAY_WINDOW_BITS)"
    using ring_bits_filter_all [OF ring_rel_new] by (simp add: ring_new_def Let_def)
  have "map uint (fst (filter_all ring_accept cs (ring_new (min bits 128))))
      = fst (filter_all accept (map uint cs) (new_window (int (min bits 128))))"
    by (rule windows_agree [OF ring_rel_new]) (auto simp: window_rel_new, auto simp: new_window_def ring_new_def Let_def MAX_REPLAY_WINDOW_BITS_def)
  then show ?thesis using f b ring_accept_refines(1) [OF f(2), of c] by (simp add: case_prod_unfold ring_rel_def Let_def)
qed

end
