(* ===== verification/Dataplane_Wrr.thy ===== *)
theory Dataplane_Wrr
  imports GL_Prelude
begin

text \<open>
  Weighted round robin of the Rust dataplane: \<^verbatim>\<open>crates/dataplane/src/scheduler/weighted_rr.rs\<close>
  over the path facts of \<^verbatim>\<open>runtime_config.rs\<close>. \<open>core_path\<close> holds the fields of
  \<^verbatim>\<open>CorePathConfig\<close> the scheduler reads; \<open>core_path_new\<close> is its constructor with default
  primitives, whose loss check cannot fail. \<open>wrr_slot\<close> is \<^verbatim>\<open>WeightedPathSlot\<close>,
  \<open>compile_with_path_weights\<close> the compiler, \<open>select_eligible\<close> one round of the smooth weighted
  selection and \<open>select_path_index_where\<close> the four attempts of a send. A scheduler is its list of
  slots, returned updated. Current weights are \<^verbatim>\<open>i64\<close> in the source and integers here: the
  fairness theorem also bounds them far inside 64 bits, so no addition overflows.
\<close>

section \<open>Paths\<close>

datatype path_scheduler_state = St_active | St_busy | St_drain | St_disabled

record core_path =
  cp_path_id :: "16 word"
  cp_mtu :: nat
  cp_enabled :: bool
  cp_state :: path_scheduler_state
  cp_weight :: "16 word"

datatype path_error = PathMtuTooSmall "16 word" nat | PathWeightTooSmall "16 word"

definition core_path_new :: "16 word \<Rightarrow> nat \<Rightarrow> bool \<Rightarrow> path_scheduler_state \<Rightarrow> 16 word \<Rightarrow> path_error + core_path" where
  "core_path_new path_id mtu enabled state weight =
     (if mtu \<le> 14 + 10 then Inl (PathMtuTooSmall path_id mtu)
      else if weight = 0 then Inl (PathWeightTooSmall path_id)
      else Inr \<lparr>cp_path_id = path_id, cp_mtu = mtu, cp_enabled = enabled, cp_state = state, cp_weight = weight\<rparr>)"

definition path_enabled :: "core_path \<Rightarrow> bool" where
  "path_enabled path \<longleftrightarrow> cp_enabled path \<and> cp_state path \<noteq> St_disabled"

definition accepts_whole_packet :: "core_path \<Rightarrow> bool" where
  "accepts_whole_packet path \<longleftrightarrow> path_enabled path \<and> cp_state path = St_active"

definition accepts_fragmented_packet :: "core_path \<Rightarrow> bool" where
  "accepts_fragmented_packet path \<longleftrightarrow> path_enabled path \<and> (cp_state path = St_active \<or> cp_state path = St_drain)"

definition max_data_payload :: "core_path \<Rightarrow> nat" where
  "max_data_payload path = cp_mtu path - 14"

definition max_fragment_payload :: "core_path \<Rightarrow> nat" where
  "max_fragment_payload path = cp_mtu path - 14 - 10"

section \<open>Slots\<close>

record wrr_slot =
  ws_path_index :: nat
  ws_weight :: "16 word"
  ws_current_weight :: int

definition service_weight_for_path :: "16 word \<Rightarrow> 16 word \<Rightarrow> (16 word \<times> 16 word) list \<Rightarrow> 16 word option" where
  "service_weight_for_path path_id default_weight path_weights =
     (if path_weights = [] then Some default_weight
      else map_option snd (find (\<lambda>(weighted_path_id, weight). weighted_path_id = path_id \<and> weight > 0) path_weights))"

fun compile_slots :: "nat \<Rightarrow> core_path list \<Rightarrow> 16 word list \<Rightarrow> (16 word \<times> 16 word) list \<Rightarrow> wrr_slot list" where
  "compile_slots index [] allowed_path_ids path_weights = []"
| "compile_slots index (path # paths) allowed_path_ids path_weights =
     (let rest = compile_slots (Suc index) paths allowed_path_ids path_weights in
      if \<not> path_enabled path then rest
      else if allowed_path_ids \<noteq> [] \<and> cp_path_id path \<notin> set allowed_path_ids then rest
      else case service_weight_for_path (cp_path_id path) (cp_weight path) path_weights of
        None \<Rightarrow> rest
      | Some weight \<Rightarrow> \<lparr>ws_path_index = index, ws_weight = weight, ws_current_weight = 0\<rparr> # rest)"

definition compile_with_path_weights :: "core_path list \<Rightarrow> 16 word list \<Rightarrow> (16 word \<times> 16 word) list \<Rightarrow> wrr_slot list" where
  "compile_with_path_weights paths allowed_path_ids path_weights = compile_slots 0 paths allowed_path_ids path_weights"

record scan_state =
  sc_total_weight :: int
  sc_best_slot :: "nat option"
  sc_best_current_weight :: int
  sc_best_path_index :: nat

fun scan_slots :: "(wrr_slot \<Rightarrow> bool) \<Rightarrow> nat \<Rightarrow> wrr_slot list \<Rightarrow> scan_state \<Rightarrow> scan_state \<times> wrr_slot list" where
  "scan_slots eligible slot_index [] st = (st, [])"
| "scan_slots eligible slot_index (slot # slots) st =
     (if \<not> eligible slot then apsnd ((#) slot) (scan_slots eligible (Suc slot_index) slots st)
      else
        let total = sc_total_weight st + uint (ws_weight slot);
            current = ws_current_weight slot + uint (ws_weight slot);
            st' = (if current > sc_best_current_weight st
                      \<or> (current = sc_best_current_weight st \<and> ws_path_index slot < sc_best_path_index st)
                   then \<lparr>sc_total_weight = total, sc_best_slot = Some slot_index, sc_best_current_weight = current,
                         sc_best_path_index = ws_path_index slot\<rparr>
                   else st\<lparr>sc_total_weight := total\<rparr>)
        in apsnd ((#) (slot\<lparr>ws_current_weight := current\<rparr>)) (scan_slots eligible (Suc slot_index) slots st'))"

definition select_eligible :: "(wrr_slot \<Rightarrow> bool) \<Rightarrow> wrr_slot list \<Rightarrow> nat option \<times> wrr_slot list" where
  "select_eligible eligible slots =
     (let (st, slots') = scan_slots eligible 0 slots
            \<lparr>sc_total_weight = 0, sc_best_slot = None, sc_best_current_weight = - (2 ^ 63), sc_best_path_index = 2 ^ 64 - 1\<rparr> in
      case sc_best_slot st of
        None \<Rightarrow> (None, slots')
      | Some i \<Rightarrow>
          (Some (ws_path_index (slots' ! i)),
           slots'[i := (slots' ! i)\<lparr>ws_current_weight := ws_current_weight (slots' ! i) - sc_total_weight st\<rparr>]))"

fun first_enabled :: "(core_path \<Rightarrow> bool) \<Rightarrow> nat \<Rightarrow> core_path list \<Rightarrow> nat option" where
  "first_enabled allowed index [] = None"
| "first_enabled allowed index (path # paths) =
     (if allowed path \<and> path_enabled path then Some index else first_enabled allowed (Suc index) paths)"

definition select_path_index_where :: "core_path list \<Rightarrow> nat \<Rightarrow> (core_path \<Rightarrow> bool) \<Rightarrow> wrr_slot list \<Rightarrow> nat option \<times> wrr_slot list" where
  "select_path_index_where paths payload_len allowed slots =
     (if slots = [] then (None, slots)
      else
        let attempt = (\<lambda>eligible slots. select_eligible (\<lambda>slot. eligible (paths ! ws_path_index slot)) slots);
            (whole, slots1) = attempt (\<lambda>path. allowed path \<and> accepts_whole_packet path \<and> payload_len \<le> max_data_payload path) slots
        in if whole \<noteq> None then (whole, slots1) else
        let (fragmented, slots2) = attempt (\<lambda>path. allowed path \<and> accepts_fragmented_packet path) slots1
        in if fragmented \<noteq> None then (fragmented, slots2) else
        let (any_fit, slots3) = attempt (\<lambda>path. allowed path \<and> path_enabled path \<and> payload_len \<le> max_data_payload path) slots2
        in if any_fit \<noteq> None then (any_fit, slots3) else (first_enabled allowed 0 paths, slots3))"

definition select_path_index :: "core_path list \<Rightarrow> nat \<Rightarrow> wrr_slot list \<Rightarrow> nat option \<times> wrr_slot list" where
  "select_path_index paths payload_len slots = select_path_index_where paths payload_len (\<lambda>_. True) slots"

text \<open>A run of sends of the same payload size: the chosen path of each, and the final slots.\<close>

fun select_many :: "nat \<Rightarrow> core_path list \<Rightarrow> nat \<Rightarrow> wrr_slot list \<Rightarrow> nat option list \<times> wrr_slot list" where
  "select_many 0 paths payload_len slots = ([], slots)"
| "select_many (Suc n) paths payload_len slots =
     (let (picks, slots') = select_many n paths payload_len slots; (pick, slots'') = select_path_index paths payload_len slots' in
      (picks @ [pick], slots''))"

section \<open>One selection\<close>

definition bump :: "(wrr_slot \<Rightarrow> bool) \<Rightarrow> wrr_slot \<Rightarrow> wrr_slot" where
  "bump eligible slot =
     (if eligible slot then slot\<lparr>ws_current_weight := ws_current_weight slot + uint (ws_weight slot)\<rparr> else slot)"

lemma scan_slots_spec:
  "snd (scan_slots e i slots st) = map (bump e) slots
   \<and> sc_total_weight (fst (scan_slots e i slots st)) = sc_total_weight st + sum_list (map (uint \<circ> ws_weight) (filter e slots))
   \<and> sc_best_current_weight st \<le> sc_best_current_weight (fst (scan_slots e i slots st))
   \<and> (\<forall>s \<in> set slots. e s \<longrightarrow> ws_current_weight (bump e s) \<le> sc_best_current_weight (fst (scan_slots e i slots st)))
   \<and> ((sc_best_slot (fst (scan_slots e i slots st)) = sc_best_slot st
         \<and> sc_best_current_weight (fst (scan_slots e i slots st)) = sc_best_current_weight st)
      \<or> (\<exists>j < length slots. sc_best_slot (fst (scan_slots e i slots st)) = Some (i + j) \<and> e (slots ! j)
         \<and> sc_best_current_weight (fst (scan_slots e i slots st)) = ws_current_weight (bump e (slots ! j))))"
proof (induction slots arbitrary: i st)
  case (Cons s slots)
  show ?case
  proof (cases "e s")
    case False
    then show ?thesis using Cons.IH [of "Suc i" st] by (force simp: bump_def)
  next
    case True
    define st' where "st' = (if ws_current_weight s + uint (ws_weight s) > sc_best_current_weight st
            \<or> (ws_current_weight s + uint (ws_weight s) = sc_best_current_weight st \<and> ws_path_index s < sc_best_path_index st)
          then \<lparr>sc_total_weight = sc_total_weight st + uint (ws_weight s), sc_best_slot = Some i,
                sc_best_current_weight = ws_current_weight s + uint (ws_weight s), sc_best_path_index = ws_path_index s\<rparr>
          else st\<lparr>sc_total_weight := sc_total_weight st + uint (ws_weight s)\<rparr>)"
    have unfold: "scan_slots e i (s # slots) st = apsnd ((#) (bump e s)) (scan_slots e (Suc i) slots st')"
      using True by (simp add: st'_def bump_def Let_def)
    have first: "(sc_best_slot st' = Some i \<and> sc_best_current_weight st' = ws_current_weight (bump e s))
        \<or> (sc_best_slot st' = sc_best_slot st \<and> sc_best_current_weight st' = sc_best_current_weight st)"
      and le: "sc_best_current_weight st \<le> sc_best_current_weight st'" "ws_current_weight (bump e s) \<le> sc_best_current_weight st'"
      and total: "sc_total_weight st' = sc_total_weight st + uint (ws_weight s)"
      using True by (auto simp: st'_def bump_def)
    note ih = Cons.IH [of "Suc i" st']
    show ?thesis
      unfolding unfold using ih first le total True by (auto 0 4 simp: less_Suc_eq_0_disj intro: order_trans)
  qed
qed simp

lemma select_eligible_spec:
  assumes some: "\<exists>s \<in> set slots. e s" and bound: "\<And>s. s \<in> set slots \<Longrightarrow> e s \<Longrightarrow> - (2 ^ 63) < ws_current_weight (bump e s)"
  shows "\<exists>b < length slots. e (slots ! b)
    \<and> (\<forall>s \<in> set slots. e s \<longrightarrow> ws_current_weight (bump e s) \<le> ws_current_weight (bump e (slots ! b)))
    \<and> select_eligible e slots = (Some (ws_path_index (slots ! b)), (map (bump e) slots)[b := (bump e (slots ! b))\<lparr>ws_current_weight :=
        ws_current_weight (bump e (slots ! b)) - sum_list (map (uint \<circ> ws_weight) (filter e slots))\<rparr>])"
proof -
  define st where "st = \<lparr>sc_total_weight = 0 :: int, sc_best_slot = None :: nat option, sc_best_current_weight = - (2 ^ 63),
      sc_best_path_index = 2 ^ 64 - 1 :: nat\<rparr>"
  note spec = scan_slots_spec [of e 0 slots st]
  have "sc_best_current_weight (fst (scan_slots e 0 slots st)) \<noteq> sc_best_current_weight st"
    using spec some bound by (force simp: st_def)
  then obtain b where b: "b < length slots" "sc_best_slot (fst (scan_slots e 0 slots st)) = Some b" "e (slots ! b)"
      "sc_best_current_weight (fst (scan_slots e 0 slots st)) = ws_current_weight (bump e (slots ! b))"
    using spec by auto
  have idx: "ws_path_index (bump e (slots ! b)) = ws_path_index (slots ! b)" by (simp add: bump_def)
  have "select_eligible e slots = (Some (ws_path_index (slots ! b)), (map (bump e) slots)[b := (bump e (slots ! b))\<lparr>ws_current_weight :=
        ws_current_weight (bump e (slots ! b)) - sum_list (map (uint \<circ> ws_weight) (filter e slots))\<rparr>])"
    using spec b idx unfolding select_eligible_def st_def [symmetric]
    by (simp add: case_prod_unfold st_def)
  then show ?thesis using b spec by (intro exI [of _ b]) auto
qed

section \<open>Compiled slots\<close>

definition slots_wf :: "core_path list \<Rightarrow> wrr_slot list \<Rightarrow> bool" where
  "slots_wf paths slots \<longleftrightarrow>
     distinct (map ws_path_index slots)
     \<and> (\<forall>s \<in> set slots. ws_path_index s < length paths \<and> ws_weight s \<noteq> 0 \<and> ws_current_weight s = 0)"

lemma service_weight_pos:
  "dw \<noteq> 0 \<Longrightarrow> service_weight_for_path p dw ws = Some w \<Longrightarrow> w \<noteq> 0"
  by (auto simp: service_weight_for_path_def find_Some_iff split: if_splits)

lemma compile_slots_wf:
  assumes "\<forall>p \<in> set paths. cp_weight p \<noteq> 0"
  shows "distinct (map ws_path_index (compile_slots i paths allowed ws))
    \<and> (\<forall>s \<in> set (compile_slots i paths allowed ws). i \<le> ws_path_index s \<and> ws_path_index s < i + length paths
        \<and> ws_weight s \<noteq> 0 \<and> ws_current_weight s = 0)"
  using assms
proof (induction paths arbitrary: i)
  case (Cons p paths)
  define rest where "rest = compile_slots (Suc i) paths allowed ws"
  have d: "distinct (map ws_path_index rest)"
    and r: "\<And>s. s \<in> set rest \<Longrightarrow> Suc i \<le> ws_path_index s \<and> ws_path_index s < i + length (p # paths)
        \<and> ws_weight s \<noteq> 0 \<and> ws_current_weight s = 0"
    using Cons.IH [of "Suc i"] Cons.prems by (simp_all add: rest_def)
  have fresh: "i \<notin> ws_path_index ` set rest" using r by force
  have "compile_slots i (p # paths) allowed ws = rest
    \<or> (\<exists>w. w \<noteq> 0 \<and> compile_slots i (p # paths) allowed ws = \<lparr>ws_path_index = i, ws_weight = w, ws_current_weight = 0\<rparr> # rest)"
    using Cons.prems service_weight_pos [of "cp_weight p" "cp_path_id p" ws]
    by (auto simp: Let_def rest_def [symmetric] split: option.split)
  then show ?case
  proof
    assume e: "compile_slots i (p # paths) allowed ws = rest"
    show ?case unfolding e using d r by (auto dest: Suc_leD)
  next
    assume "\<exists>w. w \<noteq> 0 \<and> compile_slots i (p # paths) allowed ws = \<lparr>ws_path_index = i, ws_weight = w, ws_current_weight = 0\<rparr> # rest"
    then obtain w where w: "w \<noteq> 0"
      and e: "compile_slots i (p # paths) allowed ws = \<lparr>ws_path_index = i, ws_weight = w, ws_current_weight = 0\<rparr> # rest" by blast
    show ?case unfolding e using d r w fresh by (auto dest: Suc_leD)
  qed
qed simp

lemma compile_wf:
  "\<forall>p \<in> set paths. cp_weight p \<noteq> 0 \<Longrightarrow> slots_wf paths (compile_with_path_weights paths allowed ws)"
  using compile_slots_wf [of paths 0 allowed ws] by (auto simp: slots_wf_def compile_with_path_weights_def)

section \<open>Fairness\<close>

text \<open>
  \<open>fair_state e slots n picks slots'\<close>: after \<open>n\<close> selections among the slots that satisfy \<open>e\<close>,
  every such slot has the current weight \<open>n\<close> times its weight minus the total weight for each time it was
  picked, the current weights sum to 0 and none has reached minus the total.
\<close>

definition ready :: "(nat \<Rightarrow> bool) \<Rightarrow> wrr_slot list \<Rightarrow> nat set" where
  "ready e slots = {j. j < length slots \<and> e (ws_path_index (slots ! j))}"

definition total_weight :: "(nat \<Rightarrow> bool) \<Rightarrow> wrr_slot list \<Rightarrow> int" where
  "total_weight e slots = (\<Sum>j \<in> ready e slots. uint (ws_weight (slots ! j)))"

definition fair_state :: "(nat \<Rightarrow> bool) \<Rightarrow> wrr_slot list \<Rightarrow> nat \<Rightarrow> nat option list \<Rightarrow> wrr_slot list \<Rightarrow> bool" where
  "fair_state e slots n picks slots' \<longleftrightarrow>
     length slots' = length slots \<and> length picks = n
     \<and> (\<forall>j < length slots. slots' ! j = (slots ! j)\<lparr>ws_current_weight := ws_current_weight (slots' ! j)\<rparr>)
     \<and> (\<forall>j < length slots. j \<notin> ready e slots \<longrightarrow> slots' ! j = slots ! j)
     \<and> (\<forall>j \<in> ready e slots. ws_current_weight (slots' ! j)
           = int n * uint (ws_weight (slots ! j)) - total_weight e slots * int (count_list picks (Some (ws_path_index (slots ! j))))
         \<and> - total_weight e slots < ws_current_weight (slots' ! j))
     \<and> (\<Sum>j \<in> ready e slots. ws_current_weight (slots' ! j)) = 0
     \<and> set picks \<subseteq> (\<lambda>j. Some (ws_path_index (slots ! j))) ` ready e slots"

lemma fair_length: "fair_state e slots n picks slots' \<Longrightarrow> length slots' = length slots"
  unfolding fair_state_def by (elim conjE)

lemma fair_rest:
  "fair_state e slots n picks slots' \<Longrightarrow> j < length slots \<Longrightarrow> j \<notin> ready e slots \<Longrightarrow> slots' ! j = slots ! j"
  unfolding fair_state_def by (elim conjE) (drule spec [of _ j], drule (1) mp, erule mp, assumption)+

lemma fair_picks:
  "fair_state e slots n picks slots' \<Longrightarrow> set picks \<subseteq> (\<lambda>j. Some (ws_path_index (slots ! j))) ` ready e slots"
  unfolding fair_state_def by (elim conjE)

lemma fair_low:
  assumes "fair_state e slots n picks slots'" "j \<in> ready e slots"
  shows "- total_weight e slots < int n * uint (ws_weight (slots ! j))
      - total_weight e slots * int (count_list picks (Some (ws_path_index (slots ! j))))"
proof -
  have "ws_current_weight (slots' ! j)
           = int n * uint (ws_weight (slots ! j)) - total_weight e slots * int (count_list picks (Some (ws_path_index (slots ! j))))
         \<and> - total_weight e slots < ws_current_weight (slots' ! j)"
    using assms unfolding fair_state_def by blast
  then show ?thesis by simp
qed

lemma finite_ready [simp]: "finite (ready e slots)"
  by (simp add: ready_def)

lemma sum_list_ready:
  "sum_list (map (uint \<circ> ws_weight) (filter (\<lambda>s. e (ws_path_index s)) slots)) = total_weight e slots"
proof -
  have "sum_list (map (uint \<circ> ws_weight) (filter (\<lambda>s. e (ws_path_index s)) slots))
      = sum_list (map (\<lambda>s. if e (ws_path_index s) then uint (ws_weight s) else 0) slots)"
    by (induction slots) auto
  also have "\<dots> = (\<Sum>j < length slots. if e (ws_path_index (slots ! j)) then uint (ws_weight (slots ! j)) else 0)"
    by (simp add: sum_list_sum_nth atLeast0LessThan)
  also have "\<dots> = total_weight e slots"
    unfolding total_weight_def ready_def by (rule sum.mono_neutral_cong_right) auto
  finally show ?thesis .
qed

lemma total_weight_pos:
  assumes "slots_wf paths slots" "ready e slots \<noteq> {}"
  shows "0 < total_weight e slots"
proof -
  have "0 < uint (ws_weight (slots ! j))" if "j \<in> ready e slots" for j
  proof -
    have "ws_weight (slots ! j) \<noteq> 0" using assms(1) that nth_mem [of j slots] by (auto simp: slots_wf_def ready_def)
    then show ?thesis using uint_0_iff [of "ws_weight (slots ! j)"] uint_ge_0 [of "ws_weight (slots ! j)"] by linarith
  qed
  then show ?thesis unfolding total_weight_def using assms(2) by (intro sum_pos) auto
qed

lemma total_weight_le: "total_weight e slots \<le> 65535 * int (length slots)"
proof -
  have "uint (w :: 16 word) \<le> 65535" for w using uint_lt2p [of w] by simp
  then have "total_weight e slots \<le> (\<Sum>j \<in> ready e slots. 65535)"
    unfolding total_weight_def by (intro sum_mono) simp
  moreover have "card (ready e slots) \<le> length slots"
    using card_mono [of "{..<length slots}" "ready e slots"] by (auto simp: ready_def)
  ultimately show ?thesis by simp
qed

lemma fair_state_init:
  assumes "slots_wf paths slots" "ready e slots \<noteq> {}"
  shows "fair_state e slots 0 [] slots"
proof -
  have "ws_current_weight (slots ! j) = 0" if "j < length slots" for j
    using assms(1) nth_mem [OF that] by (simp add: slots_wf_def)
  then show ?thesis using total_weight_pos [OF assms] by (simp add: fair_state_def ready_def)
qed

lemma fair_step:
  assumes wf: "slots_wf paths slots" and small: "length slots \<le> 65536" and some: "ready e slots \<noteq> {}"
    and st: "fair_state e slots n picks slots'"
  shows "\<exists>pick slots''. select_eligible (\<lambda>s. e (ws_path_index s)) slots' = (Some pick, slots'')
    \<and> fair_state e slots (Suc n) (picks @ [Some pick]) slots''"
proof -
  let ?E = "\<lambda>s. e (ws_path_index s)"
  let ?J = "ready e slots" and ?w = "\<lambda>j. uint (ws_weight (slots ! j))" and ?T = "total_weight e slots"
  let ?c = "\<lambda>j. ws_current_weight (slots' ! j)"
  have len: "length slots' = length slots" and sum0: "(\<Sum>j \<in> ?J. ?c j) = 0" and picks: "length picks = n"
    and same: "\<And>j. j < length slots \<Longrightarrow> slots' ! j = (slots ! j)\<lparr>ws_current_weight := ?c j\<rparr>"
    and rest: "\<And>j. j < length slots \<Longrightarrow> j \<notin> ?J \<Longrightarrow> slots' ! j = slots ! j"
    and cur: "\<And>j. j \<in> ?J \<Longrightarrow> ?c j = int n * ?w j - ?T * int (count_list picks (Some (ws_path_index (slots ! j))))"
    and low: "\<And>j. j \<in> ?J \<Longrightarrow> - ?T < ?c j"
    and within: "set picks \<subseteq> (\<lambda>j. Some (ws_path_index (slots ! j))) ` ?J"
    using st unfolding fair_state_def by auto
  have idx: "ws_path_index (slots' ! j) = ws_path_index (slots ! j)" "ws_weight (slots' ! j) = ws_weight (slots ! j)"
    if "j < length slots" for j by (subst same [OF that], simp)+
  have J: "j \<in> ?J \<longleftrightarrow> j < length slots \<and> ?E (slots' ! j)" for j using idx by (auto simp: ready_def)
  have T: "sum_list (map (uint \<circ> ws_weight) (filter ?E slots')) = ?T"
  proof -
    have "ready e slots' = ?J" using idx len by (auto simp: ready_def)
    then show ?thesis unfolding sum_list_ready total_weight_def using idx by (auto simp: ready_def intro: sum.cong)
  qed
  have b': "ws_current_weight (bump ?E (slots' ! j)) = ?c j + ?w j" if "j \<in> ?J" for j
    using that J [of j] idx(2) [of j] by (simp add: bump_def)
  have "?T \<le> 65535 * 65536" using total_weight_le [of e slots] small by linarith
  then have bound: "- (2 ^ 63) < ws_current_weight (bump ?E s)" if s: "s \<in> set slots'" "?E s" for s
  proof -
    obtain j where j: "j < length slots" "slots' ! j = s" using s(1) len unfolding in_set_conv_nth by auto
    then have "j \<in> ?J" using J s(2) by blast
    moreover have "- (2 ^ 63) < - (65535 * 65536 :: int)" "0 \<le> ?w j" by simp_all
    ultimately show ?thesis using b' [of j] low [of j] \<open>?T \<le> 65535 * 65536\<close> unfolding j(2) [symmetric] by linarith
  qed
  obtain i where "i \<in> ?J" using some by blast
  then have elig: "\<exists>s \<in> set slots'. ?E s" using J [of i] len by (intro bexI [of _ "slots' ! i"]) auto
  from select_eligible_spec [of slots' ?E, OF elig bound] obtain b where b: "b < length slots'" "?E (slots' ! b)"
    and best: "\<And>s. s \<in> set slots' \<Longrightarrow> ?E s \<Longrightarrow> ws_current_weight (bump ?E s) \<le> ws_current_weight (bump ?E (slots' ! b))"
    and sel: "select_eligible ?E slots' = (Some (ws_path_index (slots' ! b)), (map (bump ?E) slots')[b := (bump ?E (slots' ! b))
        \<lparr>ws_current_weight := ws_current_weight (bump ?E (slots' ! b)) - ?T\<rparr>])"
    unfolding T by blast
  have bJ: "b \<in> ?J" using b J len by simp
  define slots'' where "slots'' = (map (bump ?E) slots')[b := (bump ?E (slots' ! b))
        \<lparr>ws_current_weight := ws_current_weight (bump ?E (slots' ! b)) - ?T\<rparr>]"
  have sumT: "(\<Sum>j \<in> ?J. ?c j + ?w j) = ?T" using sum0 by (simp add: sum.distrib total_weight_def)
  have top: "?c j + ?w j \<le> ?c b + ?w b" if "j \<in> ?J" for j
    using best [of "slots' ! j"] that J len b' bJ by simp
  have pos: "0 < ?c b + ?w b"
  proof (rule ccontr)
    assume "\<not> 0 < ?c b + ?w b"
    then have "(\<Sum>j \<in> ?J. ?c j + ?w j) \<le> 0" using top by (intro sum_nonpos) (meson linorder_not_less order_trans)
    then show False using sumT total_weight_pos [OF wf some] by simp
  qed
  have new: "ws_current_weight (slots'' ! j) = ?c j + ?w j - (if j = b then ?T else 0)" if "j \<in> ?J" for j
    using that b' J len b(1) by (auto simp: slots''_def)
  have inj: "ws_path_index (slots ! j) = ws_path_index (slots ! b) \<longleftrightarrow> j = b" if "j < length slots" for j
    using nth_eq_iff_index_eq [of "map ws_path_index slots" j b] wf that b(1) len by (simp add: slots_wf_def)
  have "(\<Sum>j \<in> ?J. ws_current_weight (slots'' ! j)) = (\<Sum>j \<in> ?J. ?c j + ?w j) - (\<Sum>j \<in> ?J. if j = b then ?T else 0)"
    by (simp add: new sum_subtractf)
  also have "\<dots> = 0" using sumT bJ by (simp add: sum.delta)
  finally have sum'': "(\<Sum>j \<in> ?J. ws_current_weight (slots'' ! j)) = 0" .
  have same'': "slots'' ! j = (slots ! j)\<lparr>ws_current_weight := ws_current_weight (slots'' ! j)\<rparr>" if "j < length slots" for j
  proof -
    have "(slots' ! j)\<lparr>ws_current_weight := x\<rparr> = (slots ! j)\<lparr>ws_current_weight := x\<rparr>" for x by (subst same [OF that]) simp
    then show ?thesis using that len b(1) same [OF that] by (cases "j = b") (auto simp: slots''_def bump_def)
  qed
  have rest'': "slots'' ! j = slots ! j" if "j < length slots" "j \<notin> ?J" for j
    using that rest J len bJ by (auto simp: slots''_def bump_def nth_list_update)
  have "fair_state e slots (Suc n) (picks @ [Some (ws_path_index (slots ! b))]) slots''"
    unfolding fair_state_def
  proof (intro conjI allI impI ballI)
    fix j assume j: "j \<in> ?J"
    then have jl: "j < length slots" by (simp add: ready_def)
    show "ws_current_weight (slots'' ! j) = int (Suc n) * ?w j
        - ?T * int (count_list (picks @ [Some (ws_path_index (slots ! b))]) (Some (ws_path_index (slots ! j))))"
      using new [OF j] cur [OF j] inj [OF jl] by (auto simp: algebra_simps)
    show "- ?T < ws_current_weight (slots'' ! j)"
    proof (cases "j = b")
      case False
      have "0 \<le> ?w j" "ws_current_weight (slots'' ! j) = ?c j + ?w j" using new [OF j] False by simp_all
      then show ?thesis using low [OF j] by linarith
    qed (use new [OF j] pos in simp)
  next
    show "set (picks @ [Some (ws_path_index (slots ! b))]) \<subseteq> (\<lambda>j. Some (ws_path_index (slots ! j))) ` ?J"
      using within bJ by auto
  qed (use same'' rest'' sum'' picks len in \<open>auto simp: slots''_def\<close>)
  then show ?thesis using sel idx b(1) len by (auto simp: slots''_def [symmetric])
qed

abbreviation whole_at :: "core_path list \<Rightarrow> nat \<Rightarrow> nat \<Rightarrow> bool" where
  "whole_at paths payload_len i \<equiv> accepts_whole_packet (paths ! i) \<and> payload_len \<le> max_data_payload (paths ! i)"

lemma fair_many:
  assumes wf: "slots_wf paths slots" and small: "length slots \<le> 65536" and some: "ready (whole_at paths len) slots \<noteq> {}"
  shows "fair_state (whole_at paths len) slots n (fst (select_many n paths len slots)) (snd (select_many n paths len slots))"
proof (induction n)
  case 0
  then show ?case using fair_state_init [OF wf some] by simp
next
  case (Suc n)
  let ?s = "snd (select_many n paths len slots)"
  obtain pick slots' where sel: "select_eligible (\<lambda>s. whole_at paths len (ws_path_index s)) ?s = (Some pick, slots')"
    and st: "fair_state (whole_at paths len) slots (Suc n) (fst (select_many n paths len slots) @ [Some pick]) slots'"
    using fair_step [OF wf small some Suc.IH] by blast
  have "?s \<noteq> []" using Suc.IH some by (auto simp: fair_state_def ready_def)
  then have "select_path_index paths len ?s = (Some pick, slots')"
    using sel by (simp add: select_path_index_def select_path_index_where_def)
  then show ?case using st by (simp add: case_prod_unfold)
qed

lemma current_weight_bounds:
  assumes "fair_state e slots n picks slots'" "j \<in> ready e slots"
  shows "\<bar>ws_current_weight (slots' ! j)\<bar> \<le> total_weight e slots * int (length slots)"
proof -
  let ?J = "ready e slots" and ?T = "total_weight e slots" and ?c = "\<lambda>j. ws_current_weight (slots' ! j)"
  have T: "0 \<le> ?T" unfolding total_weight_def by (simp add: sum_nonneg)
  have c: "\<And>j. j \<in> ?J \<Longrightarrow> - ?T < ?c j" "(\<Sum>j \<in> ?J. ?c j) = 0" using assms(1) by (auto simp: fair_state_def)
  have k: "card ?J \<le> length slots" using card_mono [of "{..<length slots}" ?J] by (auto simp: ready_def)
  have "0 < card ?J" using assms(2) card_gt_0_iff by fastforce
  then have "?T * 1 \<le> ?T * int (length slots)" using k T by (intro mult_left_mono) auto
  moreover have "?c j = - (\<Sum>i \<in> ?J - {j}. ?c i)" using c(2) assms(2) by (simp add: sum.remove)
  moreover have "(\<Sum>i \<in> ?J - {j}. - ?T) \<le> (\<Sum>i \<in> ?J - {j}. ?c i)" using c(1) by (intro sum_mono) (simp add: less_imp_le)
  moreover have "(\<Sum>i \<in> ?J - {j}. - ?T) = - (?T * int (card ?J - 1))" using assms(2) by (simp add: mult.commute)
  moreover have "?T * int (card ?J - 1) \<le> ?T * int (length slots)" using k T by (intro mult_left_mono) auto
  ultimately show ?thesis using c(1) [OF assms(2)] by linarith
qed

lemma length_compile: "length (compile_slots i paths allowed ws) \<le> length paths"
  by (induction paths arbitrary: i) (auto simp: Let_def le_SucI split: option.split)

lemma count_exact:
  fixes T c w k :: int
  assumes "c = T * w - T * k" "- T < c" "0 < T"
  shows "0 \<le> c"
proof -
  have "T * (- 1) < T * (w - k)" using assms(1,2) by (simp add: algebra_simps)
  then have "- 1 < w - k" using assms(3) by (simp only: mult_less_cancel_left_pos)
  then show ?thesis using assms(1,3) by (simp add: right_diff_distrib [symmetric])
qed

lemma fair_round:
  assumes wf: "slots_wf paths slots" and some: "ready e slots \<noteq> {}"
    and st: "fair_state e slots (nat (total_weight e slots)) picks slots'"
  shows "slots' = slots" "\<And>j. j \<in> ready e slots \<Longrightarrow> count_list picks (Some (ws_path_index (slots ! j))) = unat (ws_weight (slots ! j))"
proof -
  let ?T = "total_weight e slots" and ?J = "ready e slots" and ?c = "\<lambda>j. ws_current_weight (slots' ! j)"
  have T: "0 < ?T" by (rule total_weight_pos [OF wf some])
  have c: "?c j = ?T * uint (ws_weight (slots ! j)) - ?T * int (count_list picks (Some (ws_path_index (slots ! j))))"
      "- ?T < ?c j" if "j \<in> ?J" for j
    using st that T by (auto simp: fair_state_def)
  have "0 \<le> ?c j" if "j \<in> ?J" for j using count_exact [OF c [OF that] T] .
  moreover have "(\<Sum>j \<in> ?J. ?c j) = 0" using st unfolding fair_state_def by blast
  ultimately have z: "?c j = 0" if "j \<in> ?J" for j using that sum_nonneg_eq_0_iff [of ?J ?c] by auto
  show "slots' = slots"
  proof (rule nth_equalityI)
    show l: "length slots' = length slots" using st by (simp add: fair_state_def)
    fix j assume "j < length slots'"
    then have j: "j < length slots" using l by simp
    have "ws_current_weight (slots ! j) = 0" using wf nth_mem [OF j] by (simp add: slots_wf_def)
    then show "slots' ! j = slots ! j"
      using st j z [of j] unfolding fair_state_def by (cases "j \<in> ?J") (metis wrr_slot.surjective wrr_slot.update_convs(3), blast)
  qed
  fix j assume j: "j \<in> ?J"
  then have "?T * uint (ws_weight (slots ! j)) = ?T * int (count_list picks (Some (ws_path_index (slots ! j))))"
    using c(1) z by simp
  then show "count_list picks (Some (ws_path_index (slots ! j))) = unat (ws_weight (slots ! j))"
    using T by (simp add: unat_eq_nat_uint)
qed

lemma int_total: "int (sum_list (map (unat \<circ> ws_weight) xs)) = sum_list (map (uint \<circ> ws_weight) xs)"
  by (induction xs) simp_all

text \<open>
  C7. Weighted round robin is exactly fair. Take a freshly compiled scheduler over paths with nonzero
  weights and a payload that some slot's path can carry whole. In every run of as many sends as the
  weights of those slots add up to, each of them is chosen exactly as often as its weight, and the
  scheduler is back in its initial state, so the next run repeats. After any number n of sends, no
  path is a full send ahead of its share (total * picks < n * weight + total), every choice is one of
  these paths, and all current weights stay below 2^48 in absolute value.
\<close>
theorem wrr_exactly_fair:
  assumes "\<forall>p \<in> set paths. cp_weight p \<noteq> 0" and "length paths \<le> 65536"
    and "slots = compile_with_path_weights paths allowed ws"
    and "whole = filter (\<lambda>s. whole_at paths len (ws_path_index s)) slots" and "whole \<noteq> []"
    and "tw = sum_list (map (unat \<circ> ws_weight) whole)"
  shows "snd (select_many tw paths len slots) = slots
    \<and> (\<forall>s \<in> set whole. count_list (fst (select_many tw paths len slots)) (Some (ws_path_index s)) = unat (ws_weight s))
    \<and> (\<forall>s \<in> set whole. tw * count_list (fst (select_many n paths len slots)) (Some (ws_path_index s)) < n * unat (ws_weight s) + tw)
    \<and> set (fst (select_many n paths len slots)) \<subseteq> (Some \<circ> ws_path_index) ` set whole
    \<and> (\<forall>s \<in> set (snd (select_many n paths len slots)). \<bar>ws_current_weight s\<bar> < 2 ^ 48)"
proof -
  let ?e = "whole_at paths len"
  have wf: "slots_wf paths slots" using compile_wf [OF assms(1)] assms(3) by simp
  have small: "length slots \<le> 65536"
    using length_compile [of 0 paths allowed ws] assms(2,3) by (simp add: compile_with_path_weights_def)
  have "int tw = sum_list (map (uint \<circ> ws_weight) whole)" unfolding assms(6) by (rule int_total)
  also have "\<dots> = total_weight ?e slots" unfolding assms(4) by (rule sum_list_ready)
  finally have T: "int tw = total_weight ?e slots" .
  have W: "s \<in> set whole \<longleftrightarrow> (\<exists>j \<in> ready ?e slots. slots ! j = s)" for s
    using assms(4) by (auto simp: ready_def in_set_conv_nth)
  have some: "ready ?e slots \<noteq> {}" using assms(5) W [of "hd whole"] by auto
  note run = fair_many [OF wf small some]
  have "nat (total_weight ?e slots) = tw" using T by simp
  then have "fair_state ?e slots (nat (total_weight ?e slots)) (fst (select_many tw paths len slots)) (snd (select_many tw paths len slots))"
    using run [of tw] by simp
  note round = fair_round [OF wf some this]
  have ahead: "tw * count_list (fst (select_many n paths len slots)) (Some (ws_path_index (slots ! j))) < n * unat (ws_weight (slots ! j)) + tw"
    if "j \<in> ready ?e slots" for j
  proof -
    have "- int tw < int n * int (unat (ws_weight (slots ! j)))
        - int tw * int (count_list (fst (select_many n paths len slots)) (Some (ws_path_index (slots ! j))))"
      using fair_low [OF run [of n] that] unfolding T uint_nat .
    then have "int (tw * count_list (fst (select_many n paths len slots)) (Some (ws_path_index (slots ! j))))
        < int (n * unat (ws_weight (slots ! j)) + tw)" by simp
    then show ?thesis by (simp only: of_nat_less_iff)
  qed
  have "total_weight ?e slots * int (length slots) \<le> (65535 * 65536) * 65536"
    using total_weight_le [of ?e slots] small by (intro mult_mono) auto
  then have big: "total_weight ?e slots * int (length slots) < 2 ^ 48" by simp
  have bound: "\<bar>ws_current_weight s\<bar> < 2 ^ 48" if s: "s \<in> set (snd (select_many n paths len slots))" for s
  proof -
    obtain j where j: "j < length slots" "snd (select_many n paths len slots) ! j = s"
      using s fair_length [OF run [of n]] unfolding in_set_conv_nth by auto
    show ?thesis
    proof (cases "j \<in> ready ?e slots")
      case True
      have "\<bar>ws_current_weight (snd (select_many n paths len slots) ! j)\<bar> < 2 ^ 48"
        by (rule le_less_trans [OF current_weight_bounds [OF run [of n] True] big])
      then show ?thesis unfolding j(2) .
    next
      case False
      have "s = slots ! j" using fair_rest [OF run [of n] j(1) False] unfolding j(2) .
      then show ?thesis using wf nth_mem [OF j(1)] by (simp add: slots_wf_def)
    qed
  qed
  have "(\<lambda>j. Some (ws_path_index (slots ! j))) ` ready ?e slots \<subseteq> (Some \<circ> ws_path_index) ` set whole"
    using W by (auto simp: image_iff)
  then have "set (fst (select_many n paths len slots)) \<subseteq> (Some \<circ> ws_path_index) ` set whole"
    by (rule subset_trans [OF fair_picks [OF run [of n]]])
  moreover have "count_list (fst (select_many tw paths len slots)) (Some (ws_path_index s)) = unat (ws_weight s)"
    "tw * count_list (fst (select_many n paths len slots)) (Some (ws_path_index s)) < n * unat (ws_weight s) + tw"
    if s: "s \<in> set whole" for s
  proof -
    obtain j where j: "j \<in> ready ?e slots" "slots ! j = s" using iffD1 [OF W s] by blast
    show "count_list (fst (select_many tw paths len slots)) (Some (ws_path_index s)) = unat (ws_weight s)"
      using round(2) [OF j(1)] unfolding j(2) .
    show "tw * count_list (fst (select_many n paths len slots)) (Some (ws_path_index s)) < n * unat (ws_weight s) + tw"
      using ahead [OF j(1)] unfolding j(2) .
  qed
  ultimately show ?thesis using round(1) bound by (intro conjI ballI)
qed

text \<open>Three active paths with weights 5, 1 and 2, and a drained one that gets no whole packets.\<close>

definition sample_paths :: "core_path list" where
  "sample_paths =
     [\<lparr>cp_path_id = 1, cp_mtu = 1200, cp_enabled = True, cp_state = St_active, cp_weight = 5\<rparr>,
      \<lparr>cp_path_id = 2, cp_mtu = 1200, cp_enabled = True, cp_state = St_active, cp_weight = 1\<rparr>,
      \<lparr>cp_path_id = 3, cp_mtu = 1200, cp_enabled = True, cp_state = St_drain, cp_weight = 9\<rparr>,
      \<lparr>cp_path_id = 4, cp_mtu = 1200, cp_enabled = True, cp_state = St_active, cp_weight = 2\<rparr>]"

theorem wrr_exactly_fair_witness:
  "snd (select_many 8 sample_paths 100 (compile_with_path_weights sample_paths [] [])) = compile_with_path_weights sample_paths [] []
   \<and> count_list (fst (select_many 8 sample_paths 100 (compile_with_path_weights sample_paths [] []))) (Some 0) = 5"
proof -
  let ?whole = "filter (\<lambda>s. whole_at sample_paths 100 (ws_path_index s)) (compile_with_path_weights sample_paths [] [])"
  have w: "?whole = [\<lparr>ws_path_index = 0, ws_weight = 5, ws_current_weight = 0\<rparr>, \<lparr>ws_path_index = 1, ws_weight = 1, ws_current_weight = 0\<rparr>,
      \<lparr>ws_path_index = 3, ws_weight = 2, ws_current_weight = 0\<rparr>]"
    by (simp add: sample_paths_def compile_with_path_weights_def path_enabled_def service_weight_for_path_def
        accepts_whole_packet_def max_data_payload_def)
  have "\<forall>p \<in> set sample_paths. cp_weight p \<noteq> 0" "length sample_paths \<le> 65536" by (simp_all add: sample_paths_def)
  moreover have "?whole \<noteq> []" "8 = sum_list (map (unat \<circ> ws_weight) ?whole)" unfolding w by simp_all
  ultimately have run: "snd (select_many 8 sample_paths 100 (compile_with_path_weights sample_paths [] [])) = compile_with_path_weights sample_paths [] []"
      "\<forall>s \<in> set ?whole. count_list (fst (select_many 8 sample_paths 100 (compile_with_path_weights sample_paths [] [])))
         (Some (ws_path_index s)) = unat (ws_weight s)"
    using wrr_exactly_fair [where paths = sample_paths and len = 100 and whole = ?whole and tw = 8 and n = 0, OF _ _ refl refl] by blast+
  show ?thesis using run(1) bspec [OF run(2), of "\<lparr>ws_path_index = 0, ws_weight = 5, ws_current_weight = 0\<rparr>"] unfolding w by simp
qed

text \<open>
  The last attempt of a send looks at all paths, not at the compiled slots: a service restricted to path 2,
  which is busy and too narrow for the payload, is sent on path 1.
\<close>

lemma fallback_ignores_allowed_paths:
  "let paths = [\<lparr>cp_path_id = 1, cp_mtu = 1200, cp_enabled = True, cp_state = St_active, cp_weight = 1\<rparr>,
                \<lparr>cp_path_id = 2, cp_mtu = 100, cp_enabled = True, cp_state = St_busy, cp_weight = 1\<rparr>] in
   map ws_path_index (compile_with_path_weights paths [2] []) = [1]
   \<and> fst (select_path_index paths 1000 (compile_with_path_weights paths [2] [])) = Some 0"
  by (simp add: compile_with_path_weights_def path_enabled_def service_weight_for_path_def select_path_index_def
      select_path_index_where_def select_eligible_def accepts_whole_packet_def accepts_fragmented_packet_def max_data_payload_def)

end
