(* ===== verification/Spec2Isabelle.thy ===== *)
theory Spec2Isabelle
  imports Protocol_Theorems Relay_Sessions Rekey Dataplane_Replay Dataplane_Wrr
begin

text \<open>
  \<^bold>\<open>Gatherlink: a verification of the control plane and of parts of the dataplane.\<close>

  Gatherlink carries UDP services between two nodes over several paths. The Python control plane
  (\<^verbatim>\<open>src/python/gatherlink\<close>) owns identities, sessions, configuration and scheduling policy; the
  Rust dataplane (\<^verbatim>\<open>src/crates\<close>) executes what Python compiles. A node's identity is admitted by a
  signed topology. Two nodes plan a session from it, statically or by a Noise-IK-style handshake, and
  replace it by live rekeying. The session is exported to configuration, expanded into the runtime
  contract, and its keys protect frames in an encrypted envelope with a replay window. Control frames
  carry telemetry between the nodes; the scheduler scores it and compiles weights and limits per path.

  \<^bold>\<open>Conventions.\<close> A Python call that may raise returns \<open>'a res\<close>, where \<open>Inl\<close> is the exception; a call that
  changes an object returns the changed object. Dictionaries are association lists in insertion order. Python
  integers are \<open>int\<close>; bytes are \<open>8 word\<close>; Rust integers are words where their width matters. Strings
  are lists of code points (\<open>ustr\<close>). Times are integers in microseconds, as \<^verbatim>\<open>datetime\<close> keeps them. Double
  precision is modelled exactly on rationals (\<open>Float64\<close>) where a result depends on rounding. The current time,
  random draws and ephemeral keys are arguments. X25519, Ed25519, SHA-256 and HKDF (\<open>crypto\<close>) and the AEAD
  (\<open>aead_encrypt\<close>, \<open>aead_decrypt\<close>) belong to the \<^verbatim>\<open>cryptography\<close> package and are parameters; \<open>crypto_ok\<close> and
  \<open>aead\<close> state what the code relies on: output lengths, agreement of the key exchange, that decryption inverts
  encryption and accepts nothing else. Each theorem with such a hypothesis has a witness with concrete functions.

  \<^bold>\<open>Wire protocol\<close> (\<^verbatim>\<open>protocol.py\<close>).
  \<^item> \<open>GL_Prelude\<close>, \<open>Wire_Bytes\<close>, \<open>Utf8\<close>: the vocabulary, big-endian integers, slices and strict UTF-8.
  \<^item> \<open>Protocol_Frames\<close>: the v1 header, \<open>encode_data_frame\<close>, \<open>decode_data_frame\<close>, \<open>encode_control_frame\<close>.
  \<^item> \<open>Control_Messages\<close>: the fifteen control messages, each an interpretation of the locale \<open>wire_message\<close>.
  \<^item> \<open>Control_Payload\<close>: the payload encoder and decoder over them, through \<open>frame_field\<close> and \<open>control_message\<close>.
  \<^item> \<open>Control_Reencode\<close>: what the decoder returns is in the encoder's range.
  \<^item> \<open>Protocol_Theorems\<close>: round trips, decoders that never raise on any bytes, stability of decoded frames, and
    the clock-sync messages that the encoder emits and the decoder refuses.

  \<^bold>\<open>Transport security\<close> (\<^verbatim>\<open>security/\<close>, \<^verbatim>\<open>secrets/\<close>, \<^verbatim>\<open>runtime/rekey.py\<close>).
  \<^item> \<open>Replay\<close>: the Python window (\<^verbatim>\<open>replay.py\<close>) refines a specification over the set of all accepted counters;
    the locale \<open>replay_filter\<close> is the contract of a replay filter. The bitmap is never masked.
  \<^item> \<open>Dataplane_Replay\<close>: the ring of the Rust crate (\<^verbatim>\<open>crates/crypto/src/replay.rs\<close>) is a second interpretation of
    that locale, refines the same specification and agrees with the Python window.
  \<^item> \<open>Envelope\<close> (\<^verbatim>\<open>envelope.py\<close>): encryption, decryption and session state. The inductive relation \<open>link_step\<close>
    is a sender, an adversary who reorders, drops, repeats and forges, and a receiver; each frame is delivered
    at most once and only if it was sent.
  \<^item> \<open>Base64\<close>, \<open>Base64_Strict\<close>, \<open>Identity\<close>: text forms of keys, identities, topology and its validation.
  \<^item> \<open>Sessions\<close> (\<^verbatim>\<open>sessions.py\<close>): key derivation, planning, rotation. Both roles derive inverse keys; a planned
    session is with an unrevoked member; membership is checked by node id only.
  \<^item> \<open>Noise\<close> (\<^verbatim>\<open>noise.py\<close>): both sides of the handshake agree; acceptance authenticates the initiator; the index
    and expiry in the response are not authenticated.
  \<^item> \<open>Rekey\<close> (\<^verbatim>\<open>rekey_control.py\<close>, \<^verbatim>\<open>runtime/rekey.py\<close>): a rekey between connected nodes completes; only valid
    replacements are applied; a responder that fails closed still answers, so the two sides can part.
  \<^item> \<open>Relay_Sessions\<close> (\<^verbatim>\<open>relay_sessions.py\<close>): exact authorisation, and an executor expiry never later than authorised.
  \<^item> \<open>Provisioning\<close>: \<^verbatim>\<open>export_config\<close> of a session and the keys of its expansion, the bridge to configuration.

  \<^bold>\<open>Configuration\<close> (\<^verbatim>\<open>config/\<close>). \<open>Config_Models\<close> has one record per model of \<^verbatim>\<open>models.py\<close> with its constraints
  and validators. \<open>Config_Expansion\<close> is \<^verbatim>\<open>expansion.py\<close> and \<^verbatim>\<open>runtime.py\<close>: exactly when expansion raises and what
  it returns otherwise, and that service id allocation ends.

  \<^bold>\<open>Scheduling\<close> (\<^verbatim>\<open>scheduling/\<close> and \<^verbatim>\<open>crates/dataplane\<close>).
  \<^item> \<open>Sched_Metrics\<close>, \<open>Sched_Scoring\<close>, \<open>Sched_Congestion\<close>, \<open>Sched_Policies\<close>: metrics from control metadata,
    scoring and smoothing, congestion budgets and hysteresis, and every policy.
  \<^item> \<open>Sched_Compiler\<close>: the guards as interpretations of \<open>path_guard\<close> and \<open>fail_soft_guard\<close>; compiled paths are in
    range, the fail-soft guards keep a usable path, and the two latency guards may not.
  \<^item> \<open>Service_Intent\<close>: service classes and fair poll plans.
  \<^item> \<open>Dataplane_Wrr\<close> (\<^verbatim>\<open>scheduler/weighted_rr.rs\<close>, the path facts of \<^verbatim>\<open>runtime_config.rs\<close>): the weighted round robin
    is exactly fair, with a bound on its accumulators.

  This theory holds the end-to-end property over provisioning, configuration, envelope and frames.

  \<^bold>\<open>Loops and bounds.\<close> Every definition is a total function; no fuel is used. Loops are structural recursions on
  the list or the count they run over, and the remaining ones (among them UTF-8 decoding and the search for a free
  service id) are functions with a termination measure. The only size bound assumed is 65536 paths for the round robin, the
  number of 16-bit path ids; current weights are then below 2^48, so modelling \<^verbatim>\<open>i64\<close> as \<open>int\<close> loses nothing.

  \<^bold>\<open>Not modelled.\<close>
  \<^item> Input and output: command line, sockets, files, supervision, reload, helpers, carriers, bootstrap,
    persistence, diagnostics, lab and release tooling.
  \<^item> \<^verbatim>\<open>control/\<close>, \<^verbatim>\<open>paths/\<close>, \<^verbatim>\<open>scheduling/coordinator.py\<close>, \<^verbatim>\<open>service_paths.py\<close>, \<^verbatim>\<open>service_budget.py\<close>,
    \<^verbatim>\<open>service_outcome.py\<close> and \<^verbatim>\<open>time/\<close>: controllers over sampled clocks and untyped status dictionaries. The
    payloads, metrics, policies and plans they pass around are modelled, and so are the two clock messages;
    the pure rules inside them are the natural next components.
  \<^item> \<^verbatim>\<open>config/loader.py\<close>, \<^verbatim>\<open>migration.py\<close>, \<^verbatim>\<open>versions.py\<close>: file parsing and a migration registry with no
    registered migration.
  \<^item> \<^verbatim>\<open>security/handshake.py\<close> and \<^verbatim>\<open>secrets/bundles.py\<close>: documents in canonical CBOR signed with Ed25519, both
    from third-party packages.
  \<^item> The JSON text of rekey messages, a parameter; display exports and key redaction.
  \<^item> The rest of the Rust crates: the frame and control codecs and the envelope, whose Python counterparts are
    modelled, and the packet engine over UDP sockets.
\<close>

text \<open>
  C1. End to end. When an initiator can plan a session with a responder under a topology, the responder
  can plan the matching session, both exported configurations validate and expand, and any data frame
  the initiator encodes and encrypts with the expanded keys is accepted, decrypted and decoded by the
  responder to the same path, sequence and payload. The packet on the wire is longer than the frame by
  exactly the overhead that expansion deducts from every path MTU.
\<close>
theorem provisioned_nodes_communicate:
  assumes "crypto_ok cr" and "aead encrypt decrypt" and "identity_wf cr a" and "identity_wf cr b"
    and "ni_node_id a \<noteq> ni_node_id b"
    and "x25519_exchange cr (ni_x25519_private a) (ni_x25519_public b) = Some secret"
    and "plan_authenticated_static_session cr a (public_of_identity b) topo Initiator index now life = Inr pa"
    and "0 < life'"
    and "0 \<le> sequence" and "sequence < 2 ^ 64" and "0 \<le> path_id" and "path_id < 2 ^ 16" and "length payload < 2 ^ 16"
  shows "\<exists>pb ca cb sa sb frame packet ka d kb.
    plan_authenticated_static_session cr b (public_of_identity a) topo Responder index now' life' = Inr pb \<and>
    plan_export_config pa = Inr ca \<and> validate_security_material ca = Inr ca \<and> expand_security ca ids_a = Inr sa \<and>
    plan_export_config pb = Inr cb \<and> validate_security_material cb = Inr cb \<and> expand_security cb ids_b = Inr sb \<and>
    encode_data_frame sequence path_id payload = Inr frame \<and>
    encrypt_frame encrypt (runtime_keys sa) frame = Inr (packet, ka) \<and>
    decrypt_packet decrypt (runtime_keys sb) packet = (Inr d, kb) \<and>
    decode_data_frame (dp_plaintext d) = Inr (Some \<lparr>df_path_id = path_id, df_sequence = sequence, df_payload = payload\<rparr>) \<and>
    int (length packet) = int (length frame) + packet_overhead sa"
proof -
  obtain pb ma mb where p: "plan_authenticated_static_session cr b (public_of_identity a) topo Responder index now' life' = Inr pb"
    "sp_security pa = Some ma" "sp_security pb = Some mb" "material_ok ma index" "material_ok mb index"
    "0 \<le> index" "index < 2 ^ 32" "tm_send_key ma = tm_receive_key mb"
    using peer_plan [OF assms(1,3-8)] by blast
  obtain ca sa where a: "plan_export_config pa = Inr ca" "validate_security_material ca = Inr ca" "expand_security ca ids_a = Inr sa"
    "rsec_mode sa = Sec_static" "rsec_send_key sa = Some (tm_send_key ma)" "rsec_remote_receiver_index sa = index"
    using exported_material_expands [OF p(2,4), of ids_a] by blast
  obtain cb sb where b: "plan_export_config pb = Inr cb" "validate_security_material cb = Inr cb" "expand_security cb ids_b = Inr sb"
    "rsec_receive_key sb = Some (tm_receive_key mb)" "rsec_local_receiver_index sb = index"
    using exported_material_expands [OF p(3,5), of ids_b] by blast
  define frame where "frame = v1_header 0 256 path_id sequence @ payload"
  have f: "encode_data_frame sequence path_id payload = Inr frame"
    "decode_data_frame frame = Inr (Some \<lparr>df_path_id = path_id, df_sequence = sequence, df_payload = payload\<rparr>)"
    using assms(9-13) decode_encode_data_frame [of sequence path_id payload frame] by (simp_all add: frame_def encode_data_frame_eq)
  obtain packet ka d kb where "encrypt_frame encrypt (runtime_keys sa) frame = Inr (packet, ka)"
    "decrypt_packet decrypt (runtime_keys sb) packet = (Inr d, kb)" "dp_plaintext d = frame"
    "length packet = length frame + 29"
    using first_frame_delivered [OF assms(2), of "runtime_keys sb" "runtime_keys sa" frame] a b p(4,6-8)
    by (auto simp: runtime_keys_def new_transport_keys_def material_ok_def)
  then show ?thesis using p(1) a b f by (force simp: packet_overhead_def)
qed

theorem provisioned_nodes_communicate_witness:
  "\<exists>pa pb ca cb sa sb frame packet ka d kb.
    plan_authenticated_static_session sample_crypto (sample_identity 3) (public_of_identity (sample_identity 5))
      sample_topology Initiator 9 1000 120 = Inr pa \<and>
    plan_authenticated_static_session sample_crypto (sample_identity 5) (public_of_identity (sample_identity 3))
      sample_topology Responder 9 2000 60 = Inr pb \<and>
    plan_export_config pa = Inr ca \<and> expand_security ca [] = Inr sa \<and>
    plan_export_config pb = Inr cb \<and> expand_security cb [] = Inr sb \<and>
    encode_data_frame 5 7 [1, 2] = Inr frame \<and>
    encrypt_frame sample_encrypt (runtime_keys sa) frame = Inr (packet, ka) \<and>
    decrypt_packet sample_decrypt (runtime_keys sb) packet = (Inr d, kb) \<and>
    decode_data_frame (dp_plaintext d) = Inr (Some \<lparr>df_path_id = 7, df_sequence = 5, df_payload = [1, 2]\<rparr>)"
proof -
  obtain pa where pa: "plan_authenticated_static_session sample_crypto (sample_identity 3)
      (public_of_identity (sample_identity 5)) sample_topology Initiator 9 1000 120 = Inr pa"
    using sample_session by blast
  have "0 < (60 :: int)" "0 \<le> (5 :: int)" "(5 :: int) < 2 ^ 64" "0 \<le> (7 :: int)" "(7 :: int) < 2 ^ 16"
    "length ([1, 2] :: bytes) < 2 ^ 16" by simp_all
  from provisioned_nodes_communicate [OF sample_crypto_ok sample_aead sample_identities sample_exchange pa this,
      where now' = 2000 and ids_a = "[]" and ids_b = "[]"] pa
  show ?thesis by blast
qed

end
